(* ===== verification/Blog_Prelude.thy ===== *)
theory Blog_Prelude
  imports Main
begin

text \<open>
  Shared vocabulary of the development: the names of the model's basic types, the
  JavaScript string operations the sources use (\<open>String.prototype.split\<close> with a
  one-character separator, \<open>Array.prototype.pop\<close> on its result, \<open>startsWith\<close>,
  \<open>includes\<close>, and the decimal printing of a number inside a template literal),
  and the generic lemmas on lists and strings that the component theories share.
  The collection \<open>blog_simps\<close> gathers the evaluation rules of the components so
  that closed scenarios are decided by \<open>simp add: blog_simps\<close>.
\<close>

named_theorems blog_simps "evaluation rules of the blog model"

type_synonym url = string
type_synonym user_id = string
type_synonym path = string

section \<open>JavaScript string operations\<close>

text \<open>\<open>s.startsWith(p)\<close>.\<close>

definition starts_with :: "string \<Rightarrow> string \<Rightarrow> bool" where
  "starts_with s p \<longleftrightarrow> take (length p) s = p"

text \<open>\<open>s.includes(p)\<close>: \<open>p\<close> occurs as a contiguous block of \<open>s\<close>.\<close>

fun str_includes :: "string \<Rightarrow> string \<Rightarrow> bool" where
  "str_includes [] p \<longleftrightarrow> p = []"
| "str_includes (c # cs) p \<longleftrightarrow> starts_with (c # cs) p \<or> str_includes cs p"

text \<open>
  \<open>s.split(c)\<close> for a one-character separator: the maximal blocks between
  occurrences of \<open>c\<close>, always at least one (\<open>"".split(".")\<close> is \<open>[""]\<close>).
\<close>

fun split_on :: "char \<Rightarrow> string \<Rightarrow> string list" where
  "split_on c [] = [[]]"
| "split_on c (x # xs) =
     (if x = c then [] # split_on c xs
      else (case split_on c xs of [] \<Rightarrow> [[x]] | w # ws \<Rightarrow> (x # w) # ws))"

text \<open>\<open>ws.join(c)\<close>, the inverse of \<^const>\<open>split_on\<close>.\<close>

fun join_on :: "char \<Rightarrow> string list \<Rightarrow> string" where
  "join_on c [] = []"
| "join_on c [w] = w"
| "join_on c (w # ws) = w @ c # join_on c ws"

text \<open>
  \<open>xs.pop()\<close> returns the last element, or \<open>undefined\<close> on an empty array; the
  sources only pop the result of a split, which is never empty.
\<close>

definition js_pop :: "'a list \<Rightarrow> 'a option" where
  "js_pop xs = (if xs = [] then None else Some (last xs))"

text \<open>Decimal printing of a natural number, as \<open>`${n}`\<close> prints \<open>Date.now()\<close>.\<close>

fun dec_digits :: "nat \<Rightarrow> nat list" where
  "dec_digits n = (if n < 10 then [n] else dec_digits (n div 10) @ [n mod 10])"

declare dec_digits.simps [simp del]

definition digit_char :: "nat \<Rightarrow> char" where
  "digit_char d = ''0123456789'' ! d"

definition nat_to_dec :: "nat \<Rightarrow> string" where
  "nat_to_dec n = map digit_char (dec_digits n)"

text \<open>Reading the digits back, the inverse used by the round-trip lemma.\<close>

definition char_digit :: "char \<Rightarrow> nat" where
  "char_digit c = of_char c - 48"

definition dec_to_nat :: "string \<Rightarrow> nat" where
  "dec_to_nat s = foldl (\<lambda>acc c. 10 * acc + char_digit c) 0 s"

section \<open>Generic lemmas\<close>

lemma starts_with_iff [blog_simps]: "starts_with s p \<longleftrightarrow> (\<exists>r. s = p @ r)"
  unfolding starts_with_def by (metis append_take_drop_id append_eq_conv_conj)

lemma starts_with_append [simp]: "starts_with (p @ r) p"
  by (simp add: starts_with_def)

lemma split_on_not_Nil [simp]: "split_on c s \<noteq> []"
  by (induction s) (auto split: list.split)

lemma split_on_no_sep: "w \<in> set (split_on c s) \<Longrightarrow> c \<notin> set w"
proof (induction s arbitrary: w)
  case Nil
  then show ?case by simp
next
  case (Cons x xs)
  then show ?case by (auto split: if_splits list.splits)
qed

lemma split_on_subset: "w \<in> set (split_on c s) \<Longrightarrow> set w \<subseteq> set s"
proof (induction s arbitrary: w)
  case Nil
  then show ?case by simp
next
  case (Cons x xs)
  then show ?case by (fastforce split: if_splits list.splits)
qed

lemma join_on_Cons_nonempty:
  "ws \<noteq> [] \<Longrightarrow> join_on c (w # ws) = w @ c # join_on c ws"
  by (cases ws) auto

lemma join_split_on: "join_on c (split_on c s) = s"
proof (induction s)
  case Nil
  then show ?case by simp
next
  case (Cons x xs)
  show ?case
  proof (cases "x = c")
    case True
    with Cons show ?thesis by (simp add: join_on_Cons_nonempty)
  next
    case False
    then obtain w ws where sp: "split_on c xs = w # ws"
      by (cases "split_on c xs") auto
    with Cons False show ?thesis by (cases ws) auto
  qed
qed

lemma split_on_append_no_sep:
  "c \<notin> set w \<Longrightarrow> split_on c (w @ c # s) = w # split_on c s"
proof (induction w)
  case Nil
  then show ?case by simp
next
  case (Cons x xs)
  then show ?case by auto
qed

lemma split_on_no_sep_single: "c \<notin> set w \<Longrightarrow> split_on c w = [w]"
  by (induction w) auto

lemma split_on_append_sep:
  "split_on c (s @ c # t) = split_on c s @ split_on c t"
proof (induction s)
  case Nil
  then show ?case by simp
next
  case (Cons x xs)
  then show ?case by (cases "split_on c xs") auto
qed

lemma split_join_on:
  "ws \<noteq> [] \<Longrightarrow> (\<forall>w \<in> set ws. c \<notin> set w) \<Longrightarrow> split_on c (join_on c ws) = ws"
proof (induction ws rule: join_on.induct)
  case (2 c w)
  then show ?case by (simp add: split_on_no_sep_single)
next
  case (3 c w v vs)
  then show ?case by (simp add: split_on_append_no_sep)
qed simp

lemma last_split_on_append:
  "c \<notin> set w \<Longrightarrow> last (split_on c (s @ c # w)) = w"
  by (simp add: split_on_append_sep split_on_no_sep_single)

lemma js_pop_split_on: "js_pop (split_on c s) = Some (last (split_on c s))"
  by (simp add: js_pop_def)

lemma dec_digits_bound: "d \<in> set (dec_digits n) \<Longrightarrow> d < 10"
proof (induction n rule: dec_digits.induct)
  case (1 n)
  then show ?case
    by (cases "n < 10") (auto simp: dec_digits.simps [of n])
qed

lemma dec_to_nat_snoc:
  "dec_to_nat (s @ [c]) = 10 * dec_to_nat s + char_digit c"
  by (simp add: dec_to_nat_def)

lemma digit_cases:
  "d < (10::nat) \<Longrightarrow>
   d = 0 \<or> d = 1 \<or> d = 2 \<or> d = 3 \<or> d = 4 \<or> d = 5 \<or> d = 6 \<or> d = 7 \<or> d = 8 \<or> d = 9"
  by arith

lemma char_digit_digit_char: "d < 10 \<Longrightarrow> char_digit (digit_char d) = d"
  by (drule digit_cases) (auto simp: char_digit_def digit_char_def)

lemma dec_to_nat_nat_to_dec: "dec_to_nat (nat_to_dec n) = n"
proof (induction n rule: dec_digits.induct)
  case (1 n)
  show ?case
  proof (cases "n < 10")
    case True
    then show ?thesis
      by (simp add: nat_to_dec_def dec_digits.simps [of n] dec_to_nat_def
          char_digit_digit_char)
  next
    case False
    then have "dec_to_nat (nat_to_dec n) =
        10 * dec_to_nat (nat_to_dec (n div 10)) + char_digit (digit_char (n mod 10))"
      by (simp add: nat_to_dec_def dec_digits.simps [of n] dec_to_nat_snoc)
    with "1" False show ?thesis by (simp add: char_digit_digit_char)
  qed
qed

lemma digit_char_not_sep: "d < 10 \<Longrightarrow> digit_char d \<noteq> CHR ''/''"
  by (drule digit_cases) (auto simp: digit_char_def)

lemma nat_to_dec_no_slash: "CHR ''/'' \<notin> set (nat_to_dec n)"
  using dec_digits_bound digit_char_not_sep by (fastforce simp: nat_to_dec_def)

lemma set_map_filter_iff:
  "y \<in> set (List.map_filter f xs) \<longleftrightarrow> (\<exists>x \<in> set xs. f x = Some y)"
  by (induction xs) (auto split: option.split)

lemma length_map_filter_filter:
  "length (List.map_filter f (filter Q xs)) \<le> length (List.map_filter f xs)"
  by (induction xs) (auto split: option.split)

lemma map_filter_append [simp]:
  "List.map_filter f (xs @ ys) = List.map_filter f xs @ List.map_filter f ys"
  by (simp add: List.map_filter_def)

lemma find_filter_single: "filter P xs = [x] \<Longrightarrow> find P xs = Some x"
  by (induction xs) (auto split: if_splits)

lemma map_filter_map_Some:
  "(\<forall>x \<in> set xs. f (g x) = Some (h x)) \<Longrightarrow> List.map_filter f (map g xs) = map h xs"
  by (induction xs) auto

lemma hd_filter_set: "filter P xs \<noteq> [] \<Longrightarrow> hd (filter P xs) \<in> set xs"
  by (induction xs) auto

lemma hd_filter_prop: "filter P xs \<noteq> [] \<Longrightarrow> P (hd (filter P xs))"
  by (induction xs) auto

lemma hd_filter_neq: "filter (\<lambda>y. y \<noteq> x) xs \<noteq> [] \<Longrightarrow> hd (filter (\<lambda>y. y \<noteq> x) xs) \<noteq> x"
  using hd_filter_prop [of "\<lambda>y. y \<noteq> x" xs] by simp

lemma filter_neq_set: "set (filter (\<lambda>y. y \<noteq> x) xs) = set xs - {x}"
  by auto

end
