(* ===== verification/Object_Store.thy ===== *)
theory Object_Store
  imports Blog_Prelude "HOL-Library.Char_ord" "HOL-Library.List_Lexorder"
begin

text \<open>
  The remote object store of the \<open>blog-images\<close> bucket, as the sources use it through
  the platform's storage client: \<open>list(folder)\<close>, \<open>upload(path, file, {upsert: false})\<close>,
  \<open>getPublicUrl(path)\<close> and \<open>remove(paths)\<close>. The client library is not part of the
  repository, so this theory follows the spec (section 6) and the library's documented
  behaviour: a listing returns the direct children of a folder sorted by name (the
  client's default \<open>sortBy: {column: "name", order: "asc"}\<close>), the first
  \<open>list_limit\<close> (the client's default page of 100) of them; an upload without
  upsert fails on an existing path; removal deletes every listed path. A remote call may
  also fail for reasons outside the model (network, authorisation): such a failure is a
  value of \<open>remote_fault\<close> handed to the operation that makes the call.
\<close>

record bucket =
  objects :: "path list"

datatype remote_fault =
    ErrorResponse string  \<comment> \<open>the client resolves with \<open>{error}\<close>\<close>
  | Thrown string         \<comment> \<open>the call throws; the string is \<open>error.message\<close>\<close>

definition list_limit :: nat where
  "list_limit = 100"

definition bucket_url_prefix :: string where
  "bucket_url_prefix = ''/storage/v1/object/public/blog-images/''"

text \<open>The name under folder \<open>uid\<close> of a stored path, if it is a direct child.\<close>

definition child_name :: "user_id \<Rightarrow> path \<Rightarrow> string option" where
  "child_name uid p =
     (if starts_with p (uid @ ''/'') \<and> CHR ''/'' \<notin> set (drop (Suc (length uid)) p)
      then Some (drop (Suc (length uid)) p) else None)"

definition storage_list :: "bucket \<Rightarrow> user_id \<Rightarrow> string list" where
  "storage_list b uid = take list_limit (sort (List.map_filter (child_name uid) (objects b)))"

definition storage_upload :: "bucket \<Rightarrow> path \<Rightarrow> string + bucket" where
  "storage_upload b p =
     (if p \<in> set (objects b) then Inl ''The resource already exists''
      else Inr (b\<lparr>objects := objects b @ [p]\<rparr>))"

definition storage_remove :: "bucket \<Rightarrow> path list \<Rightarrow> bucket" where
  "storage_remove b ps = b\<lparr>objects := filter (\<lambda>p. p \<notin> set ps) (objects b)\<rparr>"

definition get_public_url :: "string \<Rightarrow> path \<Rightarrow> url" where
  "get_public_url base p = base @ bucket_url_prefix @ p"

text \<open>Well-formedness of the bucket: a path is stored at most once.\<close>

definition bucket_wf :: "bucket \<Rightarrow> bool" where
  "bucket_wf b \<longleftrightarrow> distinct (objects b)"

lemmas store_defs [blog_simps] =
  storage_list_def storage_upload_def storage_remove_def get_public_url_def
  child_name_def list_limit_def bucket_url_prefix_def

section \<open>Properties of the store\<close>

lemma child_name_Some:
  "child_name uid p = Some n \<longleftrightarrow> p = uid @ ''/'' @ n \<and> CHR ''/'' \<notin> set n"
  by (auto simp: child_name_def starts_with_iff)

lemma child_name_path [simp]:
  "CHR ''/'' \<notin> set n \<Longrightarrow> child_name uid (uid @ ''/'' @ n) = Some n"
  by (simp add: child_name_Some)

lemma set_map_filter_child_name:
  "set (List.map_filter (child_name uid) ps) = {n. uid @ ''/'' @ n \<in> set ps \<and> CHR ''/'' \<notin> set n}"
  by (auto simp: set_map_filter_iff child_name_Some)

lemma storage_upload_wf:
  "bucket_wf b \<Longrightarrow> storage_upload b p = Inr b' \<Longrightarrow> bucket_wf b'"
  by (auto simp: bucket_wf_def storage_upload_def split: if_splits)

lemma storage_remove_wf: "bucket_wf b \<Longrightarrow> bucket_wf (storage_remove b ps)"
  by (simp add: bucket_wf_def storage_remove_def)

lemma storage_upload_objects:
  "storage_upload b p = Inr b' \<Longrightarrow> objects b' = objects b @ [p] \<and> p \<notin> set (objects b)"
  by (auto simp: storage_upload_def split: if_splits)

lemma storage_upload_existing:
  "p \<in> set (objects b) \<Longrightarrow> storage_upload b p = Inl ''The resource already exists''"
  by (simp add: storage_upload_def)

lemma set_storage_remove [simp]:
  "set (objects (storage_remove b ps)) = set (objects b) - set ps"
  by (auto simp: storage_remove_def)

lemma storage_remove_Nil [simp]: "storage_remove b [] = b"
  by (simp add: storage_remove_def)

lemma storage_list_child:
  "n \<in> set (storage_list b uid) \<Longrightarrow> uid @ ''/'' @ n \<in> set (objects b) \<and> CHR ''/'' \<notin> set n"
proof -
  assume "n \<in> set (storage_list b uid)"
  then have "n \<in> set (sort (List.map_filter (child_name uid) (objects b)))"
    unfolding storage_list_def by (rule in_set_takeD)
  then show ?thesis by (simp add: set_map_filter_child_name)
qed

end
