(* ===== verification/Image_Upload.thy ===== *)
theory Image_Upload
  imports Object_Store
begin

text \<open>
  The image upload service of \<open>src/lib/utils/image-upload.ts\<close>: \<open>uploadImage\<close>
  validates a file (MIME type, 5 MiB limit) before any remote call, derives the path
  \<open>userId/now-random.ext\<close>, uploads without upsert and returns the public URL;
  \<open>deleteImage\<close> parses an image URL, takes the last segment of its path name and
  removes that name from the caller's own folder. The clock value \<open>Date.now()\<close> and the
  token \<open>Math.random().toString(36).substring(2)\<close> are parameters of the model; a
  failing remote call is a \<^typ>\<open>remote_fault\<close>.
\<close>

record image_file =
  file_name :: string
  file_type :: string
  file_size :: nat

datatype upload_error = InvalidType | TooLarge | StoreError string

definition max_upload_size :: nat where
  "max_upload_size = 5 * 1024 * 1024"

text \<open>The message the result carries, as the source writes it.\<close>

fun upload_error_message :: "upload_error \<Rightarrow> string" where
  "upload_error_message InvalidType = ''Please upload only image files.''"
| "upload_error_message TooLarge = ''Please upload images smaller than 5MB.''"
| "upload_error_message (StoreError m) = m"

text \<open>\<open>file.name.split(".").pop()\<close>; printed as \<open>undefined\<close> if the array were empty.\<close>

definition file_ext :: "string \<Rightarrow> string" where
  "file_ext n = (case js_pop (split_on CHR ''.'' n) of None \<Rightarrow> ''undefined'' | Some e \<Rightarrow> e)"

definition upload_file_name :: "user_id \<Rightarrow> nat \<Rightarrow> string \<Rightarrow> string \<Rightarrow> path" where
  "upload_file_name uid now rnd n =
     uid @ ''/'' @ nat_to_dec now @ ''-'' @ rnd @ ''.'' @ file_ext n"

text \<open>The message of a failed remote call: \<open>error.message\<close>, or \<open>"Upload failed"\<close>
  when a thrown error has none.\<close>

fun fault_message :: "remote_fault \<Rightarrow> string" where
  "fault_message (ErrorResponse m) = m"
| "fault_message (Thrown m) = (if m = [] then ''Upload failed'' else m)"

definition uploadImage ::
  "string \<Rightarrow> bucket \<Rightarrow> image_file \<Rightarrow> user_id \<Rightarrow> nat \<Rightarrow> string \<Rightarrow> remote_fault option \<Rightarrow>
   (upload_error + url) \<times> bucket" where
  "uploadImage base b f uid now rnd fault =
     (if \<not> starts_with (file_type f) ''image/'' then (Inl InvalidType, b)
      else if max_upload_size < file_size f then (Inl TooLarge, b)
      else
        (let p = upload_file_name uid now rnd (file_name f) in
         case fault of
           Some e \<Rightarrow> (Inl (StoreError (fault_message e)), b)
         | None \<Rightarrow>
             (case storage_upload b p of
                Inl m \<Rightarrow> (Inl (StoreError m), b)
              | Inr b' \<Rightarrow> (Inr (get_public_url base p), b'))))"

section \<open>URL parsing for \<open>deleteImage\<close>\<close>

text \<open>
  \<open>new URL(u).pathname\<close>: the text after the first \<open>://\<close>, cut at the first
  \<open>?\<close> or \<open>#\<close>, from its first \<open>/\<close> on (\<open>/\<close> when there is none). A string
  without \<open>://\<close> makes the constructor throw, which is \<open>None\<close> here.
\<close>

fun strip_scheme :: "string \<Rightarrow> string option" where
  "strip_scheme [] = None"
| "strip_scheme (c # cs) =
     (if starts_with (c # cs) ''://'' then Some (drop 3 (c # cs)) else strip_scheme cs)"

definition url_pathname :: "url \<Rightarrow> string option" where
  "url_pathname u =
     (case strip_scheme u of
        None \<Rightarrow> None
      | Some rest \<Rightarrow>
          (let p = dropWhile (\<lambda>c. c \<noteq> CHR ''/'')
                     (takeWhile (\<lambda>c. c \<noteq> CHR ''?'' \<and> c \<noteq> CHR ''#'') rest)
           in Some (if p = [] then ''/'' else p)))"

definition deleteImage ::
  "bucket \<Rightarrow> url \<Rightarrow> user_id \<Rightarrow> remote_fault option \<Rightarrow> bool \<times> bucket" where
  "deleteImage b imageUrl uid fault =
     (case url_pathname imageUrl of
        None \<Rightarrow> (False, b)
      | Some pn \<Rightarrow>
          (let fileName = last (split_on CHR ''/'' pn);
               filePath = uid @ ''/'' @ fileName
           in case fault of
                None \<Rightarrow> (True, storage_remove b [filePath])
              | Some _ \<Rightarrow> (False, b)))"

lemmas upload_defs [blog_simps] =
  uploadImage_def upload_file_name_def file_ext_def max_upload_size_def js_pop_def
  deleteImage_def url_pathname_def nat_to_dec_def digit_char_def Let_def

text \<open>A path segment that URL parsing keeps whole.\<close>

definition plain_segment :: "string \<Rightarrow> bool" where
  "plain_segment s \<longleftrightarrow> CHR ''/'' \<notin> set s \<and> CHR ''?'' \<notin> set s \<and> CHR ''#'' \<notin> set s"

section \<open>Lemmas on paths and URLs\<close>

lemma file_ext_split: "file_ext n = last (split_on CHR ''.'' n)"
  by (simp add: file_ext_def js_pop_def)

lemma file_ext_no_slash:
  assumes "CHR ''/'' \<notin> set n"
  shows "CHR ''/'' \<notin> set (file_ext n)"
proof -
  have "file_ext n \<in> set (split_on CHR ''.'' n)"
    by (simp add: file_ext_split)
  then have "set (file_ext n) \<subseteq> set n"
    by (rule split_on_subset)
  with assms show ?thesis by blast
qed

lemma upload_file_name_child:
  assumes "CHR ''/'' \<notin> set rnd" and "CHR ''/'' \<notin> set n"
  shows "child_name uid (upload_file_name uid now rnd n) =
           Some (nat_to_dec now @ ''-'' @ rnd @ ''.'' @ file_ext n)"
  using assms nat_to_dec_no_slash file_ext_no_slash [OF assms(2)]
  by (simp add: upload_file_name_def child_name_Some)

lemma strip_scheme_append:
  "CHR '':'' \<notin> set s \<Longrightarrow> strip_scheme (s @ ''://'' @ r) = Some r"
  by (induction s) (auto simp: starts_with_def)

lemma url_pathname_public:
  assumes "CHR '':'' \<notin> set scheme" and "plain_segment host"
    and "CHR ''?'' \<notin> set q" and "CHR ''#'' \<notin> set q"
  shows "url_pathname (get_public_url (scheme @ ''://'' @ host) q) = Some (bucket_url_prefix @ q)"
proof -
  have s: "strip_scheme (get_public_url (scheme @ ''://'' @ host) q) =
      Some (host @ bucket_url_prefix @ q)"
    using strip_scheme_append [OF assms(1), of "host @ bucket_url_prefix @ q"]
    by (simp add: get_public_url_def)
  have t: "takeWhile (\<lambda>c. c \<noteq> CHR ''?'' \<and> c \<noteq> CHR ''#'') (host @ bucket_url_prefix @ q)
        = host @ bucket_url_prefix @ q"
    using assms by (auto simp: plain_segment_def bucket_url_prefix_def takeWhile_eq_all_conv)
  have "\<forall>c \<in> set host. c \<noteq> CHR ''/''"
    using assms(2) by (auto simp: plain_segment_def)
  then have d: "dropWhile (\<lambda>c. c \<noteq> CHR ''/'') (host @ bucket_url_prefix @ q) = bucket_url_prefix @ q"
    by (simp add: bucket_url_prefix_def dropWhile_append2)
  have ne: "bucket_url_prefix @ q \<noteq> []"
    by (simp add: bucket_url_prefix_def)
  show ?thesis
    unfolding url_pathname_def s Let_def option.case t d using ne by simp
qed

lemma last_segment_public:
  "CHR ''/'' \<notin> set n \<Longrightarrow> last (split_on CHR ''/'' (bucket_url_prefix @ uid @ ''/'' @ n)) = n"
  using last_split_on_append [of "CHR ''/''" n "bucket_url_prefix @ uid"] by simp

text \<open>The bucket after an upload or a deletion: unchanged, or changed by one storage call.\<close>

lemma uploadImage_bucket:
  "snd (uploadImage base b f uid now rnd fault) = b \<or>
   storage_upload b (upload_file_name uid now rnd (file_name f)) = Inr (snd (uploadImage base b f uid now rnd fault))"
  by (auto simp: uploadImage_def Let_def split: option.splits sum.splits)

lemma deleteImage_bucket:
  "snd (deleteImage b imageUrl uid fault) = b \<or> (\<exists>ps. snd (deleteImage b imageUrl uid fault) = storage_remove b ps)"
  by (auto simp: deleteImage_def Let_def split: option.splits)

section \<open>Properties of the upload service\<close>

text \<open>
  C1. Validation happens before any remote call: a file whose MIME type does not start
  with \<open>image/\<close> is refused with \<open>InvalidType\<close>, whatever the store would answer
  (the fault argument is ignored), and the bucket is left as it was.
\<close>

theorem upload_invalid_type:
  "\<not> starts_with (file_type f) ''image/'' \<Longrightarrow>
   uploadImage base b f uid now rnd fault = (Inl InvalidType, b)"
  by (simp add: uploadImage_def)

theorem upload_invalid_type_witness:
  "\<not> starts_with ''text/plain'' ''image/'' \<and>
   uploadImage ''https://x.supabase.co'' \<lparr>objects = []\<rparr>
     \<lparr>file_name = ''a.txt'', file_type = ''text/plain'', file_size = 10\<rparr> ''u1'' 7 ''k'' None
   = (Inl InvalidType, \<lparr>objects = []\<rparr>)"
  using upload_invalid_type [of "\<lparr>file_name = ''a.txt'', file_type = ''text/plain'', file_size = 10\<rparr>"]
  by (simp add: starts_with_def)

text \<open>
  C2. An image larger than 5 MiB (5 * 1024 * 1024 bytes) is refused with
  \<open>TooLarge\<close> before any remote call, and the bucket is left as it was.
\<close>

theorem upload_too_large:
  "starts_with (file_type f) ''image/'' \<Longrightarrow> max_upload_size < file_size f \<Longrightarrow>
   uploadImage base b f uid now rnd fault = (Inl TooLarge, b)"
  by (simp add: uploadImage_def)

theorem upload_too_large_witness:
  "starts_with ''image/png'' ''image/'' \<and> max_upload_size < 6291456 \<and>
   uploadImage ''https://x.supabase.co'' \<lparr>objects = []\<rparr>
     \<lparr>file_name = ''dog.png'', file_type = ''image/png'', file_size = 6291456\<rparr> ''u1'' 7 ''k'' None
   = (Inl TooLarge, \<lparr>objects = []\<rparr>)"
  using upload_too_large [of "\<lparr>file_name = ''dog.png'', file_type = ''image/png'', file_size = 6291456\<rparr>"]
  by (simp add: starts_with_def max_upload_size_def)

text \<open>
  C3. A valid image whose derived path is free is stored at exactly that path
  (appended to the bucket) and the result is the public URL of the path.
\<close>

theorem upload_success:
  assumes "starts_with (file_type f) ''image/''" and "file_size f \<le> max_upload_size"
    and "upload_file_name uid now rnd (file_name f) \<notin> set (objects b)"
  shows "uploadImage base b f uid now rnd None =
     (Inr (get_public_url base (upload_file_name uid now rnd (file_name f))),
      b\<lparr>objects := objects b @ [upload_file_name uid now rnd (file_name f)]\<rparr>)"
  using assms by (simp add: uploadImage_def storage_upload_def Let_def)

theorem upload_success_witness:
  "uploadImage ''https://x.supabase.co'' \<lparr>objects = []\<rparr>
     \<lparr>file_name = ''cat.png'', file_type = ''image/png'', file_size = 2097152\<rparr> ''u1'' 1712 ''k'' None
   = (Inr ''https://x.supabase.co/storage/v1/object/public/blog-images/u1/1712-k.png'',
      \<lparr>objects = [''u1/1712-k.png'']\<rparr>)"
  using upload_success [of "\<lparr>file_name = ''cat.png'', file_type = ''image/png'', file_size = 2097152\<rparr>"
      "''u1''" 1712 "''k''" "\<lparr>objects = []\<rparr>" "''https://x.supabase.co''"]
  by (simp add: blog_simps dec_digits.simps)









text \<open>
  C8. \<open>deleteImage\<close> only ever deletes inside the caller's folder: every object it
  removes has a path starting with \<open>userId/\<close>, whatever URL it is given.
\<close>

theorem deleteImage_own_folder:
  "set (objects b) - set (objects (snd (deleteImage b u uid fault))) \<subseteq> {p. starts_with p (uid @ ''/'')}"
  by (auto simp: deleteImage_def Let_def starts_with_def split: option.splits)

end
