(* ===== verification/Post_Types.thy ===== *)
theory Post_Types
  imports Blog_Prelude
begin

text \<open>
  The persisted records of \<open>src/lib/types.ts\<close>: a post and its author's profile.
  A nullable column (\<open>string | null\<close>) is an \<^typ>\<open>'a option\<close>; the joined
  \<open>profiles\<close> and \<open>post_images\<close> fields are not read by the modelled code and are
  left out. JavaScript truthiness of a nullable string (\<open>if (x)\<close>, \<open>x || d\<close>) is
  written out: \<open>null\<close> and the empty string are false.
\<close>

record profile =
  profile_id :: user_id
  email :: string
  full_name :: "string option"
  avatar_url :: "string option"
  profile_created_at :: string
  profile_updated_at :: string

record post =
  post_id :: string
  title :: string
  slug :: string
  content :: string
  excerpt :: "string option"
  featured_image :: "url option"
  images :: "url list option"
  author_id :: user_id
  published :: bool
  created_at :: string
  updated_at :: string

text \<open>\<open>x || ""\<close> for a nullable string.\<close>

definition or_empty :: "string option \<Rightarrow> string" where
  "or_empty x = (case x of None \<Rightarrow> [] | Some s \<Rightarrow> s)"

text \<open>\<open>s || null\<close> for a string: the empty string becomes \<open>null\<close>.\<close>

definition nonempty_or_null :: "string \<Rightarrow> string option" where
  "nonempty_or_null s = (if s = [] then None else Some s)"

text \<open>\<open>xs || []\<close> for a nullable array.\<close>

definition list_or_empty :: "'a list option \<Rightarrow> 'a list" where
  "list_or_empty x = (case x of None \<Rightarrow> [] | Some xs \<Rightarrow> xs)"

lemma or_empty_simps [simp]: "or_empty None = []" "or_empty (Some s) = s"
  by (simp_all add: or_empty_def)

lemma list_or_empty_simps [simp]: "list_or_empty None = []" "list_or_empty (Some xs) = xs"
  by (simp_all add: list_or_empty_def)

lemma or_empty_nonempty_or_null [simp]: "or_empty (nonempty_or_null s) = s"
  by (simp add: nonempty_or_null_def)

end
