(* ===== verification/Image_Tracker.thy ===== *)
theory Image_Tracker
  imports Post_Types
begin

text \<open>
  The image state of the post editor, \<open>src/components/blog/post-form.tsx\<close>: the
  ordered list \<open>images\<close> and the string \<open>featuredImage\<close> (empty for none), and the
  two callbacks \<open>handleImageAdd\<close> and \<open>handleImageRemove\<close> it hands to the upload
  component. A callback is a closure over the values of one render: it reads
  \<open>images\<close> and \<open>featuredImage\<close> from that render's snapshot, while
  \<open>setImages(prev => ...)\<close> updates the live state and \<open>setFeaturedImage(v)\<close>
  overwrites it. So each handler takes the snapshot it closed over and the live state.
  When every callback runs in the render after the previous one (the snapshot is the live
  state), the handlers are the tracker operations of spec section 4.2; when several run
  from one render (the uploads of one batch, two quick removals) they see stale values.
\<close>

record image_state =
  form_images :: "url list"
  featuredImage :: url

text \<open>\<open>useState(post?.images || [])\<close>, \<open>useState(post?.featured_image || "")\<close>.\<close>

definition init_image_state :: "post option \<Rightarrow> image_state" where
  "init_image_state p =
     (case p of
        None \<Rightarrow> \<lparr>form_images = [], featuredImage = []\<rparr>
      | Some q \<Rightarrow> \<lparr>form_images = list_or_empty (images q), featuredImage = or_empty (featured_image q)\<rparr>)"

definition handleImageAdd :: "image_state \<Rightarrow> url \<Rightarrow> image_state \<Rightarrow> image_state" where
  "handleImageAdd snap imageUrl st =
     (let st1 = st\<lparr>form_images := form_images st @ [imageUrl]\<rparr> in
      if featuredImage snap = [] \<and> form_images snap = [] then st1\<lparr>featuredImage := imageUrl\<rparr>
      else st1)"

definition handleImageRemove :: "image_state \<Rightarrow> url \<Rightarrow> image_state \<Rightarrow> image_state" where
  "handleImageRemove snap imageUrl st =
     (let st1 = st\<lparr>form_images := filter (\<lambda>img. img \<noteq> imageUrl) (form_images st)\<rparr> in
      if featuredImage snap = imageUrl then
        (let remainingImages = filter (\<lambda>img. img \<noteq> imageUrl) (form_images snap) in
         st1\<lparr>featuredImage := (if remainingImages \<noteq> [] then hd remainingImages else [])\<rparr>)
      else st1)"

text \<open>An editor event, and a run in which every event is handled in a fresh render.\<close>

datatype tracker_event = Add url | Remove url

fun tracker_step :: "image_state \<Rightarrow> tracker_event \<Rightarrow> image_state" where
  "tracker_step st (Add u) = handleImageAdd st u st"
| "tracker_step st (Remove u) = handleImageRemove st u st"

definition tracker_run :: "image_state \<Rightarrow> tracker_event list \<Rightarrow> image_state" where
  "tracker_run st evs = foldl tracker_step st evs"

text \<open>Callbacks fired from one render: all of them close over the same snapshot.\<close>

definition stale_run :: "image_state \<Rightarrow> tracker_event list \<Rightarrow> image_state \<Rightarrow> image_state" where
  "stale_run snap evs st =
     foldl (\<lambda>s e. case e of Add u \<Rightarrow> handleImageAdd snap u s | Remove u \<Rightarrow> handleImageRemove snap u s)
       st evs"

text \<open>
  The tracker invariant of spec section 4.2: the featured image is empty or one of the
  tracked images.
\<close>

definition tracker_inv :: "image_state \<Rightarrow> bool" where
  "tracker_inv st \<longleftrightarrow> featuredImage st = [] \<or> featuredImage st \<in> set (form_images st)"

text \<open>
  The reference tracker of spec section 4.2: the ordered list of tracked images (an
  addition appends, a removal drops every copy) and, as featured image, its first entry
  (empty when there is none).
\<close>

fun ref_step :: "url list \<Rightarrow> tracker_event \<Rightarrow> url list" where
  "ref_step xs (Add u) = xs @ [u]"
| "ref_step xs (Remove u) = filter (\<lambda>x. x \<noteq> u) xs"

definition featured_of :: "url list \<Rightarrow> url" where
  "featured_of xs = (case xs of [] \<Rightarrow> [] | x # _ \<Rightarrow> x)"

definition tracker_ref :: "tracker_event list \<Rightarrow> image_state" where
  "tracker_ref evs =
     (let xs = foldl ref_step [] evs in \<lparr>form_images = xs, featuredImage = featured_of xs\<rparr>)"

lemmas tracker_defs [blog_simps] =
  handleImageAdd_def handleImageRemove_def tracker_run_def stale_run_def tracker_inv_def
  init_image_state_def

section \<open>Lemmas\<close>

lemma tracker_step_inv: "tracker_inv st \<Longrightarrow> tracker_inv (tracker_step st e)"
  by (cases e)
     (auto simp: tracker_inv_def handleImageAdd_def handleImageRemove_def Let_def
        hd_filter_set hd_filter_neq)

lemma tracker_run_Cons: "tracker_run st (e # evs) = tracker_run (tracker_step st e) evs"
  by (simp add: tracker_run_def)

lemma form_images_stale_add:
  "form_images (stale_run snap (map Add us) st) = form_images st @ us"
  by (induction us arbitrary: st) (auto simp: stale_run_def handleImageAdd_def Let_def)

lemma featured_stale_add:
  assumes "form_images snap = []" and "featuredImage snap = []"
  shows "featuredImage (stale_run snap (map Add us) st) = (if us = [] then featuredImage st else last us)"
  using assms
  by (induction us arbitrary: st) (auto simp: stale_run_def handleImageAdd_def Let_def)

text \<open>The abstraction of an editor state to the reference: the featured image is the
  first tracked image.\<close>

lemma tracker_step_ref:
  assumes "featuredImage st = featured_of (form_images st)"
  shows "form_images (tracker_step st e) = ref_step (form_images st) e \<and>
         featuredImage (tracker_step st e) = featured_of (form_images (tracker_step st e))"
proof (cases e)
  case (Add u)
  with assms show ?thesis
    by (cases "form_images st") (auto simp: handleImageAdd_def featured_of_def Let_def)
next
  case (Remove u)
  with assms show ?thesis
    by (cases "form_images st") (auto simp: handleImageRemove_def featured_of_def Let_def split: list.split)
qed

lemma tracker_run_ref:
  "featuredImage st = featured_of (form_images st) \<Longrightarrow>
   tracker_run st evs = \<lparr>form_images = foldl ref_step (form_images st) evs,
                         featuredImage = featured_of (foldl ref_step (form_images st) evs)\<rparr>"
proof (induction evs arbitrary: st)
  case Nil
  then show ?case by (simp add: tracker_run_def)
next
  case (Cons e evs)
  from tracker_step_ref [OF Cons.prems] have
    "featuredImage (tracker_step st e) = featured_of (form_images (tracker_step st e))"
    and "form_images (tracker_step st e) = ref_step (form_images st) e" by simp_all
  with Cons.IH [of "tracker_step st e"] show ?case by (simp add: tracker_run_Cons)
qed

section \<open>Properties of the tracker\<close>

text \<open>
  C14. In an editor where each callback runs in the render after the previous one, the
  tracker invariant of spec section 4.2 holds throughout: starting from a state where the
  featured image is empty or tracked, every run of additions and removals keeps it so.
\<close>

theorem tracker_run_inv:
  "tracker_inv st \<Longrightarrow> tracker_inv (tracker_run st evs)"
proof (induction evs arbitrary: st)
  case Nil
  then show ?case by (simp add: tracker_run_def)
next
  case (Cons e evs)
  from Cons.prems have "tracker_inv (tracker_step st e)" by (rule tracker_step_inv)
  then show ?case by (simp add: tracker_run_Cons Cons.IH)
qed

theorem tracker_run_inv_witness:
  "tracker_inv (tracker_run (init_image_state None) [Add ''a'', Add ''b'', Remove ''a''])"
  by (rule tracker_run_inv) (simp add: tracker_inv_def init_image_state_def)

text \<open>
  C15. With a fresh render before each callback, the editor is the reference tracker of
  spec section 4.2: from an empty editor, any run of additions and removals yields the
  list of added and not removed images in order, and as featured image its first entry.
  So the first image added is featured, removing it promotes the next one, and removing
  the last clears it (the scenario of spec section 8).
\<close>

theorem tracker_run_reference:
  "tracker_run (init_image_state None) evs = tracker_ref evs"
  using tracker_run_ref [of "init_image_state None" evs]
  by (simp add: init_image_state_def tracker_ref_def featured_of_def Let_def)

text \<open>
  C17. The callbacks of one upload batch all close over the render in which the batch
  started. From an empty editor, every completed upload sees an empty snapshot and sets
  itself as featured, so the featured image is the last upload to complete, not the
  first (the list itself is the completion order).
\<close>

theorem stale_batch_last_featured:
  assumes "form_images snap = []" and "featuredImage snap = []" and "us \<noteq> []"
  shows "stale_run snap (map Add us) snap = \<lparr>form_images = us, featuredImage = last us\<rparr>"
proof -
  have "featuredImage (stale_run snap (map Add us) snap) = last us"
    using featured_stale_add [OF assms(1,2)] assms(3) by simp
  moreover have "form_images (stale_run snap (map Add us) snap) = us"
    using form_images_stale_add [of snap us snap] assms(1) by simp
  ultimately show ?thesis by simp
qed

theorem stale_batch_last_featured_witness:
  "stale_run (init_image_state None) [Add ''cat'', Add ''dog''] (init_image_state None) =
   \<lparr>form_images = [''cat'', ''dog''], featuredImage = ''dog''\<rparr>"
  using stale_batch_last_featured [of "init_image_state None" "[''cat'', ''dog'']"]
  by (simp add: init_image_state_def)

text \<open>
  C18. Two removals fired from the same render break the tracker invariant: with images
  \<open>[a, b]\<close> and \<open>a\<close> featured, removing \<open>b\<close> and then \<open>a\<close> leaves no image but
  \<open>b\<close> featured, because the second callback computes the new featured image from the
  stale list.
\<close>

theorem stale_remove_dangling_featured:
  assumes "a \<noteq> b" and "b \<noteq> []"
  shows "stale_run \<lparr>form_images = [a, b], featuredImage = a\<rparr> [Remove b, Remove a]
            \<lparr>form_images = [a, b], featuredImage = a\<rparr> = \<lparr>form_images = [], featuredImage = b\<rparr> \<and>
         \<not> tracker_inv (stale_run \<lparr>form_images = [a, b], featuredImage = a\<rparr> [Remove b, Remove a]
            \<lparr>form_images = [a, b], featuredImage = a\<rparr>)"
  using assms by (simp add: blog_simps)

theorem stale_remove_dangling_featured_witness:
  "\<not> tracker_inv (stale_run \<lparr>form_images = [''a'', ''b''], featuredImage = ''a''\<rparr> [Remove ''b'', Remove ''a'']
      \<lparr>form_images = [''a'', ''b''], featuredImage = ''a''\<rparr>)"
  using stale_remove_dangling_featured [of "''a''" "''b''"] by (simp add: tracker_inv_def)
end
