(* ===== verification/Upload_Batch.thy ===== *)
theory Upload_Batch
  imports Image_Upload Image_Tracker "HOL-Library.Multiset"
begin

text \<open>
  The upload component of \<open>src/components/ui/image-upload.tsx\<close>.
  \<open>handleFileUpload\<close> refuses an empty selection, refuses the whole batch before any
  upload when \<open>images.length + files.length > maxImages\<close>, refuses without a signed-in
  user, and otherwise uploads every file independently: each completed upload that
  succeeded calls \<open>onImageAdd\<close> (the editor's \<^const>\<open>handleImageAdd\<close>, closed over
  the render in which the batch started), each failure is reported for its file only, and
  the batch ends with the counts of successes and failures. Uploads complete in an order
  the model takes as a parameter (a permutation of the files); each upload's effect on
  the bucket happens at its completion. \<open>handleImageRemove\<close> deletes the object of a
  platform URL right away and then calls \<open>onImageRemove\<close>.
\<close>

text \<open>What the environment decides for one upload: the clock, the random token and
  whether the remote call fails.\<close>

record upload_env =
  env_now :: nat
  env_rnd :: string
  env_fault :: "remote_fault option"

datatype batch_outcome =
    NoFiles
  | TooManyImages
  | AuthRequired
  | BatchDone nat nat  \<comment> \<open>\<open>successCount\<close>, \<open>failCount\<close>\<close>

text \<open>The uploads of a batch, in completion order, each applied to the bucket and, on
  success, to the editor through the callback of the batch's render \<open>snap\<close>.\<close>

fun upload_completions ::
  "string \<Rightarrow> user_id \<Rightarrow> image_state \<Rightarrow> (image_file \<times> upload_env) list \<Rightarrow> bucket \<times> image_state \<Rightarrow>
   (bucket \<times> image_state) \<times> bool list" where
  "upload_completions base uid snap [] s = (s, [])"
| "upload_completions base uid snap ((f, e) # rest) (b, st) =
     (case uploadImage base b f uid (env_now e) (env_rnd e) (env_fault e) of
        (Inr u, b') \<Rightarrow>
          (let (s', rs) = upload_completions base uid snap rest (b', handleImageAdd snap u st)
           in (s', True # rs))
      | (Inl _, b') \<Rightarrow>
          (let (s', rs) = upload_completions base uid snap rest (b', st) in (s', False # rs)))"

text \<open>\<open>order\<close> lists the indices of the files in the order their uploads complete.\<close>

definition is_completion_order :: "nat list \<Rightarrow> nat \<Rightarrow> bool" where
  "is_completion_order order n \<longleftrightarrow> sort order = [0..<n]"

definition handleFileUpload ::
  "string \<Rightarrow> nat \<Rightarrow> image_state \<Rightarrow> user_id option \<Rightarrow> (image_file \<times> upload_env) list \<Rightarrow>
   nat list \<Rightarrow> bucket \<times> image_state \<Rightarrow> (bucket \<times> image_state) \<times> batch_outcome" where
  "handleFileUpload base maxImages snap user files order s =
     (if files = [] then (s, NoFiles)
      else if maxImages < length (form_images snap) + length files then (s, TooManyImages)
      else
        (case user of
           None \<Rightarrow> (s, AuthRequired)
         | Some uid \<Rightarrow>
             (let (s', results) = upload_completions base uid snap (map (\<lambda>i. files ! i) order) s;
                  successCount = length (filter id results)
              in (s', BatchDone successCount (length results - successCount)))))"

text \<open>\<open>imageUrl.includes("supabase")\<close> selects the URLs whose object is deleted.\<close>

definition is_platform_url :: "url \<Rightarrow> bool" where
  "is_platform_url u \<longleftrightarrow> str_includes u ''supabase''"

definition uploader_handleImageRemove ::
  "bucket \<Rightarrow> image_state \<Rightarrow> user_id option \<Rightarrow> remote_fault option \<Rightarrow> url \<Rightarrow> image_state \<Rightarrow>
   bucket \<times> image_state" where
  "uploader_handleImageRemove b snap user fault imageUrl st =
     (let b' = (case user of
                  Some uid \<Rightarrow> (if is_platform_url imageUrl then snd (deleteImage b imageUrl uid fault) else b)
                | None \<Rightarrow> b)
      in (b', handleImageRemove snap imageUrl st))"

text \<open>The URLs a run of completions adds, in completion order.\<close>

fun added_urls :: "string \<Rightarrow> user_id \<Rightarrow> (image_file \<times> upload_env) list \<Rightarrow> bucket \<Rightarrow> url list" where
  "added_urls base uid [] b = []"
| "added_urls base uid ((f, e) # rest) b =
     (case uploadImage base b f uid (env_now e) (env_rnd e) (env_fault e) of
        (Inr u, b') \<Rightarrow> u # added_urls base uid rest b'
      | (Inl _, b') \<Rightarrow> added_urls base uid rest b')"

text \<open>Concrete files and environments used by the scenarios below.\<close>

definition cat_file :: image_file where
  "cat_file = \<lparr>file_name = ''cat.png'', file_type = ''image/png'', file_size = 2097152\<rparr>"

definition dog_file :: image_file where
  "dog_file = \<lparr>file_name = ''dog.png'', file_type = ''image/png'', file_size = 6291456\<rparr>"

definition env_at :: "nat \<Rightarrow> upload_env" where
  "env_at n = \<lparr>env_now = n, env_rnd = ''k'', env_fault = None\<rparr>"

definition nine_images :: image_state where
  "nine_images = \<lparr>form_images = map (\<lambda>i. replicate i CHR ''i'') [1..<10], featuredImage = ''i''\<rparr>"

text \<open>The path a file of a batch is stored at, when its upload gets past validation and
  the remote call: the characterisation of a batch's effect that does not depend on the
  completion order.\<close>

definition batch_path :: "user_id \<Rightarrow> image_file \<times> upload_env \<Rightarrow> path option" where
  "batch_path uid fe =
     (case fe of (f, e) \<Rightarrow>
        if starts_with (file_type f) ''image/'' \<and> file_size f \<le> max_upload_size \<and> env_fault e = None
        then Some (upload_file_name uid (env_now e) (env_rnd e) (file_name f)) else None)"

lemmas batch_defs [blog_simps] =
  handleFileUpload_def is_completion_order_def uploader_handleImageRemove_def is_platform_url_def

section \<open>Lemmas\<close>

lemma upload_completions_length:
  "length (snd (upload_completions base uid snap fs s)) = length fs"
proof (induction base uid snap fs s rule: upload_completions.induct)
  case (2 base uid snap f e rest b st)
  then show ?case
    by (auto split: prod.split sum.split)
qed simp

lemma upload_completions_Inr:
  "uploadImage base b f uid (env_now e) (env_rnd e) (env_fault e) = (Inr u, b') \<Longrightarrow>
   upload_completions base uid snap ((f, e) # rest) (b, st) =
     (fst (upload_completions base uid snap rest (b', handleImageAdd snap u st)),
      True # snd (upload_completions base uid snap rest (b', handleImageAdd snap u st)))"
  by (simp split: prod.split)

lemma upload_completions_Inl:
  "uploadImage base b f uid (env_now e) (env_rnd e) (env_fault e) = (Inl err, b') \<Longrightarrow>
   upload_completions base uid snap ((f, e) # rest) (b, st) =
     (fst (upload_completions base uid snap rest (b', st)),
      False # snd (upload_completions base uid snap rest (b', st)))"
  by (simp split: prod.split)

lemma added_urls_Inr:
  "uploadImage base b f uid (env_now e) (env_rnd e) (env_fault e) = (Inr u, b') \<Longrightarrow>
   added_urls base uid ((f, e) # rest) b = u # added_urls base uid rest b'"
  by simp

lemma added_urls_Inl:
  "uploadImage base b f uid (env_now e) (env_rnd e) (env_fault e) = (Inl err, b') \<Longrightarrow>
   added_urls base uid ((f, e) # rest) b = added_urls base uid rest b'"
  by simp

lemmas completion_steps = upload_completions_Inr upload_completions_Inl added_urls_Inr added_urls_Inl

declare upload_completions.simps(2) [simp del] added_urls.simps(2) [simp del]

lemma upload_completions_images:
  "form_images (snd (fst (upload_completions base uid snap fs (b, st)))) =
     form_images st @ added_urls base uid fs b"
proof (induction fs arbitrary: b st)
  case Nil
  then show ?case by simp
next
  case (Cons fe rest)
  obtain f e where fe: "fe = (f, e)" by fastforce
  obtain r b' where up: "uploadImage base b f uid (env_now e) (env_rnd e) (env_fault e) = (r, b')"
    by fastforce
  show ?case
    using Cons.IH up by (cases r) (simp_all add: fe completion_steps handleImageAdd_def Let_def)
qed

lemma added_urls_length:
  "length (added_urls base uid fs b) = length (filter id (snd (upload_completions base uid snap fs (b, st))))"
proof (induction fs arbitrary: b st)
  case Nil
  then show ?case by simp
next
  case (Cons fe rest)
  obtain f e where fe: "fe = (f, e)" by fastforce
  obtain r b' where up: "uploadImage base b f uid (env_now e) (env_rnd e) (env_fault e) = (r, b')"
    by fastforce
  show ?case
    using Cons.IH up by (cases r) (simp_all add: fe completion_steps)
qed

lemma completion_order_length:
  "is_completion_order order n \<Longrightarrow> length order = n"
  by (metis is_completion_order_def length_sort length_upt minus_nat.diff_0)

lemma added_urls_le: "length (added_urls base uid fs b) \<le> length fs"
proof (induction fs arbitrary: b)
  case Nil
  then show ?case by simp
next
  case (Cons fe rest)
  obtain f e where fe: "fe = (f, e)" by fastforce
  obtain r b' where up: "uploadImage base b f uid (env_now e) (env_rnd e) (env_fault e) = (r, b')"
    by fastforce
  show ?case
    using Cons.IH [of b'] up by (cases r) (simp_all add: fe completion_steps)
qed

lemma handleFileUpload_run:
  assumes "files \<noteq> []" and "length (form_images snap) + length files \<le> maxImages"
  shows "handleFileUpload base maxImages snap (Some uid) files order s =
    (fst (upload_completions base uid snap (map (\<lambda>i. files ! i) order) s),
     BatchDone (length (filter id (snd (upload_completions base uid snap (map (\<lambda>i. files ! i) order) s))))
       (length order - length (filter id (snd (upload_completions base uid snap (map (\<lambda>i. files ! i) order) s)))))"
proof -
  obtain s' rs where uc: "upload_completions base uid snap (map (\<lambda>i. files ! i) order) s = (s', rs)"
    by fastforce
  have "length rs = length order"
    using upload_completions_length [of base uid snap "map (\<lambda>i. files ! i) order" s] uc by simp
  with assms uc show ?thesis by (simp add: handleFileUpload_def Let_def)
qed

lemma upload_completions_wf:
  "bucket_wf b \<Longrightarrow> bucket_wf (fst (fst (upload_completions base uid snap fs (b, st))))"
proof (induction fs arbitrary: b st)
  case Nil
  then show ?case by simp
next
  case (Cons fe rest)
  obtain f e where fe: "fe = (f, e)" by fastforce
  obtain r b' where up: "uploadImage base b f uid (env_now e) (env_rnd e) (env_fault e) = (r, b')"
    by fastforce
  have "bucket_wf b'"
    using uploadImage_bucket [of base b f uid "env_now e" "env_rnd e" "env_fault e"] up Cons.prems
    by (auto intro: storage_upload_wf)
  then show ?case
    using Cons.IH up by (cases r) (simp_all add: fe completion_steps)
qed

lemma handleFileUpload_wf:
  "bucket_wf b \<Longrightarrow> bucket_wf (fst (fst (handleFileUpload base maxImages snap user files order (b, st))))"
  by (auto simp: handleFileUpload_def Let_def split: option.split prod.split)
     (metis fst_conv upload_completions_wf)

lemma uploader_remove_wf:
  "bucket_wf b \<Longrightarrow> bucket_wf (fst (uploader_handleImageRemove b snap user fault imageUrl st))"
  by (auto simp: uploader_handleImageRemove_def split: option.split)
     (metis deleteImage_bucket storage_remove_wf)

lemma uploadImage_no_path:
  "batch_path uid (f, e) = None \<Longrightarrow>
   \<exists>err. uploadImage base b f uid (env_now e) (env_rnd e) (env_fault e) = (Inl err, b)"
  by (auto simp: batch_path_def uploadImage_def Let_def split: if_splits option.split)

lemma uploadImage_path:
  "batch_path uid (f, e) = Some p \<Longrightarrow>
   uploadImage base b f uid (env_now e) (env_rnd e) (env_fault e) =
     (if p \<in> set (objects b) then (Inl (StoreError ''The resource already exists''), b)
      else (Inr (get_public_url base p), b\<lparr>objects := objects b @ [p]\<rparr>))"
  by (auto simp: batch_path_def uploadImage_def storage_upload_def Let_def split: if_splits)

text \<open>The effect of a run of completions: the stored paths gain the batch's paths, and
  the editor gains one URL for each of them that was not stored before.\<close>

lemma batch_effect:
  "set (objects (fst (fst (upload_completions base uid snap fs (b, st))))) =
     set (objects b) \<union> set (List.map_filter (batch_path uid) fs) \<and>
   mset (added_urls base uid fs b) =
     image_mset (get_public_url base) (mset_set (set (List.map_filter (batch_path uid) fs) - set (objects b)))"
proof (induction fs arbitrary: b st)
  case Nil
  then show ?case by (simp add: List.map_filter_simps)
next
  case (Cons fe rest)
  obtain f e where fe: "fe = (f, e)" by fastforce
  let ?S = "set (List.map_filter (batch_path uid) rest)"
  show ?case
  proof (cases "batch_path uid (f, e)")
    case None
    then obtain err where "uploadImage base b f uid (env_now e) (env_rnd e) (env_fault e) = (Inl err, b)"
      using uploadImage_no_path by blast
    with None Cons.IH [of b st] show ?thesis by (simp add: fe completion_steps List.map_filter_simps)
  next
    case (Some p)
    show ?thesis
    proof (cases "p \<in> set (objects b)")
      case True
      with Some have "uploadImage base b f uid (env_now e) (env_rnd e) (env_fault e) =
          (Inl (StoreError ''The resource already exists''), b)" by (simp add: uploadImage_path)
      moreover have "insert p ?S - set (objects b) = ?S - set (objects b)" using True by blast
      ultimately show ?thesis using Some Cons.IH [of b st] True
        by (auto simp: fe completion_steps List.map_filter_simps)
    next
      case False
      let ?b' = "b\<lparr>objects := objects b @ [p]\<rparr>"
      have up: "uploadImage base b f uid (env_now e) (env_rnd e) (env_fault e) =
          (Inr (get_public_url base p), ?b')" using Some False by (simp add: uploadImage_path)
      have "insert p ?S - set (objects b) = insert p (?S - set (objects ?b'))" using False by auto
      moreover have "p \<notin> ?S - set (objects ?b')" by simp
      ultimately have "mset_set (insert p ?S - set (objects b)) =
          add_mset p (mset_set (?S - set (objects ?b')))" by simp
      with up Some Cons.IH [of ?b' "handleImageAdd snap (get_public_url base p) st"] show ?thesis
        by (simp add: fe completion_steps List.map_filter_simps)
    qed
  qed
qed

lemma completion_order_set:
  "is_completion_order o1 n \<Longrightarrow> is_completion_order o2 n \<Longrightarrow>
   set (map (\<lambda>i. files ! i) o1) = set (map (\<lambda>i. files ! i) o2)"
  by (metis is_completion_order_def set_map set_sort)

lemma set_map_filter_cong:
  "set xs = set ys \<Longrightarrow> set (List.map_filter f xs) = set (List.map_filter f ys)"
  by (auto simp: set_map_filter_iff)

lemma handleFileUpload_guarded:
  "files = [] \<or> maxImages < length (form_images snap) + length files \<or> user = None \<Longrightarrow>
   handleFileUpload base maxImages snap user files order s =
     (s, if files = [] then NoFiles
         else if maxImages < length (form_images snap) + length files then TooManyImages else AuthRequired)"
  by (auto simp: handleFileUpload_def)

section \<open>Properties of the upload component\<close>

text \<open>
  C19. The batch guard of \<open>handleFileUpload\<close>: when the images of the render plus the
  selected files exceed \<open>maxImages\<close>, the whole batch is refused before any upload; the
  bucket and the editor are unchanged.
\<close>

theorem batch_too_many:
  "files \<noteq> [] \<Longrightarrow> maxImages < length (form_images snap) + length files \<Longrightarrow>
   handleFileUpload base maxImages snap user files order s = (s, TooManyImages)"
  by (simp add: handleFileUpload_def)

theorem batch_too_many_witness:
  "handleFileUpload ''https://x.supabase.co'' 5 \<lparr>form_images = [''a'', ''b'', ''c'', ''d''], featuredImage = ''a''\<rparr>
     (Some ''u1'') [(cat_file, env_at 1), (cat_file, env_at 2)] [0, 1] (\<lparr>objects = []\<rparr>, init_image_state None)
   = ((\<lparr>objects = []\<rparr>, init_image_state None), TooManyImages)"
  by (rule batch_too_many) simp_all

text \<open>
  C20. Uploads of a batch are independent: once the guard passes, every file is
  uploaded on its own, the editor's list gains exactly the URLs of the successful uploads
  in completion order (a failed file does not stop the others), and the outcome counts
  \<open>k\<close> successes and \<open>length files - k\<close> failures.
\<close>

theorem batch_results:
  assumes "is_completion_order order (length files)" and "files \<noteq> []"
    and "length (form_images snap) + length files \<le> maxImages"
    and run: "handleFileUpload base maxImages snap (Some uid) files order (b, st) = ((b', st'), out)"
  shows "\<exists>k. out = BatchDone k (length files - k) \<and> k \<le> length files \<and>
             form_images st' = form_images st @ added_urls base uid (map (\<lambda>i. files ! i) order) b \<and>
             length (added_urls base uid (map (\<lambda>i. files ! i) order) b) = k"
proof -
  let ?fs = "map (\<lambda>i. files ! i) order"
  have len: "length order = length files" using assms(1) by (rule completion_order_length)
  from run assms(2,3) have st': "st' = snd (fst (upload_completions base uid snap ?fs (b, st)))"
      and out: "out = BatchDone (length (filter id (snd (upload_completions base uid snap ?fs (b, st)))))
         (length order - length (filter id (snd (upload_completions base uid snap ?fs (b, st)))))"
    by (simp_all add: handleFileUpload_run)
  have k: "length (added_urls base uid ?fs b) = length (filter id (snd (upload_completions base uid snap ?fs (b, st))))"
    by (rule added_urls_length)
  have "length (added_urls base uid ?fs b) \<le> length files"
    using added_urls_le [of base uid ?fs b] len by simp
  with st' out k len show ?thesis
    by (auto simp: upload_completions_images)
qed

theorem batch_results_witness:
  "\<exists>k. BatchDone 1 1 = BatchDone k (2 - k) \<and> k \<le> 2 \<and>
     [''https://x.supabase.co/storage/v1/object/public/blog-images/u1/1-k.png''] =
       added_urls ''https://x.supabase.co'' ''u1'' [(dog_file, env_at 2), (cat_file, env_at 1)] \<lparr>objects = []\<rparr> \<and>
     length (added_urls ''https://x.supabase.co'' ''u1'' [(dog_file, env_at 2), (cat_file, env_at 1)] \<lparr>objects = []\<rparr>) = k"
proof -
  have run: "handleFileUpload ''https://x.supabase.co'' 5 (init_image_state None) (Some ''u1'')
      [(cat_file, env_at 1), (dog_file, env_at 2)] [1, 0] (\<lparr>objects = []\<rparr>, init_image_state None) =
    ((\<lparr>objects = [''u1/1-k.png'']\<rparr>,
      \<lparr>form_images = [''https://x.supabase.co/storage/v1/object/public/blog-images/u1/1-k.png''],
       featuredImage = ''https://x.supabase.co/storage/v1/object/public/blog-images/u1/1-k.png''\<rparr>),
     BatchDone 1 1)"
    by (simp add: blog_simps cat_file_def dog_file_def env_at_def completion_steps dec_digits.simps)
  have "is_completion_order [1, 0] (length [(cat_file, env_at 1), (dog_file, env_at 2)])"
    by (simp add: is_completion_order_def)
  from batch_results [OF this _ _ run] show ?thesis
    by (simp add: init_image_state_def)
qed

text \<open>
  C16. The outcome of a batch does not depend on the order in which its uploads complete
  (the spec's "parallel tasks joined into a single aggregated result"): for any two
  completion orders, the bucket ends with the same stored paths, the editor with the same
  images up to their order, and the reported counts are the same. Only the order of the
  images, and with it the featured image (C17), depends on the scheduling.
\<close>

theorem batch_order_independent:
  assumes o1: "is_completion_order o1 (length files)" and o2: "is_completion_order o2 (length files)"
  shows "set (objects (fst (fst (handleFileUpload base maxImages snap user files o1 (b, st))))) =
           set (objects (fst (fst (handleFileUpload base maxImages snap user files o2 (b, st))))) \<and>
         mset (form_images (snd (fst (handleFileUpload base maxImages snap user files o1 (b, st))))) =
           mset (form_images (snd (fst (handleFileUpload base maxImages snap user files o2 (b, st))))) \<and>
         snd (handleFileUpload base maxImages snap user files o1 (b, st)) =
           snd (handleFileUpload base maxImages snap user files o2 (b, st))"
proof (cases "files = [] \<or> maxImages < length (form_images snap) + length files \<or> user = None")
  case True
  then show ?thesis by (simp add: handleFileUpload_guarded)
next
  case False
  then obtain uid where u: "user = Some uid" and ne: "files \<noteq> []"
    and cap: "length (form_images snap) + length files \<le> maxImages" by auto
  let ?fs1 = "map (\<lambda>i. files ! i) o1" and ?fs2 = "map (\<lambda>i. files ! i) o2"
  have S: "set (List.map_filter (batch_path uid) ?fs1) = set (List.map_filter (batch_path uid) ?fs2)"
    by (rule set_map_filter_cong [OF completion_order_set [OF o1 o2]])
  note E1 = batch_effect [of base uid snap ?fs1 b st] and E2 = batch_effect [of base uid snap ?fs2 b st]
  have A: "mset (added_urls base uid ?fs1 b) = mset (added_urls base uid ?fs2 b)" using E1 E2 S by simp
  have k: "length (filter id (snd (upload_completions base uid snap ?fs1 (b, st)))) =
           length (filter id (snd (upload_completions base uid snap ?fs2 (b, st))))"
    using added_urls_length [of base uid ?fs1 b snap st] added_urls_length [of base uid ?fs2 b snap st]
      mset_eq_length [OF A] by simp
  have len: "length o1 = length o2"
    using completion_order_length [OF o1] completion_order_length [OF o2] by simp
  show ?thesis
    unfolding u handleFileUpload_run [OF ne cap]
    using E1 E2 S A k len by (simp add: upload_completions_images)
qed

theorem batch_order_independent_witness:
  "set (objects (fst (fst (handleFileUpload ''https://x.supabase.co'' 5 (init_image_state None) (Some ''u1'')
       [(cat_file, env_at 1), (cat_file, env_at 2)] [0, 1] (\<lparr>objects = []\<rparr>, init_image_state None))))) =
     set (objects (fst (fst (handleFileUpload ''https://x.supabase.co'' 5 (init_image_state None) (Some ''u1'')
       [(cat_file, env_at 1), (cat_file, env_at 2)] [1, 0] (\<lparr>objects = []\<rparr>, init_image_state None))))) \<and>
   mset (form_images (snd (fst (handleFileUpload ''https://x.supabase.co'' 5 (init_image_state None) (Some ''u1'')
       [(cat_file, env_at 1), (cat_file, env_at 2)] [0, 1] (\<lparr>objects = []\<rparr>, init_image_state None))))) =
     mset (form_images (snd (fst (handleFileUpload ''https://x.supabase.co'' 5 (init_image_state None) (Some ''u1'')
       [(cat_file, env_at 1), (cat_file, env_at 2)] [1, 0] (\<lparr>objects = []\<rparr>, init_image_state None))))) \<and>
   snd (handleFileUpload ''https://x.supabase.co'' 5 (init_image_state None) (Some ''u1'')
       [(cat_file, env_at 1), (cat_file, env_at 2)] [0, 1] (\<lparr>objects = []\<rparr>, init_image_state None)) =
     snd (handleFileUpload ''https://x.supabase.co'' 5 (init_image_state None) (Some ''u1'')
       [(cat_file, env_at 1), (cat_file, env_at 2)] [1, 0] (\<lparr>objects = []\<rparr>, init_image_state None))"
  by (rule batch_order_independent) (simp_all add: is_completion_order_def)

text \<open>
  C21. When the batch starts from the current render (the snapshot is the live editor
  state), the guard bounds the result: an editor within \<open>maxImages\<close> images stays
  within \<open>maxImages\<close> after the batch, since each file adds at most one image.
\<close>

theorem batch_cap_fresh_render:
  assumes "is_completion_order order (length files)"
    and "length (form_images st) \<le> maxImages"
    and run: "handleFileUpload base maxImages st user files order (b, st) = ((b', st'), out)"
  shows "length (form_images st') \<le> maxImages"
proof (cases "files = [] \<or> maxImages < length (form_images st) + length files \<or> user = None")
  case True
  then have "st' = st"
  proof (elim disjE)
    assume "files = []"
    with run show ?thesis by (simp add: handleFileUpload_def)
  next
    assume "maxImages < length (form_images st) + length files"
    with run show ?thesis by (simp add: handleFileUpload_def split: if_splits)
  next
    assume "user = None"
    with run show ?thesis by (simp add: handleFileUpload_def split: if_splits)
  qed
  with assms(2) show ?thesis by simp
next
  case False
  then obtain uid where u: "user = Some uid" by auto
  let ?fs = "map (\<lambda>i. files ! i) order"
  have len: "length order = length files" using assms(1) by (rule completion_order_length)
  from False u run have "st' = snd (fst (upload_completions base uid st ?fs (b, st)))"
    by (simp add: handleFileUpload_run)
  then have "length (form_images st') = length (form_images st) + length (added_urls base uid ?fs b)"
    by (simp add: upload_completions_images)
  moreover have "length (added_urls base uid ?fs b) \<le> length files"
    using added_urls_le [of base uid ?fs b] len by simp
  ultimately show ?thesis using False by linarith
qed

theorem batch_cap_fresh_render_witness:
  "length (form_images (snd (fst (handleFileUpload ''https://x.supabase.co'' 10 (init_image_state None)
     (Some ''u1'') [(cat_file, env_at 1)] [0] (\<lparr>objects = []\<rparr>, init_image_state None))))) \<le> 10"
proof -
  let ?r = "handleFileUpload ''https://x.supabase.co'' 10 (init_image_state None)
     (Some ''u1'') [(cat_file, env_at 1)] [0] (\<lparr>objects = []\<rparr>, init_image_state None)"
  have "is_completion_order [0] (length [(cat_file, env_at 1)])"
    by (simp add: is_completion_order_def)
  moreover have "length (form_images (init_image_state None)) \<le> 10"
    by (simp add: init_image_state_def)
  moreover have "?r = ((fst (fst ?r), snd (fst ?r)), snd ?r)"
    by simp
  ultimately show ?thesis by (rule batch_cap_fresh_render)
qed

end
