(* ===== verification/Upload_UI.thy ===== *)
theory Upload_UI
  imports Upload_Batch
begin

text \<open>
  The interface state of the upload component, \<open>src/components/ui/image-upload.tsx\<close>:
  the flags \<open>isUploading\<close> and \<open>dragActive\<close> and the set \<open>uploadingFiles\<close> of the
  files in flight, the drag and drop handlers, the \<open>Choose Files\<close> button and the
  progress line. A JavaScript \<open>Set\<close> of strings is a duplicate-free list here:
  \<open>add\<close> is \<^const>\<open>List.insert\<close>, \<open>delete\<close> is \<^const>\<open>removeAll\<close> and \<open>size\<close> is the
  length. The batch itself (\<open>handleFileUpload\<close>) is the theory \<open>Upload_Batch\<close>;
  this one adds what the component does around it: \<open>setIsUploading(true)\<close> once the
  guards pass, one \<open>fileId\<close> per file while its upload runs, and
  \<open>setIsUploading(false)\<close> in the \<open>finally\<close> block.
\<close>

record upload_ui =
  isUploading :: bool
  dragActive :: bool
  uploadingFiles :: "string list"

definition upload_ui_init :: upload_ui where
  "upload_ui_init = \<lparr>isUploading = False, dragActive = False, uploadingFiles = []\<rparr>"

text \<open>The three events the drop zone listens to (\<open>onDragEnter\<close>, \<open>onDragOver\<close>,
  \<open>onDragLeave\<close>).\<close>

datatype drag_event = DragEnter | DragOver | DragLeave

fun handleDrag :: "upload_ui \<Rightarrow> drag_event \<Rightarrow> upload_ui" where
  "handleDrag ui DragEnter = ui\<lparr>dragActive := True\<rparr>"
| "handleDrag ui DragOver = ui\<lparr>dragActive := True\<rparr>"
| "handleDrag ui DragLeave = ui\<lparr>dragActive := False\<rparr>"

text \<open>\<open>handleDrop\<close>: the new state and whether it calls \<open>handleFileUpload\<close> (when the
  drop carries at least one file). Nothing here looks at \<open>isUploading\<close>.\<close>

definition handleDrop :: "upload_ui \<Rightarrow> 'f list \<Rightarrow> upload_ui \<times> bool" where
  "handleDrop ui files = (ui\<lparr>dragActive := False\<rparr>, files \<noteq> [])"

text \<open>The \<open>Choose Files\<close> button:
  \<open>disabled={isUploading || images.length >= maxImages}\<close>.\<close>

definition choose_files_enabled :: "upload_ui \<Rightarrow> url list \<Rightarrow> nat \<Rightarrow> bool" where
  "choose_files_enabled ui imgs maxImages \<longleftrightarrow> \<not> isUploading ui \<and> length imgs < maxImages"

text \<open>\<open>fileId = `${file.name}-${Date.now()}`\<close>, added when a file's upload starts and
  deleted in its \<open>finally\<close>.\<close>

definition file_id :: "string \<Rightarrow> nat \<Rightarrow> string" where
  "file_id name now = name @ ''-'' @ nat_to_dec now"

definition file_started :: "upload_ui \<Rightarrow> string \<Rightarrow> upload_ui" where
  "file_started ui fid = ui\<lparr>uploadingFiles := List.insert fid (uploadingFiles ui)\<rparr>"

definition file_finished :: "upload_ui \<Rightarrow> string \<Rightarrow> upload_ui" where
  "file_finished ui fid = ui\<lparr>uploadingFiles := removeAll fid (uploadingFiles ui)\<rparr>"

text \<open>The batch's effect on the flag: \<open>setIsUploading(true)\<close> only after the three
  guards of \<open>handleFileUpload\<close> pass, \<open>setIsUploading(false)\<close> at its end.\<close>

definition batch_begin ::
  "upload_ui \<Rightarrow> nat \<Rightarrow> image_state \<Rightarrow> user_id option \<Rightarrow> 'f list \<Rightarrow> upload_ui" where
  "batch_begin ui maxImages snap user files =
     (if files = [] \<or> maxImages < length (form_images snap) + length files \<or> user = None then ui
      else ui\<lparr>isUploading := True\<rparr>)"

definition batch_end :: "upload_ui \<Rightarrow> upload_ui" where
  "batch_end ui = ui\<lparr>isUploading := False\<rparr>"

text \<open>The progress line under the grid.\<close>

definition progress_text :: "upload_ui \<Rightarrow> string option" where
  "progress_text ui =
     (let n = length (uploadingFiles ui) in
      if 0 < n then Some (''Uploading '' @ nat_to_dec n @ '' file'' @ (if 1 < n then ''s'' else []) @ ''...'')
      else None)"

lemmas upload_ui_defs [blog_simps] =
  upload_ui_init_def handleDrop_def choose_files_enabled_def file_id_def file_started_def
  file_finished_def batch_begin_def batch_end_def progress_text_def

section \<open>Lemmas\<close>

text \<open>Two files of one batch with the same name, started in the same millisecond, share
  a \<open>fileId\<close>: the first to finish removes it, and the progress line disappears while
  the other is still uploading.\<close>

lemma same_file_id_progress:
  "progress_text (file_finished (file_started (file_started upload_ui_init (file_id n t)) (file_id n t))
     (file_id n t)) = None"
  by (simp add: upload_ui_defs)

section \<open>Properties of the upload interface\<close>


end
