(* ===== verification/Image_Cleanup.thy ===== *)
theory Image_Cleanup
  imports Object_Store
begin

text \<open>
  The cleanup service of \<open>src/lib/utils/image-cleanup.ts\<close>:
  \<open>cleanupUnusedImages(userId, usedImageUrls)\<close> lists the caller's folder, builds
  the public URL of every listed file from the configured base URL, and removes in one
  batched call every file whose URL is not in \<open>usedImageUrls\<close>. A failed listing
  or a failed removal is logged and absorbed: the function never fails its caller. The
  model returns the bucket after the call and the outcome the source logs.
\<close>

datatype cleanup_outcome =
    ListFailed               \<comment> \<open>\<open>error || !files\<close>: logged, nothing removed\<close>
  | NothingUnused            \<comment> \<open>no unused file: no remove call\<close>
  | DeleteFailed nat         \<comment> \<open>the batched remove failed: logged\<close>
  | CleanedUp nat            \<comment> \<open>\<open>Cleaned up n unused images\<close>\<close>

text \<open>The URL the cleanup compares, built from \<open>NEXT_PUBLIC_SUPABASE_URL\<close>.\<close>

definition file_url :: "string \<Rightarrow> user_id \<Rightarrow> string \<Rightarrow> url" where
  "file_url base uid n = base @ bucket_url_prefix @ uid @ ''/'' @ n"

definition unused_files :: "string \<Rightarrow> user_id \<Rightarrow> url list \<Rightarrow> string list \<Rightarrow> string list" where
  "unused_files base uid used files = filter (\<lambda>n. file_url base uid n \<notin> set used) files"

definition cleanupUnusedImages ::
  "string \<Rightarrow> bucket \<Rightarrow> user_id \<Rightarrow> url list \<Rightarrow> remote_fault option \<Rightarrow> remote_fault option \<Rightarrow>
   bucket \<times> cleanup_outcome" where
  "cleanupUnusedImages base b uid used list_fault remove_fault =
     (case list_fault of
        Some _ \<Rightarrow> (b, ListFailed)
      | None \<Rightarrow>
          (let unusedFiles = unused_files base uid used (storage_list b uid) in
           if unusedFiles \<noteq> [] then
             (let filePaths = map (\<lambda>n. uid @ ''/'' @ n) unusedFiles in
              case remove_fault of
                Some _ \<Rightarrow> (b, DeleteFailed (length unusedFiles))
              | None \<Rightarrow> (storage_remove b filePaths, CleanedUp (length unusedFiles)))
           else (b, NothingUnused)))"

text \<open>The paths one successful call removes: the listed children with an unused URL.\<close>

definition orphan_paths :: "string \<Rightarrow> bucket \<Rightarrow> user_id \<Rightarrow> url list \<Rightarrow> path set" where
  "orphan_paths base b uid used =
     {uid @ ''/'' @ n | n. n \<in> set (storage_list b uid) \<and> file_url base uid n \<notin> set used}"

text \<open>The direct children of a folder, whether or not a listing page shows them.\<close>

definition folder_children :: "bucket \<Rightarrow> user_id \<Rightarrow> string list" where
  "folder_children b uid = List.map_filter (child_name uid) (objects b)"

lemmas cleanup_defs [blog_simps] = cleanupUnusedImages_def unused_files_def file_url_def

section \<open>Lemmas\<close>

lemma file_url_public: "file_url base uid n = get_public_url base (uid @ ''/'' @ n)"
  by (simp add: file_url_def get_public_url_def)

lemma set_unused_files:
  "set (unused_files base uid used files) = {n \<in> set files. file_url base uid n \<notin> set used}"
  by (auto simp: unused_files_def)

lemma cleanup_cases:
  obtains (fail) "cleanupUnusedImages base b uid used lf rf = (b, ListFailed)"
  | (none) "cleanupUnusedImages base b uid used lf rf = (b, NothingUnused)"
  | (rfail) k where "cleanupUnusedImages base b uid used lf rf = (b, DeleteFailed k)"
  | (removed) k where "cleanupUnusedImages base b uid used lf rf =
       (storage_remove b (map (\<lambda>n. uid @ ''/'' @ n) (unused_files base uid used (storage_list b uid))),
        CleanedUp k)"
proof (cases lf)
  case Some
  then show ?thesis using fail by (auto simp: cleanupUnusedImages_def)
next
  case lnone: None
  show ?thesis
  proof (cases "unused_files base uid used (storage_list b uid) = []")
    case True
    with lnone show ?thesis using none by (simp add: cleanupUnusedImages_def)
  next
    case False
    show ?thesis
    proof (cases rf)
      case None
      with lnone False show ?thesis using removed by (simp add: cleanupUnusedImages_def Let_def)
    next
      case Some
      with lnone False show ?thesis using rfail by (auto simp: cleanupUnusedImages_def)
    qed
  qed
qed

lemma set_paths_unused:
  "(\<lambda>n. uid @ CHR ''/'' # n) ` set (unused_files base uid used (storage_list b uid)) =
   orphan_paths base b uid used"
  by (auto simp: orphan_paths_def unused_files_def)

lemma orphan_paths_child:
  "p \<in> orphan_paths base b uid used \<Longrightarrow>
   \<exists>n. p = uid @ ''/'' @ n \<and> CHR ''/'' \<notin> set n \<and> file_url base uid n \<notin> set used"
  by (auto simp: orphan_paths_def dest: storage_list_child)

lemma storage_list_all:
  "length (folder_children b uid) \<le> list_limit \<Longrightarrow> set (storage_list b uid) = set (folder_children b uid)"
  by (simp add: storage_list_def folder_children_def)

lemma storage_list_subset: "set (storage_list b uid) \<subseteq> set (folder_children b uid)"
  by (auto simp: storage_list_def folder_children_def dest: in_set_takeD)

lemma cleanup_objects:
  "set (objects (fst (cleanupUnusedImages base b uid used lf rf))) =
   set (objects b) - (if lf = None \<and> rf = None then orphan_paths base b uid used else {})"
proof (cases "lf = None \<and> rf = None")
  case True
  show ?thesis
  proof (cases "unused_files base uid used (storage_list b uid) = []")
    case empty: True
    then have "orphan_paths base b uid used = {}"
      by (auto simp: orphan_paths_def unused_files_def filter_empty_conv)
    with True empty show ?thesis by (simp add: cleanupUnusedImages_def)
  next
    case False
    with True show ?thesis
      by (simp add: cleanupUnusedImages_def Let_def set_paths_unused)
  qed
next
  case False
  then show ?thesis
    by (cases lf) (auto simp: cleanupUnusedImages_def Let_def split: option.split)
qed

lemma cleanup_removed_orphans:
  "set (objects b) - set (objects (fst (cleanupUnusedImages base b uid used lf rf))) \<subseteq>
   orphan_paths base b uid used"
  by (auto simp: cleanup_objects split: if_splits)

lemma cleanup_wf: "bucket_wf b \<Longrightarrow> bucket_wf (fst (cleanupUnusedImages base b uid used lf rf))"
  by (cases rule: cleanup_cases [of base b uid used lf rf]) (simp_all add: storage_remove_wf)

lemma child_name_slash [simp]:
  "CHR ''/'' \<notin> set n \<Longrightarrow> child_name uid (uid @ CHR ''/'' # n) = Some n"
  by (simp add: child_name_Some)

lemma map_filter_child_name_remove:
  "List.map_filter (child_name uid) (filter (\<lambda>p. p \<notin> set ps) xs) =
   filter (\<lambda>n. uid @ ''/'' @ n \<notin> set ps) (List.map_filter (child_name uid) xs)"
  by (induction xs) (auto simp: List.map_filter_simps child_name_Some split: option.split)

lemma folder_children_storage_remove:
  "folder_children (storage_remove b ps) uid =
   filter (\<lambda>n. uid @ ''/'' @ n \<notin> set ps) (folder_children b uid)"
  by (simp add: folder_children_def storage_remove_def map_filter_child_name_remove)

lemma cleanup_CleanedUp:
  assumes "cleanupUnusedImages base b uid used None None = (b', CleanedUp k)"
  shows "\<exists>n \<in> set (storage_list b uid). file_url base uid n \<notin> set used \<and>
           b' = storage_remove b (map (\<lambda>n. uid @ ''/'' @ n) (unused_files base uid used (storage_list b uid)))"
proof -
  have ne: "unused_files base uid used (storage_list b uid) \<noteq> []"
    and b': "b' = storage_remove b (map (\<lambda>n. uid @ ''/'' @ n) (unused_files base uid used (storage_list b uid)))"
    using assms by (auto simp: cleanupUnusedImages_def Let_def split: if_splits)
  from ne obtain n where "n \<in> set (unused_files base uid used (storage_list b uid))"
    by (metis list.set_intros(1) neq_Nil_conv)
  with b' show ?thesis by (auto simp: unused_files_def)
qed

lemma cleanup_CleanedUp_shrinks:
  assumes "cleanupUnusedImages base b uid used None None = (b', CleanedUp k)"
  shows "length (folder_children b' uid) < length (folder_children b uid)"
proof -
  obtain n where n: "n \<in> set (storage_list b uid)" "file_url base uid n \<notin> set used"
    and b': "b' = storage_remove b (map (\<lambda>n. uid @ ''/'' @ n) (unused_files base uid used (storage_list b uid)))"
    using cleanup_CleanedUp [OF assms] by blast
  have "n \<in> set (folder_children b uid)" using n(1) storage_list_subset by blast
  moreover have "uid @ ''/'' @ n \<in> set (map (\<lambda>n. uid @ ''/'' @ n) (unused_files base uid used (storage_list b uid)))"
    using n by (auto simp: unused_files_def)
  ultimately show ?thesis
    unfolding b' folder_children_storage_remove by (auto intro: length_filter_less)
qed

section \<open>Properties of the cleanup service\<close>



text \<open>
  C10. When both remote calls succeed, cleanup removes exactly the orphans of the listed
  page: the objects \<open>userId/n\<close> with \<open>n\<close> listed and its URL unused; every other
  object stays.
\<close>

theorem cleanup_exact:
  "set (objects (fst (cleanupUnusedImages base b uid used None None))) =
   set (objects b) - orphan_paths base b uid used"
  by (simp add: cleanup_objects)


end
