(* ===== verification/Post_Save.thy ===== *)
theory Post_Save
  imports Image_Cleanup Image_Tracker
begin

text \<open>
  Saving a post, \<open>handleSubmit\<close> of \<open>src/components/blog/post-form.tsx\<close>, with
  \<open>ensureUserProfile\<close>. Without a signed-in user nothing happens. The profile row is
  created if missing (a failed insert throws and ends the submission). The form becomes
  \<open>postData\<close> (empty excerpt and featured image as \<open>null\<close>, an empty image list as
  \<open>null\<close>) and is written: an update of the edited post's row, or an insert. A failed
  write is reported and nothing else happens. After a successful edit, the images of the
  form and of every post of the author (the reachable-image set) are collected and handed
  to \<^const>\<open>cleanupUnusedImages\<close>; if the query for the author's posts fails, only the
  form's images are handed over.

  The database is a record of the post rows and the profile rows. What the environment
  decides is a parameter: the clock string, the id the database gives a new row, the slug
  function (\<open>generateSlug\<close>, outside \<open>src/\<close>), and whether each remote call fails.
\<close>

record db =
  posts :: "post list"
  profiles :: "profile list"

record auth_user =
  user_uid :: user_id
  user_email :: string
  meta_full_name :: "string option"
  meta_avatar_url :: "string option"

record form_fields =
  form_title :: string
  form_content :: string
  form_excerpt :: string
  form_published :: bool

text \<open>\<open>useState(post?.title || "")\<close> and the other field initialisers of the form.\<close>

definition init_form_fields :: "post option \<Rightarrow> form_fields" where
  "init_form_fields p =
     (case p of
        None \<Rightarrow> \<lparr>form_title = [], form_content = [], form_excerpt = [], form_published = False\<rparr>
      | Some q \<Rightarrow> \<lparr>form_title = title q, form_content = content q, form_excerpt = or_empty (excerpt q),
                   form_published = published q\<rparr>)"

record save_env =
  env_clock :: string
  env_new_id :: string
  env_slug :: "string \<Rightarrow> string"
  profile_insert_fault :: "string option"
  write_fault :: "string option"
  posts_query_ok :: bool
  list_fault :: "remote_fault option"
  remove_fault :: "remote_fault option"

datatype save_outcome =
    NotLoggedIn
  | SubmitError string   \<comment> \<open>thrown inside the \<open>try\<close>: \<open>error.message\<close>\<close>
  | SaveFailed string    \<comment> \<open>the update or insert returned an error\<close>
  | Saved string         \<comment> \<open>success; the slug the router navigates to\<close>

definition new_profile :: "auth_user \<Rightarrow> string \<Rightarrow> profile" where
  "new_profile u now =
     \<lparr>profile_id = user_uid u, email = user_email u,
      full_name = Some (or_empty (meta_full_name u)), avatar_url = Some (or_empty (meta_avatar_url u)),
      profile_created_at = now, profile_updated_at = now\<rparr>"

definition ensureUserProfile :: "db \<Rightarrow> auth_user \<Rightarrow> string \<Rightarrow> string option \<Rightarrow> string + db" where
  "ensureUserProfile d u now fault =
     (if list_ex (\<lambda>p. profile_id p = user_uid u) (profiles d) then Inr d
      else (case fault of
              Some _ \<Rightarrow> Inl ''Failed to create user profile''
            | None \<Rightarrow> Inr (d\<lparr>profiles := profiles d @ [new_profile u now]\<rparr>)))"

text \<open>The columns \<open>postData\<close> writes, applied to a row.\<close>

definition apply_postData ::
  "form_fields \<Rightarrow> image_state \<Rightarrow> string \<Rightarrow> user_id \<Rightarrow> string \<Rightarrow> post \<Rightarrow> post" where
  "apply_postData ff ist sl uid now p =
     p\<lparr>title := form_title ff, slug := sl, content := form_content ff,
       excerpt := nonempty_or_null (form_excerpt ff),
       featured_image := nonempty_or_null (featuredImage ist),
       images := (if form_images ist \<noteq> [] then Some (form_images ist) else None),
       published := form_published ff, author_id := uid, updated_at := now\<rparr>"

definition blank_post :: "string \<Rightarrow> string \<Rightarrow> post" where
  "blank_post pid now =
     \<lparr>post_id = pid, title = [], slug = [], content = [], excerpt = None, featured_image = None,
      images = None, author_id = [], published = False, created_at = now, updated_at = now\<rparr>"

text \<open>\<open>update(postData).eq("id", post.id)\<close> and \<open>insert([postData])\<close>.\<close>

definition update_post :: "db \<Rightarrow> string \<Rightarrow> (post \<Rightarrow> post) \<Rightarrow> db" where
  "update_post d pid f = d\<lparr>posts := map (\<lambda>p. if post_id p = pid then f p else p) (posts d)\<rparr>"

definition insert_post :: "db \<Rightarrow> post \<Rightarrow> db" where
  "insert_post d p = d\<lparr>posts := posts d @ [p]\<rparr>"

text \<open>The images one post row references: its \<open>images\<close> (if not null) and its
  \<open>featured_image\<close> (if truthy).\<close>

definition post_refs :: "post \<Rightarrow> url list" where
  "post_refs p =
     list_or_empty (images p) @
     (case featured_image p of None \<Rightarrow> [] | Some f \<Rightarrow> (if f = [] then [] else [f]))"

definition user_posts :: "db \<Rightarrow> user_id \<Rightarrow> post list" where
  "user_posts d uid = filter (\<lambda>p. author_id p = uid) (posts d)"

definition allUsedImages :: "url list \<Rightarrow> post list option \<Rightarrow> url list" where
  "allUsedImages imgs userPosts =
     imgs @ (case userPosts of None \<Rightarrow> [] | Some ps \<Rightarrow> concat (map post_refs ps))"

text \<open>The write of \<open>handleSubmit\<close>: update when editing an existing post, insert otherwise.\<close>

definition write_post ::
  "save_env \<Rightarrow> auth_user \<Rightarrow> post option \<Rightarrow> bool \<Rightarrow> form_fields \<Rightarrow> image_state \<Rightarrow> db \<Rightarrow> db" where
  "write_post env u post isEditing ff ist d1 =
     (let write = apply_postData ff ist (env_slug env (form_title ff)) (user_uid u) (env_clock env) in
      case (isEditing, post) of
        (True, Some p) \<Rightarrow> update_post d1 (post_id p) write
      | _ \<Rightarrow> insert_post d1 (write (blank_post (env_new_id env) (env_clock env))))"

text \<open>\<open>allUsedImages\<close> after the write: the form's images and, if the query succeeds,
  the references of every post of the author.\<close>

definition save_used_images :: "save_env \<Rightarrow> auth_user \<Rightarrow> image_state \<Rightarrow> db \<Rightarrow> url list" where
  "save_used_images env u ist d2 =
     allUsedImages (form_images ist)
       (if posts_query_ok env then Some (user_posts d2 (user_uid u)) else None)"

definition handleSubmit ::
  "string \<Rightarrow> save_env \<Rightarrow> auth_user option \<Rightarrow> post option \<Rightarrow> bool \<Rightarrow> form_fields \<Rightarrow> image_state \<Rightarrow>
   db \<times> bucket \<Rightarrow> (db \<times> bucket) \<times> save_outcome" where
  "handleSubmit base env user post isEditing ff ist s =
     (case user of
        None \<Rightarrow> (s, NotLoggedIn)
      | Some u \<Rightarrow>
          (case ensureUserProfile (fst s) u (env_clock env) (profile_insert_fault env) of
             Inl msg \<Rightarrow> (s, SubmitError msg)
           | Inr d1 \<Rightarrow>
               (let d2 = write_post env u post isEditing ff ist d1 in
                case write_fault env of
                  Some msg \<Rightarrow> ((d1, snd s), SaveFailed msg)
                | None \<Rightarrow>
                    (if isEditing then
                       ((d2, fst (cleanupUnusedImages base (snd s) (user_uid u)
                                    (save_used_images env u ist d2) (list_fault env) (remove_fault env))),
                        Saved (env_slug env (form_title ff)))
                     else ((d2, snd s), Saved (env_slug env (form_title ff)))))))"

text \<open>Rows, users and environments of the scenarios below.\<close>

definition post_a :: post where
  "post_a = \<lparr>post_id = ''p1'', title = ''A'', slug = ''a'', content = ''x'', excerpt = None,
     featured_image = Some ''https://x/storage/v1/object/public/blog-images/u1/a.png'',
     images = Some [''https://x/storage/v1/object/public/blog-images/u1/a.png''],
     author_id = ''u1'', published = True, created_at = ''t0'', updated_at = ''t0''\<rparr>"

definition post_c :: post where
  "post_c = \<lparr>post_id = ''p2'', title = ''C'', slug = ''c'', content = ''y'', excerpt = None,
     featured_image = None,
     images = Some [''https://x/storage/v1/object/public/blog-images/u1/c.png''],
     author_id = ''u1'', published = True, created_at = ''t0'', updated_at = ''t0''\<rparr>"

definition user_u1 :: auth_user where
  "user_u1 = \<lparr>user_uid = ''u1'', user_email = ''u1@x'', meta_full_name = None, meta_avatar_url = None\<rparr>"

definition profile_u1 :: profile where
  "profile_u1 = \<lparr>profile_id = ''u1'', email = ''u1@x'', full_name = Some [], avatar_url = Some [],
     profile_created_at = ''t0'', profile_updated_at = ''t0''\<rparr>"

definition env_ok :: save_env where
  "env_ok = \<lparr>env_clock = ''t1'', env_new_id = ''p3'', env_slug = (\<lambda>t. t), profile_insert_fault = None,
     write_fault = None, posts_query_ok = True, list_fault = None, remove_fault = None\<rparr>"

definition form_a :: form_fields where
  "form_a = \<lparr>form_title = ''A'', form_content = ''x'', form_excerpt = [], form_published = True\<rparr>"

definition spec_p1 :: post where
  "spec_p1 = post_a\<lparr>featured_image := None,
     images := Some [''https://x/storage/v1/object/public/blog-images/u1/a.png'',
                     ''https://x/storage/v1/object/public/blog-images/u1/b.png'']\<rparr>"

definition spec_p2 :: post where
  "spec_p2 = post_c\<lparr>featured_image := Some ''https://x/storage/v1/object/public/blog-images/u1/c.png'',
     images := None\<rparr>"

lemmas save_defs [blog_simps] =
  handleSubmit_def write_post_def save_used_images_def ensureUserProfile_def apply_postData_def blank_post_def update_post_def
  insert_post_def post_refs_def user_posts_def allUsedImages_def new_profile_def
  nonempty_or_null_def

section \<open>Lemmas\<close>

lemma ensureUserProfile_posts:
  "ensureUserProfile d u now f = Inr d1 \<Longrightarrow> posts d1 = posts d"
  by (auto simp: ensureUserProfile_def split: if_splits option.splits)

lemma handleSubmit_cases:
  obtains (same_bucket) "snd (fst (handleSubmit base env user post isEditing ff ist (d, b))) = b"
  | (cleaned) u d1 where "user = Some u"
      "ensureUserProfile d u (env_clock env) (profile_insert_fault env) = Inr d1"
      "write_fault env = None" "isEditing"
      "handleSubmit base env user post isEditing ff ist (d, b) =
         ((write_post env u post isEditing ff ist d1,
           fst (cleanupUnusedImages base b (user_uid u)
                  (save_used_images env u ist (write_post env u post isEditing ff ist d1))
                  (list_fault env) (remove_fault env))),
          Saved (env_slug env (form_title ff)))"
proof (cases user)
  case None
  then show ?thesis using same_bucket by (simp add: handleSubmit_def)
next
  case (Some u)
  show ?thesis
  proof (cases "ensureUserProfile d u (env_clock env) (profile_insert_fault env)")
    case (Inl msg)
    with Some show ?thesis using same_bucket by (simp add: handleSubmit_def)
  next
    case (Inr d1)
    show ?thesis
    proof (cases "write_fault env = None \<and> isEditing")
      case True
      with Some Inr show ?thesis using cleaned by (simp add: handleSubmit_def Let_def)
    next
      case False
      with Some Inr show ?thesis using same_bucket
        by (auto simp: handleSubmit_def Let_def split: option.split)
    qed
  qed
qed

lemma used_images_form: "set (form_images ist) \<subseteq> set (save_used_images env u ist d2)"
  by (auto simp: save_used_images_def allUsedImages_def)

lemma used_images_posts:
  "posts_query_ok env \<Longrightarrow> p \<in> set (posts d2) \<Longrightarrow> author_id p = user_uid u \<Longrightarrow>
   set (post_refs p) \<subseteq> set (save_used_images env u ist d2)"
  by (auto simp: save_used_images_def allUsedImages_def user_posts_def)

text \<open>The key step: cleanup keeps every object whose URL the used list contains.\<close>

lemma cleanup_keeps_used:
  assumes "file_url base uid n \<in> set used" and "uid @ ''/'' @ n \<in> set (objects b)"
  shows "uid @ ''/'' @ n \<in> set (objects (fst (cleanupUnusedImages base b uid used lf rf)))"
proof (rule ccontr)
  assume "uid @ ''/'' @ n \<notin> set (objects (fst (cleanupUnusedImages base b uid used lf rf)))"
  with assms(2) have "uid @ ''/'' @ n \<in> orphan_paths base b uid used"
    using cleanup_removed_orphans by blast
  with assms(1) show False by (auto simp: orphan_paths_def)
qed

lemma handleSubmit_Saved:
  "handleSubmit base env (Some u) post isEditing ff ist (d, b) = ((d', b'), Saved sl) \<Longrightarrow>
   \<exists>d1. ensureUserProfile d u (env_clock env) (profile_insert_fault env) = Inr d1 \<and>
        write_fault env = None \<and> d' = write_post env u post isEditing ff ist d1"
  by (auto simp: handleSubmit_def Let_def split: sum.splits option.splits if_splits)

lemma apply_postData_id [simp]: "post_id (apply_postData ff ist sl uid now q) = post_id q"
  by (simp add: apply_postData_def)

lemma reload_apply_postData:
  "init_image_state (Some (apply_postData ff ist sl uid now q)) = ist"
  by (simp add: init_image_state_def apply_postData_def)

lemma reload_form_fields:
  "init_form_fields (Some (apply_postData ff ist sl uid now q)) = ff"
  by (simp add: init_form_fields_def apply_postData_def)

lemma handleSubmit_written_db:
  "ensureUserProfile d u (env_clock env) (profile_insert_fault env) = Inr d1 \<Longrightarrow>
   write_fault env = None \<Longrightarrow>
   fst (fst (handleSubmit base env (Some u) post isEditing ff ist (d, b))) =
     write_post env u post isEditing ff ist d1"
  by (simp add: handleSubmit_def Let_def)

lemma handleSubmit_bucket_edit:
  "ensureUserProfile d u (env_clock env) (profile_insert_fault env) = Inr d1 \<Longrightarrow>
   write_fault env = None \<Longrightarrow>
   snd (fst (handleSubmit base env (Some u) post True ff ist (d, b))) =
     fst (cleanupUnusedImages base b (user_uid u)
            (save_used_images env u ist (write_post env u post True ff ist d1))
            (list_fault env) (remove_fault env))"
  by (simp add: handleSubmit_def Let_def)

lemma handleSubmit_outcome_edit:
  "ensureUserProfile d u (env_clock env) (profile_insert_fault env) = Inr d1 \<Longrightarrow>
   write_fault env = None \<Longrightarrow>
   snd (handleSubmit base env (Some u) post isEditing ff ist (d, b)) = Saved (env_slug env (form_title ff))"
  by (simp add: handleSubmit_def Let_def)

section \<open>Properties of saving\<close>

text \<open>
  C24. Saving never deletes an image that is still referenced: after any submission by
  user \<open>u\<close>, an object \<open>u/n\<close> whose public URL is one of the form's images, or (when
  the query for the author's posts succeeds) is referenced by any post of \<open>u\<close> in the
  database after the save, is still in the bucket. This is the reachable-set contract of
  spec section 4.4.
\<close>

theorem save_keeps_referenced:
  assumes run: "handleSubmit base env (Some u) post isEditing ff ist (d, b) = ((d', b'), out)"
    and stored: "user_uid u @ ''/'' @ n \<in> set (objects b)"
    and ref: "file_url base (user_uid u) n \<in> set (form_images ist) \<or>
              (posts_query_ok env \<and> (\<exists>p \<in> set (posts d'). author_id p = user_uid u \<and>
                                        file_url base (user_uid u) n \<in> set (post_refs p)))"
  shows "user_uid u @ ''/'' @ n \<in> set (objects b')"
proof (cases rule: handleSubmit_cases [of base env "Some u" post isEditing ff ist d b])
  case same_bucket
  with run stored show ?thesis by simp
next
  case (cleaned u' d1)
  let ?d2 = "write_post env u post isEditing ff ist d1"
  from cleaned(1) have u': "u' = u" by simp
  have "((d', b'), out) = ((?d2, fst (cleanupUnusedImages base b (user_uid u)
      (save_used_images env u ist ?d2) (list_fault env) (remove_fault env))),
      Saved (env_slug env (form_title ff)))"
    using run [symmetric] cleaned(5) [unfolded u'] by (rule trans)
  then have d': "d' = ?d2"
    and b': "b' = fst (cleanupUnusedImages base b (user_uid u) (save_used_images env u ist ?d2)
                        (list_fault env) (remove_fault env))"
    by simp_all
  have "file_url base (user_uid u) n \<in> set (save_used_images env u ist ?d2)"
    using ref used_images_form [of ist env u ?d2] used_images_posts [of env _ ?d2 u ist] d'
    by blast
  then show ?thesis using stored unfolding b' by (rule cleanup_keeps_used)
qed

theorem save_keeps_referenced_witness:
  "user_uid user_u1 @ ''/'' @ ''c.png'' \<in> set (objects (snd (fst (handleSubmit ''https://x'' env_ok (Some user_u1)
      (Some post_a) True form_a (init_image_state (Some post_a))
      (\<lparr>posts = [post_a, post_c], profiles = [profile_u1]\<rparr>, \<lparr>objects = [''u1/a.png'', ''u1/c.png'']\<rparr>)))))"
proof -
  let ?d = "\<lparr>posts = [post_a, post_c], profiles = [profile_u1]\<rparr>"
  let ?X = "handleSubmit ''https://x'' env_ok (Some user_u1)
      (Some post_a) True form_a (init_image_state (Some post_a))
      (?d, \<lparr>objects = [''u1/a.png'', ''u1/c.png'']\<rparr>)"
  have e: "ensureUserProfile ?d user_u1 (env_clock env_ok) (profile_insert_fault env_ok) = Inr ?d"
    by (simp add: ensureUserProfile_def profile_u1_def user_u1_def)
  have "post_c \<in> set (posts (write_post env_ok user_u1 (Some post_a) True form_a
      (init_image_state (Some post_a)) ?d))"
    by (simp add: write_post_def update_post_def post_a_def post_c_def)
  moreover have "write_fault env_ok = None" by (simp add: env_ok_def)
  ultimately have mem: "post_c \<in> set (posts (fst (fst ?X)))"
    by (simp only: handleSubmit_written_db [OF e])
  have "author_id post_c = user_uid user_u1 \<and>
        file_url ''https://x'' (user_uid user_u1) ''c.png'' \<in> set (post_refs post_c)"
    by (simp add: post_c_def user_u1_def post_refs_def file_url_def bucket_url_prefix_def)
  with mem have ref: "posts_query_ok env_ok \<and> (\<exists>p \<in> set (posts (fst (fst ?X))).
      author_id p = user_uid user_u1 \<and> file_url ''https://x'' (user_uid user_u1) ''c.png'' \<in> set (post_refs p))"
    by (auto simp: env_ok_def)
  have stored: "user_uid user_u1 @ ''/'' @ ''c.png'' \<in> set (objects \<lparr>objects = [''u1/a.png'', ''u1/c.png'']\<rparr>)"
    by (simp add: user_u1_def)
  have run: "?X = ((fst (fst ?X), snd (fst ?X)), snd ?X)" by simp
  from save_keeps_referenced [OF run stored disjI2 [OF ref]] show ?thesis .
qed



text \<open>
  C26. A failed update or insert ends the submission: no cleanup runs, the bucket is
  unchanged and so are the post rows.
\<close>

theorem save_write_failure_no_change:
  "write_fault env = Some msg \<Longrightarrow>
   snd (fst (handleSubmit base env user post isEditing ff ist (d, b))) = b \<and>
   posts (fst (fst (handleSubmit base env user post isEditing ff ist (d, b)))) = posts d"
  by (auto simp: handleSubmit_def Let_def ensureUserProfile_posts split: option.splits sum.splits)

theorem save_write_failure_no_change_witness:
  "snd (fst (handleSubmit ''https://x'' (env_ok\<lparr>write_fault := Some ''denied''\<rparr>) (Some user_u1) (Some post_a) True
      form_a (init_image_state None) (\<lparr>posts = [post_a, post_c], profiles = [profile_u1]\<rparr>, \<lparr>objects = [''u1/a.png'']\<rparr>)))
   = \<lparr>objects = [''u1/a.png'']\<rparr>"
  using save_write_failure_no_change [of "env_ok\<lparr>write_fault := Some ''denied''\<rparr>" "''denied''"] by simp

text \<open>
  C28. Save and reload round trip: after a successful edit of post \<open>p\<close>, the row of
  \<open>p\<close> in the database, opened again in the editor, gives back exactly the form fields
  and the image state that were saved (an empty excerpt, an empty list and an empty
  featured image are stored as \<open>null\<close>, and all read back as empty).
\<close>

theorem save_reload_roundtrip:
  assumes "handleSubmit base env (Some u) (Some p) True ff ist (d, b) = ((d', b'), Saved sl)"
    and "q \<in> set (posts d)" and "post_id q = post_id p"
  shows "\<exists>q' \<in> set (posts d'). post_id q' = post_id p \<and> init_image_state (Some q') = ist \<and>
           init_form_fields (Some q') = ff"
proof -
  obtain d1 where e: "ensureUserProfile d u (env_clock env) (profile_insert_fault env) = Inr d1"
    and d': "d' = write_post env u (Some p) True ff ist d1"
    using handleSubmit_Saved [OF assms(1)] by blast
  let ?w = "apply_postData ff ist (env_slug env (form_title ff)) (user_uid u) (env_clock env)"
  have "q \<in> set (posts d1)" using assms(2) ensureUserProfile_posts [OF e] by simp
  then have mem: "?w q \<in> set (posts d')"
    using assms(3) by (force simp: d' write_post_def update_post_def)
  have "post_id (?w q) = post_id p \<and> init_image_state (Some (?w q)) = ist \<and> init_form_fields (Some (?w q)) = ff"
    using assms(3) by (simp add: reload_apply_postData reload_form_fields)
  with mem show ?thesis by blast
qed

theorem save_reload_roundtrip_witness:
  "\<exists>q' \<in> set (posts (fst (fst (handleSubmit ''https://x'' env_ok (Some user_u1) (Some post_a) True form_a
      (init_image_state (Some post_c)) (\<lparr>posts = [post_a, post_c], profiles = [profile_u1]\<rparr>, \<lparr>objects = []\<rparr>))))).
     post_id q' = post_id post_a \<and> init_image_state (Some q') = init_image_state (Some post_c) \<and>
     init_form_fields (Some q') = form_a"
proof -
  let ?d = "\<lparr>posts = [post_a, post_c], profiles = [profile_u1]\<rparr>"
  let ?X = "handleSubmit ''https://x'' env_ok (Some user_u1) (Some post_a) True form_a
      (init_image_state (Some post_c)) (?d, \<lparr>objects = []\<rparr>)"
  have e: "ensureUserProfile ?d user_u1 (env_clock env_ok) (profile_insert_fault env_ok) = Inr ?d"
    by (simp add: ensureUserProfile_def profile_u1_def user_u1_def)
  have w: "write_fault env_ok = None" by (simp add: env_ok_def)
  have "snd ?X = Saved (env_slug env_ok (form_title form_a))"
    by (rule handleSubmit_outcome_edit [OF e w])
  then have run: "?X = ((fst (fst ?X), snd (fst ?X)), Saved (env_slug env_ok (form_title form_a)))"
    by (metis prod.collapse)
  have "post_a \<in> set (posts ?d)" by simp
  from save_reload_roundtrip [OF run this refl] show ?thesis .
qed

text \<open>
  A missing profile whose creation fails aborts the submission with \<open>"Failed to
  create user profile"\<close>: nothing is written and the bucket is untouched.
\<close>

theorem save_profile_failure:
  "\<not> list_ex (\<lambda>p. profile_id p = user_uid u) (profiles d) \<Longrightarrow> profile_insert_fault env = Some e \<Longrightarrow>
   handleSubmit base env (Some u) post isEditing ff ist (d, b) =
     ((d, b), SubmitError ''Failed to create user profile'')"
  by (simp add: handleSubmit_def ensureUserProfile_def)

theorem save_profile_failure_witness:
  "handleSubmit ''https://x'' (env_ok\<lparr>profile_insert_fault := Some ''rls''\<rparr>) (Some user_u1) None False form_a
      (init_image_state None) (\<lparr>posts = [], profiles = []\<rparr>, \<lparr>objects = []\<rparr>) =
   ((\<lparr>posts = [], profiles = []\<rparr>, \<lparr>objects = []\<rparr>), SubmitError ''Failed to create user profile'')"
  by (rule save_profile_failure) (simp_all add: env_ok_def)


text \<open>
  The reachability example of spec section 8: with posts \<open>P1.images = [a, b]\<close>
  and \<open>P2.featured_image = c\<close> and objects \<open>a, b, c, d\<close> stored, saving an edit of
  P1 deletes exactly \<open>d\<close>.
\<close>

theorem save_spec_reachability_example:
  "snd (fst (handleSubmit ''https://x'' env_ok (Some user_u1) (Some spec_p1) True form_a
      (init_image_state (Some spec_p1))
      (\<lparr>posts = [spec_p1, spec_p2], profiles = [profile_u1]\<rparr>,
       \<lparr>objects = [''u1/a.png'', ''u1/b.png'', ''u1/c.png'', ''u1/d.png'']\<rparr>)))
   = \<lparr>objects = [''u1/a.png'', ''u1/b.png'', ''u1/c.png'']\<rparr>"
proof -
  let ?d = "\<lparr>posts = [spec_p1, spec_p2], profiles = [profile_u1]\<rparr>"
  have e: "ensureUserProfile ?d user_u1 (env_clock env_ok) (profile_insert_fault env_ok) = Inr ?d"
    by (simp add: ensureUserProfile_def profile_u1_def user_u1_def)
  have w: "write_fault env_ok = None" by (simp add: env_ok_def)
  have used: "save_used_images env_ok user_u1 (init_image_state (Some spec_p1))
      (write_post env_ok user_u1 (Some spec_p1) True form_a (init_image_state (Some spec_p1)) ?d) =
    [''https://x/storage/v1/object/public/blog-images/u1/a.png'',
     ''https://x/storage/v1/object/public/blog-images/u1/b.png'',
     ''https://x/storage/v1/object/public/blog-images/u1/a.png'',
     ''https://x/storage/v1/object/public/blog-images/u1/b.png'',
     ''https://x/storage/v1/object/public/blog-images/u1/c.png'']"
    by (simp add: save_used_images_def write_post_def update_post_def allUsedImages_def user_posts_def
        post_refs_def apply_postData_def nonempty_or_null_def init_image_state_def spec_p1_def spec_p2_def
        post_a_def post_c_def env_ok_def user_u1_def form_a_def)
  show ?thesis
    unfolding handleSubmit_bucket_edit [OF e w] used
    by (simp add: blog_simps env_ok_def user_u1_def)
qed

end
