(* ===== verification/Post_Views.thy ===== *)
theory Post_Views
  imports Post_Types "HOL-Library.Char_ord" "HOL-Library.List_Lexorder" "HOL-Library.Multiset"
begin

text \<open>
  The pages that read posts: the post page \<open>src/app/post/[slug]/page.tsx\<close> (one row
  by slug, hidden when it is a draft the reader did not write, the gallery of every image
  but the first), the edit page \<open>src/app/write/[id]/page.tsx\<close> (only the reader's own
  row), the write page, the profile page \<open>src/app/profile/page.tsx\<close> (the reader's
  rows, newest first, split into published posts and drafts) and the home page
  \<open>src/app/page.tsx\<close> (published rows, newest first). A page is a function of the
  signed-in user and the rows of the \<open>posts\<close> table; what it renders is a datatype
  of the decisions it takes. \<open>.single()\<close> yields a row only when exactly one row
  matches. \<open>.order("created_at", {ascending: false})\<close> sorts by the timestamp
  string, whose lexicographic order is the chronological one for ISO timestamps.
\<close>

text \<open>\<open>.single()\<close>: the row, if exactly one matches.\<close>

definition single_row :: "('a \<Rightarrow> bool) \<Rightarrow> 'a list \<Rightarrow> 'a option" where
  "single_row P rows = (case filter P rows of [r] \<Rightarrow> Some r | _ \<Rightarrow> None)"

text \<open>\<open>.order("created_at", {ascending: false})\<close>.\<close>

definition newest_first :: "post list \<Rightarrow> post list" where
  "newest_first ps = rev (sort_key created_at ps)"

record post_view =
  pv_post :: post
  pv_is_author :: bool
  pv_draft_badge :: bool
  pv_featured :: "url option"
  pv_gallery :: "url list"
  pv_share_text :: string

datatype post_page = NotFound | PostView post_view

text \<open>A truthy optional string: not \<open>null\<close> and not empty.\<close>

definition truthy :: "string option \<Rightarrow> string option" where
  "truthy x = (case x of Some s \<Rightarrow> (if s = [] then None else Some s) | None \<Rightarrow> None)"

definition gallery :: "post \<Rightarrow> url list" where
  "gallery p = (case images p of Some is \<Rightarrow> (if 1 < length is then drop 1 is else []) | None \<Rightarrow> [])"

definition PostPage :: "user_id option \<Rightarrow> post list \<Rightarrow> string \<Rightarrow> post_page" where
  "PostPage user rows sl =
     (case single_row (\<lambda>p. slug p = sl) rows of
        None \<Rightarrow> NotFound
      | Some p \<Rightarrow>
          (if \<not> published p \<and> (user = None \<or> user \<noteq> Some (author_id p)) then NotFound
           else PostView
             \<lparr>pv_post = p, pv_is_author = (user = Some (author_id p)),
              pv_draft_badge = (\<not> published p), pv_featured = truthy (featured_image p),
              pv_gallery = gallery p,
              pv_share_text = (case excerpt p of Some e \<Rightarrow> e | None \<Rightarrow> title p)\<rparr>))"

datatype edit_page = RedirectToAuth | EditNotFound | EditForm post

definition EditPostPage :: "user_id option \<Rightarrow> post list \<Rightarrow> string \<Rightarrow> edit_page" where
  "EditPostPage user rows pid =
     (case user of
        None \<Rightarrow> RedirectToAuth
      | Some u \<Rightarrow>
          (case single_row (\<lambda>p. post_id p = pid \<and> author_id p = u) rows of
             None \<Rightarrow> EditNotFound
           | Some p \<Rightarrow> EditForm p))"

datatype write_page = WriteRedirect | WriteForm

definition WritePage :: "user_id option \<Rightarrow> write_page" where
  "WritePage user = (if user = None then WriteRedirect else WriteForm)"

datatype profile_page = ProfileRedirect | ProfileView "post list" "post list"

definition ProfilePage :: "user_id option \<Rightarrow> post list \<Rightarrow> profile_page" where
  "ProfilePage user rows =
     (case user of
        None \<Rightarrow> ProfileRedirect
      | Some u \<Rightarrow>
          (let mine = newest_first (filter (\<lambda>p. author_id p = u) rows)
           in ProfileView (filter published mine) (filter (\<lambda>p. \<not> published p) mine)))"

record home_view =
  home_posts :: "post list"
  home_write_button :: bool

definition HomePage :: "user_id option \<Rightarrow> post list \<Rightarrow> home_view" where
  "HomePage user rows =
     \<lparr>home_posts = newest_first (filter published rows), home_write_button = (user \<noteq> None)\<rparr>"

text \<open>\<open>PostCard\<close> (\<open>src/components/blog/post-card.tsx\<close>): what a card shows of a row.\<close>

record post_card =
  card_featured :: "url option"
  card_href :: string
  card_title :: string
  card_excerpt :: "string option"
  card_image_count :: "nat option"
  card_draft :: bool

definition PostCard :: "post \<Rightarrow> post_card" where
  "PostCard p =
     \<lparr>card_featured = truthy (featured_image p), card_href = ''/post/'' @ slug p,
      card_title = title p, card_excerpt = truthy (excerpt p),
      card_image_count =
        (case images p of Some is \<Rightarrow> (if 0 < length is then Some (length is) else None) | None \<Rightarrow> None),
      card_draft = (\<not> published p)\<rparr>"

text \<open>Rows of the scenarios below: a published post and a draft of \<open>u1\<close>, and a
  published post of \<open>u2\<close> with the same slug as the first.\<close>

definition row_pub :: post where
  "row_pub = \<lparr>post_id = ''r1'', title = ''Hello'', slug = ''hello'', content = ''x'', excerpt = None,
     featured_image = None, images = None, author_id = ''u1'', published = True,
     created_at = ''2024-01-01T00:00:00Z'', updated_at = ''2024-01-01T00:00:00Z''\<rparr>"

definition row_draft :: post where
  "row_draft = row_pub\<lparr>post_id := ''r2'', slug := ''draft'', published := False,
     created_at := ''2024-02-01T00:00:00Z''\<rparr>"

definition row_dup :: post where
  "row_dup = row_pub\<lparr>post_id := ''r3'', author_id := ''u2'', created_at := ''2024-03-01T00:00:00Z''\<rparr>"

lemmas view_defs [blog_simps] =
  PostPage_def single_row_def newest_first_def truthy_def gallery_def EditPostPage_def
  WritePage_def ProfilePage_def HomePage_def PostCard_def

section \<open>Lemmas\<close>

lemma single_row_Some:
  "single_row P rows = Some r \<Longrightarrow> r \<in> set rows \<and> P r"
proof -
  assume "single_row P rows = Some r"
  then have "filter P rows = [r]"
    by (auto simp: single_row_def split: list.splits)
  then have "r \<in> set (filter P rows)" by simp
  then show ?thesis by simp
qed

lemma single_row_one: "filter P rows = [r] \<Longrightarrow> single_row P rows = Some r"
  by (simp add: single_row_def)

lemma single_row_many:
  "1 < length (filter P rows) \<Longrightarrow> single_row P rows = None"
  by (auto simp: single_row_def split: list.splits)

lemma single_row_unique:
  "single_row P rows = Some r \<Longrightarrow> x \<in> set rows \<Longrightarrow> P x \<Longrightarrow> x = r"
proof -
  assume "single_row P rows = Some r" and "x \<in> set rows" and "P x"
  then have "filter P rows = [r]" and "x \<in> set (filter P rows)"
    by (auto simp: single_row_def split: list.splits)
  then show "x = r" by simp
qed

lemma PostPage_PostView:
  "PostPage user rows sl = PostView v \<Longrightarrow>
   single_row (\<lambda>p. slug p = sl) rows = Some (pv_post v) \<and> pv_gallery v = gallery (pv_post v) \<and>
   pv_featured v = truthy (featured_image (pv_post v))"
  by (auto simp: PostPage_def split: option.splits if_splits)

lemma set_newest_first [simp]: "set (newest_first ps) = set ps"
  by (simp add: newest_first_def)

lemma mset_newest_first [simp]: "mset (newest_first ps) = mset ps"
  by (simp add: newest_first_def)

lemma newest_first_sorted: "sorted (rev (map created_at (newest_first ps)))"
  by (simp add: newest_first_def rev_map [symmetric])

lemma newest_first_filter_sorted: "sorted (rev (map created_at (filter P (newest_first ps))))"
proof -
  have "sorted (map created_at (rev (newest_first ps)))"
    using newest_first_sorted by (simp add: rev_map)
  then have "sorted (map created_at (filter P (rev (newest_first ps))))" by (rule sorted_filter)
  then show ?thesis by (simp add: rev_filter rev_map)
qed

lemma filter_distinct_key:
  "distinct (map f xs) \<Longrightarrow> x \<in> set xs \<Longrightarrow> filter (\<lambda>y. f y = f x) xs = [x]"
proof (induction xs)
  case (Cons a xs)
  show ?case
  proof (cases "a = x")
    case True
    with Cons.prems have "\<forall>y\<in>set xs. f y \<noteq> f x" by (auto simp: image_iff)
    with True show ?thesis by (simp add: filter_empty_conv)
  next
    case False
    with Cons.prems have "f a \<noteq> f x" by auto
    with False Cons show ?thesis by simp
  qed
qed simp

section \<open>Properties of the pages\<close>

text \<open>
  C31. Draft visibility on the post page: when exactly one row has the slug, the page is
  shown if and only if the post is published or the reader is its author; a draft is
  \<open>notFound()\<close> for every other reader and for anonymous readers.
\<close>

theorem post_page_visible:
  assumes "filter (\<lambda>p. slug p = sl) rows = [p]"
  shows "(PostPage user rows sl \<noteq> NotFound) \<longleftrightarrow> published p \<or> user = Some (author_id p)"
  using assms by (auto simp: PostPage_def single_row_one)

theorem post_page_visible_witness:
  "filter (\<lambda>p. slug p = ''draft'') [row_pub, row_draft] = [row_draft] \<and>
   ((PostPage (Some ''u2'') [row_pub, row_draft] ''draft'' \<noteq> NotFound) \<longleftrightarrow>
      published row_draft \<or> Some ''u2'' = Some (author_id row_draft))"
  using post_page_visible [of sl_draft "[row_pub, row_draft]" row_draft "Some ''u2''" for sl_draft]
  by (simp add: row_pub_def row_draft_def)

text \<open>
  A slug shared by two rows makes the post page \<open>notFound()\<close> for every
  reader: \<open>.single()\<close> returns no row when more than one matches, so neither post
  can be opened by its link.
\<close>

theorem post_page_duplicate_slug:
  assumes "1 < length (filter (\<lambda>p. slug p = sl) rows)"
  shows "PostPage user rows sl = NotFound"
  using assms by (simp add: PostPage_def single_row_many)

theorem post_page_duplicate_slug_witness:
  "1 < length (filter (\<lambda>p. slug p = ''hello'') [row_pub, row_draft, row_dup]) \<and>
   PostPage (Some ''u1'') [row_pub, row_draft, row_dup] ''hello'' = NotFound"
  using post_page_duplicate_slug [of "''hello''" "[row_pub, row_draft, row_dup]" "Some ''u1''"]
  by (simp add: row_pub_def row_draft_def row_dup_def)

text \<open>
  C33. The edit page only ever opens the reader's own post: when it renders the form for
  row \<open>p\<close>, the reader is signed in as the author of \<open>p\<close>, \<open>p\<close> has the
  requested id and is a row of the table; an anonymous reader is redirected to
  \<open>/auth\<close>.
\<close>

theorem edit_page_own_post:
  assumes "EditPostPage user rows pid = EditForm p"
  shows "user = Some (author_id p) \<and> post_id p = pid \<and> p \<in> set rows"
  using assms by (auto simp: EditPostPage_def split: option.splits dest!: single_row_Some)

theorem edit_page_own_post_witness:
  "EditPostPage (Some ''u1'') [row_pub, row_dup] ''r1'' = EditForm row_pub \<and>
   Some ''u1'' = Some (author_id row_pub) \<and> post_id row_pub = ''r1'' \<and> row_pub \<in> set [row_pub, row_dup]"
proof -
  have e: "EditPostPage (Some ''u1'') [row_pub, row_dup] ''r1'' = EditForm row_pub"
    by (simp add: EditPostPage_def single_row_def row_pub_def row_dup_def)
  with edit_page_own_post [OF e] show ?thesis by simp
qed



text \<open>
  The home page lists exactly the published rows, each once (as a multiset), newest
  first, whoever reads it.
\<close>

theorem home_page_published:
  "mset (home_posts (HomePage user rows)) = mset (filter published rows) \<and>
   sorted (rev (map created_at (home_posts (HomePage user rows))))"
  by (simp add: HomePage_def newest_first_sorted)

text \<open>
  Every card of the home page opens its post when slugs are distinct: for a listed
  row \<open>p\<close>, the card links to \<open>/post/\<close> followed by the slug of \<open>p\<close>, and
  the post page for that slug shows \<open>p\<close> to every reader.
\<close>

theorem home_card_opens_post:
  assumes "distinct (map slug rows)" and "p \<in> set (home_posts (HomePage user rows))"
  shows "card_href (PostCard p) = ''/post/'' @ slug p \<and>
         (\<exists>v. PostPage viewer rows (slug p) = PostView v \<and> pv_post v = p)"
proof -
  have p: "p \<in> set rows \<and> published p" using assms(2) by (simp add: HomePage_def)
  then have "filter (\<lambda>q. slug q = slug p) rows = [p]" using assms(1) by (simp add: filter_distinct_key)
  with p show ?thesis by (simp add: PostPage_def PostCard_def single_row_one)
qed

theorem home_card_opens_post_witness:
  "distinct (map slug [row_pub, row_draft]) \<and> row_pub \<in> set (home_posts (HomePage None [row_pub, row_draft])) \<and>
   card_href (PostCard row_pub) = ''/post/hello'' \<and>
   (\<exists>v. PostPage None [row_pub, row_draft] ''hello'' = PostView v \<and> pv_post v = row_pub)"
  using home_card_opens_post [of "[row_pub, row_draft]" row_pub None None]
  by (simp add: HomePage_def newest_first_def row_pub_def row_draft_def)

end
