(* ===== verification/Auth_Form.thy ===== *)
theory Auth_Form
  imports Post_Save
begin

text \<open>
  The sign-in and sign-up form of \<open>src/components/auth/auth-form.tsx\<close> and the auth
  page \<open>src/app/auth/page.tsx\<close>. The form's state is the three \<open>useState\<close> values
  \<open>isLoading\<close>, \<open>showEmailSent\<close> and \<open>userEmail\<close>; a handler returns the new
  state, the database (the form's own \<open>ensureUserProfile\<close> may insert a profile) and
  the toasts and navigations it issues, in order. The hosted auth service is not part of
  the repository: the answer of \<open>signUp\<close>, \<open>signInWithPassword\<close> and \<open>resend\<close>
  is a parameter, as is the failure of the profile insert. Unlike the post form's
  \<open>ensureUserProfile\<close> (theory \<open>Post_Save\<close>), this one logs a failed insert and
  returns normally.
\<close>

record auth_form =
  isLoading :: bool
  showEmailSent :: bool
  userEmail :: string

definition auth_form_init :: auth_form where
  "auth_form_init = \<lparr>isLoading = False, showEmailSent = False, userEmail = []\<rparr>"

text \<open>What a handler shows or does outside its state: a toast (title, description) or a
  \<open>router.push\<close>.\<close>

datatype auth_msg = AuthToast string string | AuthPush string

text \<open>The answer of \<open>supabase.auth.signUp\<close>: an error, or the user (if any) and
  whether a session came with it.\<close>

datatype signup_response = SignUpError string | SignUpData "auth_user option" bool

datatype signin_response = SignInError string | SignInData "auth_user option"

definition auth_ensureUserProfile :: "db \<Rightarrow> auth_user \<Rightarrow> string \<Rightarrow> string option \<Rightarrow> db" where
  "auth_ensureUserProfile d u now insert_fault =
     (if list_ex (\<lambda>p. profile_id p = user_uid u) (profiles d) then d
      else (case insert_fault of
              Some _ \<Rightarrow> d
            | None \<Rightarrow> d\<lparr>profiles := profiles d @ [new_profile u now]\<rparr>))"

definition handleSignUp ::
  "auth_form \<Rightarrow> db \<Rightarrow> string \<Rightarrow> signup_response \<Rightarrow> string \<Rightarrow> string option \<Rightarrow>
   auth_form \<times> db \<times> auth_msg list" where
  "handleSignUp st d formEmail resp now insert_fault =
     (let st0 = st\<lparr>isLoading := True\<rparr> in
      case resp of
        SignUpError m \<Rightarrow> (st0\<lparr>isLoading := False\<rparr>, d, [AuthToast ''Error'' m])
      | SignUpData (Some u) False \<Rightarrow>
          (st0\<lparr>userEmail := formEmail, showEmailSent := True, isLoading := False\<rparr>, d,
           [AuthToast ''Check your email''
              ''We've sent you a confirmation link to complete your registration.''])
      | SignUpData (Some u) True \<Rightarrow>
          (st0\<lparr>isLoading := False\<rparr>, auth_ensureUserProfile d u now insert_fault,
           [AuthToast ''Welcome!'' ''Your account has been created successfully.'', AuthPush ''/''])
      | SignUpData None _ \<Rightarrow> (st0\<lparr>isLoading := False\<rparr>, d, []))"

definition handleSignIn ::
  "auth_form \<Rightarrow> db \<Rightarrow> signin_response \<Rightarrow> string \<Rightarrow> string option \<Rightarrow> auth_form \<times> db \<times> auth_msg list" where
  "handleSignIn st d resp now insert_fault =
     (let st0 = st\<lparr>isLoading := True\<rparr> in
      case resp of
        SignInError m \<Rightarrow> (st0\<lparr>isLoading := False\<rparr>, d, [AuthToast ''Error'' m])
      | SignInData (Some u) \<Rightarrow>
          (st0\<lparr>isLoading := False\<rparr>, auth_ensureUserProfile d u now insert_fault,
           [AuthToast ''Welcome back!'' ''You have been signed in successfully.'', AuthPush ''/''])
      | SignInData None \<Rightarrow> (st0\<lparr>isLoading := False\<rparr>, d, []))"

definition handleResendConfirmation ::
  "auth_form \<Rightarrow> string option \<Rightarrow> auth_form \<times> auth_msg list" where
  "handleResendConfirmation st resend_error =
     (if userEmail st = [] then (st, [])
      else (case resend_error of
              Some m \<Rightarrow> (st\<lparr>isLoading := False\<rparr>, [AuthToast ''Error'' m])
            | None \<Rightarrow> (st\<lparr>isLoading := False\<rparr>,
                       [AuthToast ''Email sent'' ''We've sent you another confirmation email.''])))"

text \<open>The \<open>Back to sign up\<close> button.\<close>

definition backToSignUp :: "auth_form \<Rightarrow> auth_form" where
  "backToSignUp st = st\<lparr>showEmailSent := False, userEmail := []\<rparr>"

text \<open>What the form renders: the confirmation screen (the address, whether the resend
  button is enabled, its label) or the two tabs (whether the submit buttons are enabled,
  and their labels).\<close>

datatype auth_view =
    EmailSentView string bool string
  | AuthTabs bool string string

definition AuthFormView :: "auth_form \<Rightarrow> auth_view" where
  "AuthFormView st =
     (if showEmailSent st then
        EmailSentView (userEmail st) (\<not> isLoading st)
          (if isLoading st then ''Sending...'' else ''Resend confirmation email'')
      else AuthTabs (\<not> isLoading st)
          (if isLoading st then ''Signing in...'' else ''Sign In'')
          (if isLoading st then ''Creating account...'' else ''Sign Up''))"

text \<open>The browser's checks before the forms submit: every field is \<open>required\<close>, and the
  sign-up password has \<open>minLength={6}\<close>. The format check of \<open>type="email"\<close> is the
  browser's and is not modelled.\<close>

definition signin_submittable :: "string \<Rightarrow> string \<Rightarrow> bool" where
  "signin_submittable formEmail password \<longleftrightarrow> formEmail \<noteq> [] \<and> password \<noteq> []"

definition signup_submittable :: "string \<Rightarrow> string \<Rightarrow> string \<Rightarrow> bool" where
  "signup_submittable fullName formEmail password \<longleftrightarrow>
     fullName \<noteq> [] \<and> formEmail \<noteq> [] \<and> 6 \<le> length password"

datatype auth_page = AuthRedirectHome | AuthFormPage

definition AuthPage :: "user_id option \<Rightarrow> auth_page" where
  "AuthPage user = (if user \<noteq> None then AuthRedirectHome else AuthFormPage)"

lemmas auth_defs [blog_simps] =
  auth_ensureUserProfile_def handleSignUp_def handleSignIn_def handleResendConfirmation_def
  backToSignUp_def AuthPage_def auth_form_init_def AuthFormView_def signin_submittable_def
  signup_submittable_def

section \<open>Lemmas\<close>

lemma auth_ensureUserProfile_posts [simp]:
  "posts (auth_ensureUserProfile d u now f) = posts d"
  by (simp add: auth_ensureUserProfile_def split: option.split)

lemma auth_ensureUserProfile_profiles:
  "set (profiles d) \<subseteq> set (profiles (auth_ensureUserProfile d u now f))"
  by (auto simp: auth_ensureUserProfile_def split: option.split)

lemma handleSignUp_db:
  "fst (snd (handleSignUp st d formEmail resp now f)) = d \<or>
   (\<exists>u. fst (snd (handleSignUp st d formEmail resp now f)) = auth_ensureUserProfile d u now f)"
  by (auto simp: handleSignUp_def Let_def split: signup_response.split option.split bool.split)

lemma handleSignIn_db:
  "fst (snd (handleSignIn st d resp now f)) = d \<or>
   (\<exists>u. fst (snd (handleSignIn st d resp now f)) = auth_ensureUserProfile d u now f)"
  by (auto simp: handleSignIn_def Let_def split: signin_response.split option.split)

text \<open>Every handler that sets \<open>isLoading\<close> clears it again on every branch, so the
  buttons are enabled after each answer of the auth service.\<close>

lemma auth_handlers_release_loading:
  "\<not> isLoading (fst (handleSignUp st d formEmail resp now f)) \<and>
   \<not> isLoading (fst (handleSignIn st d sresp now f)) \<and>
   (userEmail st \<noteq> [] \<longrightarrow> \<not> isLoading (fst (handleResendConfirmation st rerr)))"
  by (auto simp: handleSignUp_def handleSignIn_def handleResendConfirmation_def Let_def
      split: signup_response.split signin_response.split option.split bool.split)

end
