(* ===== verification/Preview.thy ===== *)
theory Preview
  imports Post_Save Post_Views
begin

text \<open>
  The preview hand-off: \<open>handlePreview\<close> of \<open>src/components/blog/post-form.tsx\<close>
  writes the form's fields and image state under the key \<open>post-preview\<close> of
  \<open>localStorage\<close>, and the page \<open>src/app/preview/page.tsx\<close> reads them back and
  renders the article. The storage slot is an option of the stored record
  (\<open>JSON.stringify\<close> and \<open>JSON.parse\<close> of a record of strings, booleans and a
  string array give back the record). What the page renders is a record of the
  decisions it takes, as for the post page in \<open>Post_Views\<close>.
\<close>

record preview_data =
  pd_title :: string
  pd_content :: string
  pd_excerpt :: string
  pd_featured_image :: url
  pd_images :: "url list"
  pd_published :: bool

definition handlePreview :: "form_fields \<Rightarrow> image_state \<Rightarrow> preview_data option" where
  "handlePreview ff ist =
     Some \<lparr>pd_title = form_title ff, pd_content = form_content ff, pd_excerpt = form_excerpt ff,
           pd_featured_image = featuredImage ist, pd_images = form_images ist,
           pd_published = form_published ff\<rparr>"

record preview_view =
  prv_title :: string
  prv_content :: string
  prv_excerpt :: "string option"
  prv_featured :: "url option"
  prv_gallery :: "url list"
  prv_draft :: bool

datatype preview_page = NoPreview | PreviewShown preview_view

definition PreviewPage :: "preview_data option \<Rightarrow> preview_page" where
  "PreviewPage stored =
     (case stored of
        None \<Rightarrow> NoPreview
      | Some pd \<Rightarrow> PreviewShown
          \<lparr>prv_title = pd_title pd, prv_content = pd_content pd,
           prv_excerpt = (if pd_excerpt pd = [] then None else Some (pd_excerpt pd)),
           prv_featured = (if pd_featured_image pd = [] then None else Some (pd_featured_image pd)),
           prv_gallery = (if 1 < length (pd_images pd) then drop 1 (pd_images pd) else []),
           prv_draft = (\<not> pd_published pd)\<rparr>)"

text \<open>A preview scenario: the editor state of two uploads and the form of \<open>Post_Save\<close>.\<close>

definition preview_ist :: image_state where
  "preview_ist = \<lparr>form_images = [''a'', ''b''], featuredImage = ''a''\<rparr>"

lemmas preview_defs [blog_simps] = handlePreview_def PreviewPage_def

section \<open>Lemmas\<close>

lemma truthy_nonempty_or_null [simp]: "truthy (nonempty_or_null s) = (if s = [] then None else Some s)"
  by (simp add: truthy_def nonempty_or_null_def)

lemma gallery_apply_postData:
  "gallery (apply_postData ff ist sl uid now q) =
   (if 1 < length (form_images ist) then drop 1 (form_images ist) else [])"
  by (auto simp: gallery_def apply_postData_def)

section \<open>Properties of the preview\<close>

text \<open>
  C39. The preview shows what the post page will show once the form is saved: for the row
  \<open>postData\<close> writes from the same fields and image state, whenever the post page
  renders that row, the preview page renders the same title, content, excerpt, featured
  image, gallery and draft badge.
\<close>

theorem preview_matches_post_page:
  assumes "PostPage user rows sl = PostView v"
    and "pv_post v = apply_postData ff ist sl' uid now q"
  shows "PreviewPage (handlePreview ff ist) = PreviewShown
           \<lparr>prv_title = title (pv_post v), prv_content = content (pv_post v),
            prv_excerpt = truthy (excerpt (pv_post v)), prv_featured = pv_featured v,
            prv_gallery = pv_gallery v, prv_draft = pv_draft_badge v\<rparr>"
proof -
  have v: "pv_gallery v = gallery (pv_post v) \<and> pv_featured v = truthy (featured_image (pv_post v))"
    using PostPage_PostView [OF assms(1)] by simp
  have "pv_draft_badge v = (\<not> published (pv_post v))"
    using assms(1) by (auto simp: PostPage_def split: option.splits if_splits)
  with v assms(2) show ?thesis
    by (simp add: PreviewPage_def handlePreview_def gallery_apply_postData) (simp add: apply_postData_def)
qed

theorem preview_matches_post_page_witness:
  "\<exists>v. PostPage (Some ''u1'') [apply_postData form_a preview_ist ''A'' ''u1'' ''t1'' (blank_post ''p3'' ''t1'')]
        ''A'' = PostView v \<and>
      PreviewPage (handlePreview form_a preview_ist) = PreviewShown
        \<lparr>prv_title = title (pv_post v), prv_content = content (pv_post v),
         prv_excerpt = truthy (excerpt (pv_post v)), prv_featured = pv_featured v,
         prv_gallery = pv_gallery v, prv_draft = pv_draft_badge v\<rparr>"
proof -
  let ?w = "apply_postData form_a preview_ist ''A'' ''u1'' ''t1'' (blank_post ''p3'' ''t1'')"
  have "\<exists>v. PostPage (Some ''u1'') [?w] ''A'' = PostView v \<and> pv_post v = ?w"
    by (simp add: PostPage_def single_row_def apply_postData_def form_a_def)
  then obtain v where pg: "PostPage (Some ''u1'') [?w] ''A'' = PostView v" and w: "pv_post v = ?w"
    by blast
  from pg preview_matches_post_page [OF pg w] show ?thesis by blast
qed

end
