(* ===== verification/App_Steps.thy ===== *)
theory App_Steps
  imports Auth_Form Upload_Batch Preview
begin

text \<open>
  The application as a state machine over the database and the bucket: a state is
  reachable from the empty database and bucket by any interleaving of the handlers that
  change them, with any inputs and any answers of the remote services: sign-in and
  sign-up (\<open>Auth_Form\<close>), a post submission (\<open>Post_Save\<close>, which may run the
  cleanup), an upload batch and an image removal in the editor (\<open>Upload_Batch\<close>). The
  invariant \<open>authors_have_profiles\<close> is the foreign key of \<open>posts.author_id\<close>:
  every post's author has a profile row. The invariant \<open>post_row_wf\<close> is the shape of
  a row's nullable columns.
\<close>

definition authors_have_profiles :: "db \<Rightarrow> bool" where
  "authors_have_profiles d \<longleftrightarrow>
     (\<forall>p \<in> set (posts d). list_ex (\<lambda>pr. profile_id pr = author_id p) (profiles d))"

text \<open>The nullable columns of \<open>Post\<close> in \<open>src/lib/types.ts\<close> as the form writes
  them: an empty excerpt, featured image or image list is stored as \<open>null\<close>, never as an
  empty string or array.\<close>

definition post_row_wf :: "post \<Rightarrow> bool" where
  "post_row_wf p \<longleftrightarrow> excerpt p \<noteq> Some [] \<and> featured_image p \<noteq> Some [] \<and> images p \<noteq> Some []"

inductive app_reach :: "db \<times> bucket \<Rightarrow> bool" where
  init: "app_reach (\<lparr>posts = [], profiles = []\<rparr>, \<lparr>objects = []\<rparr>)"
| sign_in: "app_reach (d, b) \<Longrightarrow> app_reach (fst (snd (handleSignIn st d resp now f)), b)"
| sign_up: "app_reach (d, b) \<Longrightarrow> app_reach (fst (snd (handleSignUp st d em resp now f)), b)"
| submit: "app_reach s \<Longrightarrow> app_reach (fst (handleSubmit base env user post isEditing ff ist s))"
| upload: "app_reach (d, b) \<Longrightarrow>
    app_reach (d, fst (fst (handleFileUpload base maxImages snap user files order (b, st))))"
| remove: "app_reach (d, b) \<Longrightarrow>
    app_reach (d, fst (uploader_handleImageRemove b snap user fault imageUrl st))"

section \<open>Lemmas\<close>

lemma authors_have_profiles_mono:
  assumes "authors_have_profiles d" and "posts d' = posts d" and "set (profiles d) \<subseteq> set (profiles d')"
  shows "authors_have_profiles d'"
  using assms by (fastforce simp: authors_have_profiles_def list_ex_iff)

lemma auth_ensureUserProfile_inv:
  "authors_have_profiles d \<Longrightarrow> authors_have_profiles (auth_ensureUserProfile d u now f)"
  by (metis authors_have_profiles_mono auth_ensureUserProfile_posts auth_ensureUserProfile_profiles)

lemma ensureUserProfile_Inr:
  "ensureUserProfile d u now f = Inr d1 \<Longrightarrow>
   posts d1 = posts d \<and> set (profiles d) \<subseteq> set (profiles d1) \<and>
   list_ex (\<lambda>pr. profile_id pr = user_uid u) (profiles d1)"
  by (auto simp: ensureUserProfile_def new_profile_def list_ex_iff split: if_splits option.splits)

lemma write_post_rows:
  "profiles (write_post env u post isEditing ff ist d1) = profiles d1 \<and>
   (\<forall>p \<in> set (posts (write_post env u post isEditing ff ist d1)).
      p \<in> set (posts d1) \<or> author_id p = user_uid u)"
  by (auto simp: write_post_def update_post_def insert_post_def apply_postData_def Let_def
      split: prod.split bool.split option.split)

lemma handleSubmit_db_cases:
  "fst (fst (handleSubmit base env user post isEditing ff ist (d, b))) = d \<or>
   (\<exists>u d1. user = Some u \<and> ensureUserProfile d u (env_clock env) (profile_insert_fault env) = Inr d1 \<and>
     (fst (fst (handleSubmit base env user post isEditing ff ist (d, b))) = d1 \<or>
      fst (fst (handleSubmit base env user post isEditing ff ist (d, b))) =
        write_post env u post isEditing ff ist d1))"
  by (auto simp: handleSubmit_def Let_def split: option.splits sum.splits)

lemma ensure_write_inv:
  assumes "authors_have_profiles d"
    and e: "ensureUserProfile d u (env_clock env) (profile_insert_fault env) = Inr d1"
  shows "authors_have_profiles d1 \<and> authors_have_profiles (write_post env u post isEditing ff ist d1)"
proof
  show inv1: "authors_have_profiles d1"
    using ensureUserProfile_Inr [OF e] assms(1) by (blast intro: authors_have_profiles_mono)
  have own: "list_ex (\<lambda>pr. profile_id pr = user_uid u) (profiles d1)"
    using ensureUserProfile_Inr [OF e] by blast
  show "authors_have_profiles (write_post env u post isEditing ff ist d1)"
    using write_post_rows [of env u post isEditing ff ist d1] inv1 own
    by (auto simp: authors_have_profiles_def)
qed

lemma handleSubmit_inv:
  assumes "authors_have_profiles d"
  shows "authors_have_profiles (fst (fst (handleSubmit base env user post isEditing ff ist (d, b))))"
  using handleSubmit_db_cases [of base env user post isEditing ff ist d b] assms
  by (auto dest: ensure_write_inv [OF assms])

lemma sign_in_inv:
  "authors_have_profiles d \<Longrightarrow> authors_have_profiles (fst (snd (handleSignIn st d resp now f)))"
  using handleSignIn_db [of st d resp now f] by (auto intro: auth_ensureUserProfile_inv)

lemma sign_up_inv:
  "authors_have_profiles d \<Longrightarrow> authors_have_profiles (fst (snd (handleSignUp st d em resp now f)))"
  using handleSignUp_db [of st d em resp now f] by (auto intro: auth_ensureUserProfile_inv)

lemma handleSubmit_wf:
  "bucket_wf b \<Longrightarrow> bucket_wf (snd (fst (handleSubmit base env user post isEditing ff ist (d, b))))"
  by (cases rule: handleSubmit_cases [of base env user post isEditing ff ist d b]) (simp_all add: cleanup_wf)

lemma apply_postData_wf: "post_row_wf (apply_postData ff ist sl uid now q)"
  by (simp add: post_row_wf_def apply_postData_def nonempty_or_null_def)

lemma write_post_wf:
  "list_all post_row_wf (posts d1) \<Longrightarrow> list_all post_row_wf (posts (write_post env u post isEditing ff ist d1))"
  by (auto simp: write_post_def update_post_def insert_post_def Let_def list_all_iff apply_postData_wf
      split: prod.split bool.split option.split)

lemma handleSubmit_rows_wf:
  assumes "list_all post_row_wf (posts d)"
  shows "list_all post_row_wf (posts (fst (fst (handleSubmit base env user post isEditing ff ist (d, b)))))"
  using handleSubmit_db_cases [of base env user post isEditing ff ist d b] assms
  by (auto dest!: ensureUserProfile_Inr intro!: write_post_wf)

lemma ensureUserProfile_distinct:
  "distinct (map profile_id (profiles d)) \<Longrightarrow> ensureUserProfile d u now f = Inr d1 \<Longrightarrow>
   distinct (map profile_id (profiles d1))"
  by (force simp: ensureUserProfile_def new_profile_def list_ex_iff split: if_splits option.splits)

lemma auth_ensureUserProfile_distinct:
  "distinct (map profile_id (profiles d)) \<Longrightarrow> distinct (map profile_id (profiles (auth_ensureUserProfile d u now f)))"
  by (force simp: auth_ensureUserProfile_def new_profile_def list_ex_iff split: option.split)

lemma handleSubmit_distinct:
  assumes "distinct (map profile_id (profiles d))"
  shows "distinct (map profile_id (profiles (fst (fst (handleSubmit base env user post isEditing ff ist (d, b))))))"
  using handleSubmit_db_cases [of base env user post isEditing ff ist d b] assms write_post_rows
  by (auto dest: ensureUserProfile_distinct [OF assms])

text \<open>The invariants of the reachable states, by rule induction over \<^const>\<open>app_reach\<close>:
  the foreign key of \<open>posts.author_id\<close>, the primary key of \<open>profiles.id\<close> (both
  \<open>ensureUserProfile\<close>s insert only a missing profile), and the bucket's distinctness.\<close>

lemma app_reach_inv:
  "app_reach s \<Longrightarrow>
   authors_have_profiles (fst s) \<and> bucket_wf (snd s) \<and> distinct (map profile_id (profiles (fst s)))"
proof (induction rule: app_reach.induct)
  case init
  then show ?case by (simp add: authors_have_profiles_def bucket_wf_def)
next
  case (sign_in d b st resp now f)
  then show ?case using handleSignIn_db [of st d resp now f]
    by (auto simp: sign_in_inv auth_ensureUserProfile_distinct)
next
  case (sign_up d b st em resp now f)
  then show ?case using handleSignUp_db [of st d em resp now f]
    by (auto simp: sign_up_inv auth_ensureUserProfile_distinct)
next
  case (submit s base env user post isEditing ff ist)
  obtain d b where s: "s = (d, b)" by fastforce
  from submit.IH show ?case unfolding s by (simp add: handleSubmit_inv handleSubmit_wf handleSubmit_distinct)
next
  case (upload d b base maxImages snap user files order st)
  then show ?case by (simp add: handleFileUpload_wf)
next
  case (remove d b snap user fault imageUrl st)
  then show ?case by (simp add: uploader_remove_wf)
qed

section \<open>Properties of the application\<close>

text \<open>
  C40. In every state reachable from the empty database by any interleaving of sign-ins,
  sign-ups, post submissions, upload batches and image removals, with any answers of the
  remote services, every post's author has a profile row (the submission writes a post
  only after \<open>ensureUserProfile\<close> has found or created the author's profile, the
  form writes \<open>author_id = user.id\<close> on update as well, and no handler deletes a
  profile), and no path is stored twice in the bucket (uploads never overwrite, and the
  cleanup and the editor only remove).
\<close>

theorem reachable_state_invariant:
  "app_reach s \<Longrightarrow> authors_have_profiles (fst s) \<and> bucket_wf (snd s)"
  by (simp add: app_reach_inv)

theorem reachable_state_invariant_witness:
  "app_reach (fst (handleSubmit ''https://x'' env_ok (Some user_u1) None False form_a (init_image_state None)
      (fst (snd (handleSignIn auth_form_init \<lparr>posts = [], profiles = []\<rparr> (SignInData (Some user_u1)) ''t0'' None)),
       \<lparr>objects = []\<rparr>))) \<and>
   authors_have_profiles (fst (fst (handleSubmit ''https://x'' env_ok (Some user_u1) None False form_a (init_image_state None)
      (fst (snd (handleSignIn auth_form_init \<lparr>posts = [], profiles = []\<rparr> (SignInData (Some user_u1)) ''t0'' None)),
       \<lparr>objects = []\<rparr>)))) \<and>
   bucket_wf (snd (fst (handleSubmit ''https://x'' env_ok (Some user_u1) None False form_a (init_image_state None)
      (fst (snd (handleSignIn auth_form_init \<lparr>posts = [], profiles = []\<rparr> (SignInData (Some user_u1)) ''t0'' None)),
       \<lparr>objects = []\<rparr>))))"
proof -
  have r: "app_reach (fst (handleSubmit ''https://x'' env_ok (Some user_u1) None False form_a (init_image_state None)
      (fst (snd (handleSignIn auth_form_init \<lparr>posts = [], profiles = []\<rparr> (SignInData (Some user_u1)) ''t0'' None)),
       \<lparr>objects = []\<rparr>)))"
    by (rule app_reach.submit, rule app_reach.sign_in, rule app_reach.init)
  from r reachable_state_invariant [OF r] show ?thesis by blast
qed

text \<open>
  C30. In every reachable state every post row has the shape of \<open>Post\<close> the form writes:
  \<open>excerpt\<close>, \<open>featured_image\<close> and \<open>images\<close> are \<open>null\<close> or non-empty
  (\<open>excerpt || null\<close>, \<open>featuredImage || null\<close>,
  \<open>images.length > 0 ? images : null\<close>, on insert and on update alike).
\<close>

theorem reachable_rows_typed:
  "app_reach s \<Longrightarrow> list_all post_row_wf (posts (fst s))"
proof (induction rule: app_reach.induct)
  case (submit s base env user post isEditing ff ist)
  obtain d b where s: "s = (d, b)" by fastforce
  from submit.IH show ?case unfolding s by (simp add: handleSubmit_rows_wf)
next
  case (sign_in d b st resp now f)
  then show ?case using handleSignIn_db [of st d resp now f] by auto
next
  case (sign_up d b st em resp now f)
  then show ?case using handleSignUp_db [of st d em resp now f] by auto
qed simp_all

theorem reachable_rows_typed_witness:
  "app_reach (fst (handleSubmit ''https://x'' env_ok (Some user_u1) None False form_a (init_image_state None)
      (\<lparr>posts = [], profiles = []\<rparr>, \<lparr>objects = []\<rparr>))) \<and>
   list_all post_row_wf (posts (fst (fst (handleSubmit ''https://x'' env_ok (Some user_u1) None False form_a
      (init_image_state None) (\<lparr>posts = [], profiles = []\<rparr>, \<lparr>objects = []\<rparr>)))))"
proof -
  have r: "app_reach (fst (handleSubmit ''https://x'' env_ok (Some user_u1) None False form_a (init_image_state None)
      (\<lparr>posts = [], profiles = []\<rparr>, \<lparr>objects = []\<rparr>)))"
    by (rule app_reach.submit, rule app_reach.init)
  from r reachable_rows_typed [OF r] show ?thesis by blast
qed

end
