(* ===== verification/Cleanup_Rounds.thy ===== *)
theory Cleanup_Rounds
  imports Image_Cleanup
begin

text \<open>
  Repeated cleanups. Every successful edit of a post calls \<open>cleanupUnusedImages\<close>
  once (theory \<open>Post_Save\<close>), so over a sequence of saves with the same reachable set
  the folder is cleaned again and again. \<open>cleanup_until_clean\<close> runs the cleanup
  until a call finds nothing unused on its listing page, counting the calls that removed
  something. Its termination is not by structure: each call that removes files shrinks
  the folder, which is the measure. The lemmas show when the rounds clean the whole
  folder and when an orphan outlives every round: the listing page holds the first
  \<open>list_limit\<close> names in sorted order, so 100 used names sorting before an orphan hide it
  from every call.
\<close>

function cleanup_until_clean :: "string \<Rightarrow> user_id \<Rightarrow> url list \<Rightarrow> bucket \<Rightarrow> bucket \<times> nat" where
  "cleanup_until_clean base uid used b =
     (case cleanupUnusedImages base b uid used None None of
        (b', CleanedUp k) \<Rightarrow> (let (b'', n) = cleanup_until_clean base uid used b' in (b'', Suc n))
      | (b', _) \<Rightarrow> (b', 0))"
  by pat_completeness auto

termination
  by (relation "measure (\<lambda>(base, uid, used, b). length (folder_children b uid))")
     (auto intro: cleanup_CleanedUp_shrinks [OF sym])

text \<open>A folder with 100 used images whose names sort before an orphan \<open>b\<close>.\<close>

definition hidden_used :: "url list" where
  "hidden_used = map (\<lambda>i. file_url ''https://x'' ''u1'' (replicate i CHR ''a'')) [1..<101]"

definition hidden_orphan_bucket :: bucket where
  "hidden_orphan_bucket = \<lparr>objects = map (\<lambda>i. ''u1/'' @ replicate i CHR ''a'') [1..<101] @ [''u1/b'']\<rparr>"

section \<open>Lemmas\<close>

declare cleanup_until_clean.simps [simp del]

lemma cleanup_not_CleanedUp:
  assumes "cleanupUnusedImages base b uid used None None = (b', out)" and "\<forall>k. out \<noteq> CleanedUp k"
  shows "b' = b \<and> out = NothingUnused \<and> unused_files base uid used (storage_list b uid) = []"
  using assms by (auto simp: cleanupUnusedImages_def Let_def split: if_splits)

lemma cleanup_keeps_used_children:
  assumes "m \<in> set (folder_children b uid)" and "file_url base uid m \<in> set used"
  shows "m \<in> set (folder_children (fst (cleanupUnusedImages base b uid used lf rf)) uid)"
  using assms
  by (auto simp: folder_children_def set_map_filter_child_name cleanup_objects orphan_paths_def)

lemma cleanup_children_subset:
  "set (folder_children (fst (cleanupUnusedImages base b uid used lf rf)) uid) \<subseteq> set (folder_children b uid)"
  by (auto simp: folder_children_def set_map_filter_child_name cleanup_objects)

lemma cleanup_until_clean_step:
  "cleanupUnusedImages base b uid used None None = (b', CleanedUp k) \<Longrightarrow>
   cleanup_until_clean base uid used b =
     (fst (cleanup_until_clean base uid used b'), Suc (snd (cleanup_until_clean base uid used b')))"
  by (subst cleanup_until_clean.simps) (simp split: prod.split)

lemma cleanup_until_clean_stop:
  "cleanupUnusedImages base b uid used None None = (b', out) \<Longrightarrow> \<forall>k. out \<noteq> CleanedUp k \<Longrightarrow>
   cleanup_until_clean base uid used b = (b, 0) \<and> out = NothingUnused"
  using cleanup_not_CleanedUp [of base b uid used b' out]
  by (subst cleanup_until_clean.simps) (auto split: cleanup_outcome.split)

text \<open>What every run of rounds keeps: the folder only shrinks, used files stay, the bucket
  stays well formed, and the last call finds nothing unused.\<close>

lemma cleanup_until_clean_props:
  "snd (cleanup_until_clean base uid used b) \<le> length (folder_children b uid) \<and>
   cleanupUnusedImages base (fst (cleanup_until_clean base uid used b)) uid used None None =
     (fst (cleanup_until_clean base uid used b), NothingUnused) \<and>
   set (folder_children (fst (cleanup_until_clean base uid used b)) uid) \<subseteq> set (folder_children b uid) \<and>
   {m \<in> set (folder_children b uid). file_url base uid m \<in> set used} \<subseteq>
     set (folder_children (fst (cleanup_until_clean base uid used b)) uid) \<and>
   (bucket_wf b \<longrightarrow> bucket_wf (fst (cleanup_until_clean base uid used b)))"
proof (induction base uid used b rule: cleanup_until_clean.induct)
  case (1 base uid used b)
  obtain b' out where c: "cleanupUnusedImages base b uid used None None = (b', out)" by fastforce
  show ?case
  proof (cases "\<exists>k. out = CleanedUp k")
    case True
    then obtain k where k: "out = CleanedUp k" by blast
    note IH = "1.IH" [OF c [symmetric, unfolded k] refl]
    have lt: "length (folder_children b' uid) < length (folder_children b uid)"
      using c k by (simp add: cleanup_CleanedUp_shrinks)
    have sub: "set (folder_children b' uid) \<subseteq> set (folder_children b uid)"
      using cleanup_children_subset [of base b uid used None None] c by simp
    have keep: "{m \<in> set (folder_children b uid). file_url base uid m \<in> set used} \<subseteq> set (folder_children b' uid)"
      using cleanup_keeps_used_children [of _ b uid base used None None] c by auto
    have wf: "bucket_wf b \<Longrightarrow> bucket_wf b'"
      using cleanup_wf [of b base uid used None None] c by simp
    show ?thesis
      unfolding cleanup_until_clean_step [OF c [unfolded k]] using IH lt sub keep wf by auto
  next
    case False
    with cleanup_until_clean_stop [OF c] cleanup_not_CleanedUp [OF c] c show ?thesis by simp
  qed
qed

text \<open>A listing page with nothing unused on it shows the whole story when fewer than a
  page of the folder's files are used.\<close>

lemma distinct_map_filter_child_name:
  "distinct xs \<Longrightarrow> distinct (List.map_filter (child_name uid) xs)"
proof (induction xs)
  case (Cons x xs)
  show ?case
  proof (cases "child_name uid x")
    case (Some n)
    then have x: "x = uid @ ''/'' @ n" and "CHR ''/'' \<notin> set n" by (simp_all add: child_name_Some)
    with Cons.prems have "n \<notin> set (List.map_filter (child_name uid) xs)"
      by (auto simp: set_map_filter_child_name)
    with Some Cons show ?thesis by (simp add: List.map_filter_simps)
  qed (use Cons in \<open>simp add: List.map_filter_simps\<close>)
qed (simp add: List.map_filter_simps)

lemma distinct_folder_children: "bucket_wf b \<Longrightarrow> distinct (folder_children b uid)"
  by (simp add: bucket_wf_def folder_children_def distinct_map_filter_child_name)

lemma clean_page:
  assumes wf: "bucket_wf b"
    and few: "card {m \<in> set (folder_children b uid). file_url base uid m \<in> set used} < list_limit"
    and none: "unused_files base uid used (storage_list b uid) = []"
  shows "\<forall>n \<in> set (folder_children b uid). file_url base uid n \<in> set used"
proof (cases "length (folder_children b uid) \<le> list_limit")
  case True
  with none show ?thesis by (auto simp: unused_files_def filter_empty_conv storage_list_all)
next
  case False
  let ?P = "storage_list b uid"
  have P: "?P = take list_limit (sort (folder_children b uid))"
    by (simp add: storage_list_def folder_children_def)
  have "distinct ?P" unfolding P using distinct_folder_children [OF wf] by simp
  moreover have "length ?P = list_limit" unfolding P using False by simp
  ultimately have cardP: "card (set ?P) = list_limit" by (simp add: distinct_card)
  have "set ?P \<subseteq> {m \<in> set (folder_children b uid). file_url base uid m \<in> set used}"
    using none storage_list_subset by (auto simp: unused_files_def filter_empty_conv)
  then have "card (set ?P) \<le> card {m \<in> set (folder_children b uid). file_url base uid m \<in> set used}"
    by (simp add: card_mono)
  with cardP few show ?thesis by simp
qed

text \<open>A name is not on the listing page when a page of names sorts before it.\<close>

lemma hidden_by_smaller:
  assumes "list_limit \<le> card {m \<in> set xs. m < n}"
  shows "n \<notin> set (take list_limit (sort xs))"
proof
  assume "n \<in> set (take list_limit (sort xs))"
  then obtain i where i: "i < list_limit" "i < length (sort xs)" and ni: "sort xs ! i = n"
    by (auto simp: in_set_conv_nth)
  have "{m \<in> set xs. m < n} \<subseteq> set (take i (sort xs))"
  proof
    fix m
    assume "m \<in> {m \<in> set xs. m < n}"
    then have m: "m \<in> set (sort xs)" and lt: "m < n" by auto
    from m obtain j where j: "j < length (sort xs)" "sort xs ! j = m" by (metis in_set_conv_nth)
    have "j < i"
    proof (rule ccontr)
      assume "\<not> j < i"
      then have "sort xs ! i \<le> sort xs ! j" using j(1) by (simp add: sorted_nth_mono)
      with ni j(2) lt show False by simp
    qed
    with j show "m \<in> set (take i (sort xs))" by (auto simp: in_set_conv_nth)
  qed
  then have "card {m \<in> set xs. m < n} \<le> card (set (take i (sort xs)))" by (simp add: card_mono)
  also have "\<dots> \<le> i" using card_length [of "take i (sort xs)"] i(2) by simp
  finally show False using assms i(1) by simp
qed

lemma cleanup_keeps_hidden:
  assumes "n \<in> set (folder_children b uid)"
    and "list_limit \<le> card {m \<in> set (folder_children b uid). m < n \<and> file_url base uid m \<in> set used}"
  shows "n \<in> set (folder_children (fst (cleanupUnusedImages base b uid used lf rf)) uid)"
proof -
  have "card {m \<in> set (folder_children b uid). m < n \<and> file_url base uid m \<in> set used} \<le>
        card {m \<in> set (folder_children b uid). m < n}"
    by (rule card_mono) auto
  then have "list_limit \<le> card {m \<in> set (folder_children b uid). m < n}"
    using assms(2) by linarith
  then have "n \<notin> set (storage_list b uid)"
    using hidden_by_smaller by (simp add: storage_list_def folder_children_def)
  then have "uid @ ''/'' @ n \<notin> orphan_paths base b uid used" by (auto simp: orphan_paths_def)
  with assms(1) show ?thesis
    by (auto simp: folder_children_def set_map_filter_child_name cleanup_objects)
qed

section \<open>Properties of repeated cleanups\<close>

text \<open>
  C12. Repeated cleanups clean the whole folder (the idempotence of spec section 8, for
  a folder larger than a listing page): when the bucket is well formed and fewer than a
  page of the caller's files are used, running the cleanup until a call finds nothing
  unused leaves only files whose URL is used.
\<close>

theorem cleanup_rounds_clean:
  assumes "bucket_wf b"
    and "card {m \<in> set (folder_children b uid). file_url base uid m \<in> set used} < list_limit"
  shows "\<forall>n \<in> set (folder_children (fst (cleanup_until_clean base uid used b)) uid).
           file_url base uid n \<in> set used"
proof -
  let ?b' = "fst (cleanup_until_clean base uid used b)"
  have props: "cleanupUnusedImages base ?b' uid used None None = (?b', NothingUnused)"
      "set (folder_children ?b' uid) \<subseteq> set (folder_children b uid)"
      "bucket_wf ?b'"
    using cleanup_until_clean_props [of base uid used b] assms(1) by simp_all
  have none: "unused_files base uid used (storage_list ?b' uid) = []"
    using cleanup_not_CleanedUp [OF props(1)] by simp
  have "card {m \<in> set (folder_children ?b' uid). file_url base uid m \<in> set used} \<le>
        card {m \<in> set (folder_children b uid). file_url base uid m \<in> set used}"
    by (rule card_mono) (use props(2) in auto)
  with assms(2) have "card {m \<in> set (folder_children ?b' uid). file_url base uid m \<in> set used} < list_limit"
    by linarith
  from clean_page [OF props(3) this none] show ?thesis .
qed

theorem cleanup_rounds_clean_witness:
  "set (folder_children (fst (cleanup_until_clean ''https://x'' ''u1''
       [''https://x/storage/v1/object/public/blog-images/u1/a.png''] \<lparr>objects = [''u1/a.png'', ''u1/d.png'']\<rparr>)) ''u1'')
   \<subseteq> {n. file_url ''https://x'' ''u1'' n \<in> set [''https://x/storage/v1/object/public/blog-images/u1/a.png'']}"
proof -
  have wf: "bucket_wf \<lparr>objects = [''u1/a.png'', ''u1/d.png'']\<rparr>" by (simp add: bucket_wf_def)
  have "{m \<in> set (folder_children \<lparr>objects = [''u1/a.png'', ''u1/d.png'']\<rparr> ''u1'').
         file_url ''https://x'' ''u1'' m \<in> set [''https://x/storage/v1/object/public/blog-images/u1/a.png'']}
        = {''a.png''}"
    by (auto simp: folder_children_def blog_simps)
  then have "card {m \<in> set (folder_children \<lparr>objects = [''u1/a.png'', ''u1/d.png'']\<rparr> ''u1'').
         file_url ''https://x'' ''u1'' m \<in> set [''https://x/storage/v1/object/public/blog-images/u1/a.png'']}
        < list_limit"
    by (simp add: list_limit_def)
  from cleanup_rounds_clean [OF wf this] show ?thesis by blast
qed

text \<open>
  C13. An orphan can outlive every cleanup (a gap of the spec's idempotence promise): when
  a page of used files of the folder sort before an unused file \<open>n\<close>, no listing page
  ever shows \<open>n\<close>, so after any number of cleanups with that reachable set \<open>n\<close> is
  still stored. Upload names start with \<open>Date.now()\<close>, so the newest uploads sort
  last, and an image removed from a post of an author with 100 older images in use is
  never deleted.
\<close>

theorem cleanup_orphan_never_removed:
  assumes "n \<in> set (folder_children b uid)" and "file_url base uid n \<notin> set used"
    and "list_limit \<le> card {m \<in> set (folder_children b uid). m < n \<and> file_url base uid m \<in> set used}"
  shows "n \<in> set (folder_children (fst (cleanup_until_clean base uid used b)) uid)"
proof -
  have "n \<in> set (folder_children b uid) \<Longrightarrow>
        list_limit \<le> card {m \<in> set (folder_children b uid). m < n \<and> file_url base uid m \<in> set used} \<Longrightarrow>
        n \<in> set (folder_children (fst (cleanup_until_clean base uid used b)) uid)"
  proof (induction base uid used b rule: cleanup_until_clean.induct)
    case (1 base uid used b)
    obtain b' out where c: "cleanupUnusedImages base b uid used None None = (b', out)" by fastforce
    have n': "n \<in> set (folder_children b' uid)"
      using cleanup_keeps_hidden [OF "1.prems"] c by (metis fst_conv)
    show ?case
    proof (cases "\<exists>k. out = CleanedUp k")
      case True
      then obtain k where k: "out = CleanedUp k" by blast
      have "card {m \<in> set (folder_children b uid). m < n \<and> file_url base uid m \<in> set used} \<le>
            card {m \<in> set (folder_children b' uid). m < n \<and> file_url base uid m \<in> set used}"
        by (rule card_mono) (use cleanup_keeps_used_children [of _ b uid base used None None] c in auto)
      with "1.prems"(2) have "list_limit \<le>
          card {m \<in> set (folder_children b' uid). m < n \<and> file_url base uid m \<in> set used}" by linarith
      from "1.IH" [OF c [symmetric, unfolded k] refl n' this]
      show ?thesis unfolding cleanup_until_clean_step [OF c [unfolded k]] by simp
    next
      case False
      with cleanup_until_clean_stop [OF c] "1.prems"(1) show ?thesis by simp
    qed
  qed
  with assms(1,3) show ?thesis by blast
qed

theorem cleanup_orphan_never_removed_witness:
  "''b'' \<in> set (folder_children (fst (cleanup_until_clean ''https://x'' ''u1'' hidden_used hidden_orphan_bucket)) ''u1'')"
proof -
  have m1: "List.map_filter (child_name ''u1'') (map (\<lambda>i. ''u1/'' @ replicate i CHR ''a'') [1..<101]) =
      map (\<lambda>i. replicate i CHR ''a'') [1..<101]"
    by (rule map_filter_map_Some) (simp add: child_name_Some)
  have m2: "List.map_filter (child_name ''u1'') [''u1/b''] = [''b'']"
    by (simp add: List.map_filter_simps child_name_def starts_with_def)
  have fc: "folder_children hidden_orphan_bucket ''u1'' = map (\<lambda>i. replicate i CHR ''a'') [1..<101] @ [''b'']"
    unfolding folder_children_def hidden_orphan_bucket_def bucket.select_convs map_filter_append m1 m2 ..
  have inj: "inj_on (\<lambda>i. replicate i CHR ''a'') {1..<101}"
    by (rule inj_onI) (metis length_replicate)
  have lt: "replicate i CHR ''a'' < ''b''" if "1 \<le> i" for i
    using that by (cases i) simp_all
  have "(\<lambda>i. replicate i CHR ''a'') ` {1..<101} \<subseteq>
        {m \<in> set (folder_children hidden_orphan_bucket ''u1''). m < ''b'' \<and>
           file_url ''https://x'' ''u1'' m \<in> set hidden_used}"
    by (auto simp: fc lt hidden_used_def)
  then have "card ((\<lambda>i. replicate i CHR ''a'') ` {1..<101}) \<le>
        card {m \<in> set (folder_children hidden_orphan_bucket ''u1''). m < ''b'' \<and>
           file_url ''https://x'' ''u1'' m \<in> set hidden_used}"
    by (rule card_mono [rotated]) simp
  then have card: "list_limit \<le> card {m \<in> set (folder_children hidden_orphan_bucket ''u1''). m < ''b'' \<and>
           file_url ''https://x'' ''u1'' m \<in> set hidden_used}"
    using card_image [OF inj] by (simp add: list_limit_def)
  have ne: "''b'' \<noteq> replicate i CHR ''a''" for i by (cases i) simp_all
  have orphan: "file_url ''https://x'' ''u1'' ''b'' \<notin> set hidden_used"
    using ne by (auto simp: hidden_used_def file_url_def)
  have "''b'' \<in> set (folder_children hidden_orphan_bucket ''u1'')" by (simp add: fc)
  from cleanup_orphan_never_removed [OF this orphan card] show ?thesis .
qed

text \<open>
  C27. The repeated cleanup ends: every call that removes files shrinks the folder, so
  the rounds stop after at most as many removing calls as the folder has files, at a
  bucket on which the cleanup finds nothing unused and changes nothing.
\<close>

theorem cleanup_until_clean_terminates:
  "snd (cleanup_until_clean base uid used b) \<le> length (folder_children b uid) \<and>
   cleanupUnusedImages base (fst (cleanup_until_clean base uid used b)) uid used None None =
     (fst (cleanup_until_clean base uid used b), NothingUnused)"
  using cleanup_until_clean_props [of base uid used b] by simp

end
