(* ===== verification/Page_Chrome.thy ===== *)
theory Page_Chrome
  imports Post_Views Auth_Form
begin

text \<open>
  The parts of the pages around the data: the navigation bar of
  \<open>src/components/layout/navbar.tsx\<close>, the share button of
  \<open>src/components/ui/share-button.tsx\<close>, and what the post form of
  \<open>src/components/blog/post-form.tsx\<close> shows around its fields (heading, submit label,
  the featured-image note) together with the browser's \<open>required\<close> check that runs
  before \<open>handleSubmit\<close>. The browser's share and clipboard APIs are not part of the
  repository: their answers are parameters.
\<close>

datatype nav_item = NavHome | NavWrite | NavUserMenu | NavSignIn

definition Navbar :: "user_id option \<Rightarrow> nav_item list" where
  "Navbar user = NavHome # (if user \<noteq> None then [NavWrite, NavUserMenu] else [NavSignIn])"

text \<open>What the browser offers \<open>handleShare\<close>: \<open>navigator.share\<close>, which resolves or
  rejects (a cancel rejects), or only \<open>navigator.clipboard.writeText\<close>, which resolves or
  rejects.\<close>

datatype share_capability = NativeShare bool | ClipboardOnly bool

datatype share_outcome =
    Shared string string url      \<comment> \<open>the share sheet got title, text and url\<close>
  | ShareAborted                  \<comment> \<open>rejected and caught: \<open>/* user cancelled */\<close>\<close>
  | Copied url                    \<comment> \<open>the url is on the clipboard, no message shown\<close>
  | UnhandledRejection            \<comment> \<open>\<open>writeText\<close> rejected: nothing catches it\<close>

definition handleShare :: "string \<Rightarrow> string \<Rightarrow> url \<Rightarrow> share_capability \<Rightarrow> share_outcome" where
  "handleShare shareTitle shareText shareUrl cap =
     (case cap of
        NativeShare ok \<Rightarrow> (if ok then Shared shareTitle shareText shareUrl else ShareAborted)
      | ClipboardOnly ok \<Rightarrow> (if ok then Copied shareUrl else UnhandledRejection))"

text \<open>What the button renders: the icon, and the label \<open>Share\<close> unless \<open>iconOnly\<close>
  (the post page renders one of each, for wide and narrow screens, with the text
  \<open>post.excerpt ?? post.title\<close>).\<close>

definition share_label :: "bool \<Rightarrow> string option" where
  "share_label iconOnly = (if iconOnly then None else Some ''Share'')"

text \<open>The post form around its fields.\<close>

definition form_heading :: "bool \<Rightarrow> string" where
  "form_heading isEditing = (if isEditing then ''Edit Post'' else ''Create New Post'')"

definition submit_label :: "bool \<Rightarrow> bool \<Rightarrow> string" where
  "submit_label loading isEditing =
     (if loading then ''Saving...'' else if isEditing then ''Update Post'' else ''Create Post'')"

definition featured_note :: "image_state \<Rightarrow> string option" where
  "featured_note ist =
     (if featuredImage ist \<noteq> [] then Some ''The first uploaded image will be used as the featured image''
      else None)"

text \<open>The \<open>required\<close> attributes of the title and content fields: the browser submits
  the form only when both are non-empty.\<close>

definition form_submittable :: "form_fields \<Rightarrow> bool" where
  "form_submittable ff \<longleftrightarrow> form_title ff \<noteq> [] \<and> form_content ff \<noteq> []"

lemmas chrome_defs [blog_simps] =
  Navbar_def handleShare_def share_label_def form_heading_def submit_label_def featured_note_def form_submittable_def

section \<open>Lemmas\<close>

text \<open>The navigation bar offers \<open>Write\<close> exactly to the readers the write page does not
  redirect, and \<open>Sign In\<close> exactly to those the auth page does not send home.\<close>

lemma navbar_write_consistent: "NavWrite \<in> set (Navbar user) \<longleftrightarrow> WritePage user = WriteForm"
  by (simp add: Navbar_def WritePage_def)

lemma navbar_signin_consistent: "NavSignIn \<in> set (Navbar user) \<longleftrightarrow> AuthPage user = AuthFormPage"
  by (simp add: Navbar_def AuthPage_def)

end
