(* ===== verification/Site_Pages.thy ===== *)
theory Site_Pages
  imports Page_Chrome App_Steps
begin

text \<open>
  The site as a whole: the pages under \<open>src/app/\<close> reached by a path, the static pages
  (\<open>src/app/auth/confirm/page.tsx\<close>, \<open>src/app/auth/auth-code-error/page.tsx\<close>,
  \<open>src/app/not-found.tsx\<close>), the links every page offers and the redirects the
  handlers and pages take, and the author block of the post page. The router is the
  framework's file-system router over the directories of \<open>src/app/\<close>; it is not code of
  the repository and follows the framework's documented conventions: a directory is a
  path segment, \<open>[slug]\<close> and \<open>[id]\<close> match one non-empty segment, and the query and
  the fragment of a URL do not take part in routing. Percent-decoding of dynamic segments
  is not modelled; the segments of the lemmas below contain no \<open>%\<close>.
\<close>

datatype route = RHome | RAuth | RAuthConfirm | RAuthCodeError | RWrite | REdit string
  | RPost string | RProfile | RPreview

fun route_segs :: "string list \<Rightarrow> route option" where
  "route_segs [] = Some RHome"
| "route_segs [s] =
     (if s = ''auth'' then Some RAuth else if s = ''write'' then Some RWrite
      else if s = ''profile'' then Some RProfile else if s = ''preview'' then Some RPreview else None)"
| "route_segs [s, t] =
     (if s = ''auth'' \<and> t = ''confirm'' then Some RAuthConfirm
      else if s = ''auth'' \<and> t = ''auth-code-error'' then Some RAuthCodeError
      else if s = ''write'' \<and> t \<noteq> [] then Some (REdit t)
      else if s = ''post'' \<and> t \<noteq> [] then Some (RPost t) else None)"
| "route_segs _ = None"

definition route_of :: "string \<Rightarrow> route option" where
  "route_of href =
     (case takeWhile (\<lambda>c. c \<noteq> CHR ''?'' \<and> c \<noteq> CHR ''#'') href of
        CHR ''/'' # rest \<Rightarrow> route_segs (if rest = [] then [] else split_on CHR ''/'' rest)
      | _ \<Rightarrow> None)"

text \<open>A value that stands for itself as one segment of a path.\<close>

definition url_segment :: "string \<Rightarrow> bool" where
  "url_segment s \<longleftrightarrow> s \<noteq> [] \<and> list_all (\<lambda>c. c \<notin> set ''/?#%'') s"

type_synonym link = "string \<times> string"

section \<open>Static pages\<close>

record static_page =
  sp_title :: string
  sp_description :: string
  sp_items :: "string list"
  sp_links :: "link list"

definition ConfirmPage :: static_page where
  "ConfirmPage =
     \<lparr>sp_title = ''Email Confirmed!'',
      sp_description = ''Your email has been successfully confirmed. You can now access all features of MiniBlog.'',
      sp_items = [''Welcome to MiniBlog! You'' @ CHR 0x27 # ''re now ready to start writing and sharing your thoughts.''],
      sp_links = [(''Get Started'', ''/''), (''Write Your First Post'', ''/write'')]\<rparr>"

definition AuthCodeErrorPage :: static_page where
  "AuthCodeErrorPage =
     \<lparr>sp_title = ''Authentication Error'',
      sp_description = ''There was an issue confirming your email address or signing you in.'',
      sp_items = [''The confirmation link has expired'', ''The link has already been used'',
                  ''There was a network error''],
      sp_links = [(''Back to Sign In'', ''/auth''), (''Go to Home'', ''/'')]\<rparr>"

definition NotFoundPage :: static_page where
  "NotFoundPage =
     \<lparr>sp_title = ''Page Not Found'',
      sp_description = ''The page you'' @ CHR 0x27 # ''re looking for doesn'' @ CHR 0x27 # ''t exist.'',
      sp_items = [],
      sp_links = [(''Go Home'', ''/'')]\<rparr>"

section \<open>Links and redirects of the pages\<close>

text \<open>The navigation bar: the brand links home, \<open>Write\<close> and \<open>Sign In\<close> are links; the
  user menu is a component outside the repository and contributes no link here.\<close>

fun nav_link :: "nav_item \<Rightarrow> link option" where
  "nav_link NavHome = Some (''MiniBlog'', ''/'')"
| "nav_link NavWrite = Some (''Write'', ''/write'')"
| "nav_link NavSignIn = Some (''Sign In'', ''/auth'')"
| "nav_link NavUserMenu = None"

definition navbar_links :: "user_id option \<Rightarrow> link list" where
  "navbar_links user = List.map_filter nav_link (Navbar user)"

text \<open>The links of a post card (its image and its title both link to the post).\<close>

definition card_links :: "post \<Rightarrow> link list" where
  "card_links p = [(card_title (PostCard p), card_href (PostCard p))]"

definition home_links :: "home_view \<Rightarrow> link list" where
  "home_links v =
     (if home_write_button v then [(''Write Your Story'', ''/write'')] else []) @
     (if home_posts v \<noteq> [] then concat (map card_links (home_posts v))
      else [if home_write_button v then (''Write First Story'', ''/write'') else (''Get Started'', ''/auth'')])"

definition profile_links :: "profile_page \<Rightarrow> link list" where
  "profile_links pg =
     (case pg of ProfileRedirect \<Rightarrow> [] | ProfileView pub drafts \<Rightarrow> concat (map card_links (pub @ drafts)))"

text \<open>The post page: \<open>Back to Posts\<close>, and \<open>Edit\<close> for the author; a missing or hidden
  row renders the not-found page.\<close>

definition post_page_links :: "post_page \<Rightarrow> link list" where
  "post_page_links pg =
     (case pg of
        NotFound \<Rightarrow> sp_links NotFoundPage
      | PostView v \<Rightarrow> (''Back to Posts'', ''/'') #
          (if pv_is_author v then [(''Edit'', ''/write/'' @ post_id (pv_post v))] else []))"

text \<open>The server-side redirects of the pages and the client-side \<open>router.push\<close> of the
  handlers.\<close>

definition write_redirect :: "write_page \<Rightarrow> string option" where
  "write_redirect pg = (case pg of WriteRedirect \<Rightarrow> Some ''/auth'' | WriteForm \<Rightarrow> None)"

definition edit_redirect :: "edit_page \<Rightarrow> string option" where
  "edit_redirect pg = (case pg of RedirectToAuth \<Rightarrow> Some ''/auth'' | _ \<Rightarrow> None)"

definition profile_redirect :: "profile_page \<Rightarrow> string option" where
  "profile_redirect pg = (case pg of ProfileRedirect \<Rightarrow> Some ''/auth'' | _ \<Rightarrow> None)"

definition auth_redirect :: "auth_page \<Rightarrow> string option" where
  "auth_redirect pg = (case pg of AuthRedirectHome \<Rightarrow> Some ''/'' | AuthFormPage \<Rightarrow> None)"

definition save_redirect :: "save_outcome \<Rightarrow> string option" where
  "save_redirect out = (case out of Saved sl \<Rightarrow> Some (''/post/'' @ sl) | _ \<Rightarrow> None)"

fun opt_target :: "string option \<Rightarrow> string list" where
  "opt_target None = []"
| "opt_target (Some h) = [h]"

fun auth_msg_push :: "auth_msg \<Rightarrow> string option" where
  "auth_msg_push (AuthPush p) = Some p"
| "auth_msg_push (AuthToast _ _) = None"

section \<open>The author of a post\<close>

text \<open>The post page selects the row with the embedded \<open>profiles(id, email, full_name,
  avatar_url)\<close>, the profile row whose id is the post's \<open>author_id\<close>. The meta line
  shows \<open>full_name || email\<close>; the author block at the end of the article shows
  \<open>full_name || "Anonymous"\<close> and, below it, the email.\<close>

definition post_profile :: "db \<Rightarrow> post \<Rightarrow> profile option" where
  "post_profile d p = find (\<lambda>pr. profile_id pr = author_id p) (profiles d)"

definition author_byline :: "profile option \<Rightarrow> string option" where
  "author_byline pr =
     (case pr of None \<Rightarrow> None
      | Some q \<Rightarrow> Some (case truthy (full_name q) of Some n \<Rightarrow> n | None \<Rightarrow> email q))"

definition author_box :: "profile option \<Rightarrow> (string \<times> string) option" where
  "author_box pr =
     (case pr of None \<Rightarrow> None
      | Some q \<Rightarrow> Some (case truthy (full_name q) of Some n \<Rightarrow> n | None \<Rightarrow> ''Anonymous'', email q))"

section \<open>The site\<close>

datatype site_page =
    HomeP home_view | AuthP auth_page | ConfirmP | AuthCodeErrorP | WriteP write_page
  | EditP edit_page | PostP post_page | ProfileP profile_page | PreviewP | NotFoundP

definition render_route :: "user_id option \<Rightarrow> db \<Rightarrow> route option \<Rightarrow> site_page" where
  "render_route user d r =
     (case r of
        None \<Rightarrow> NotFoundP
      | Some RHome \<Rightarrow> HomeP (HomePage user (posts d))
      | Some RAuth \<Rightarrow> AuthP (AuthPage user)
      | Some RAuthConfirm \<Rightarrow> ConfirmP
      | Some RAuthCodeError \<Rightarrow> AuthCodeErrorP
      | Some RWrite \<Rightarrow> WriteP (WritePage user)
      | Some (REdit pid) \<Rightarrow> EditP (EditPostPage user (posts d) pid)
      | Some (RPost sl) \<Rightarrow> PostP (PostPage user (posts d) sl)
      | Some RProfile \<Rightarrow> ProfileP (ProfilePage user (posts d))
      | Some RPreview \<Rightarrow> PreviewP)"

text \<open>Every link and redirect target a page renders for a reader.\<close>

definition page_targets :: "site_page \<Rightarrow> string list" where
  "page_targets pg =
     (case pg of
        HomeP v \<Rightarrow> map snd (home_links v)
      | AuthP a \<Rightarrow> opt_target (auth_redirect a)
      | ConfirmP \<Rightarrow> map snd (sp_links ConfirmPage)
      | AuthCodeErrorP \<Rightarrow> map snd (sp_links AuthCodeErrorPage)
      | WriteP w \<Rightarrow> opt_target (write_redirect w)
      | EditP e \<Rightarrow> opt_target (edit_redirect e)
      | PostP p \<Rightarrow> map snd (post_page_links p)
      | ProfileP p \<Rightarrow> opt_target (profile_redirect p) @ map snd (profile_links p)
      | PreviewP \<Rightarrow> []
      | NotFoundP \<Rightarrow> map snd (sp_links NotFoundPage))"

text \<open>A state of the scenarios below: \<open>u1\<close> signs in and creates the published post of
  \<^const>\<open>form_a\<close>.\<close>

definition signed_in_and_posted :: "db \<times> bucket" where
  "signed_in_and_posted =
     fst (handleSubmit ''https://x'' env_ok (Some user_u1) None False form_a (init_image_state None)
       (fst (snd (handleSignIn auth_form_init \<lparr>posts = [], profiles = []\<rparr> (SignInData (Some user_u1)) ''t0'' None)),
        \<lparr>objects = []\<rparr>))"

lemmas site_defs [blog_simps] =
  route_of_def url_segment_def ConfirmPage_def AuthCodeErrorPage_def NotFoundPage_def navbar_links_def
  card_links_def home_links_def profile_links_def post_page_links_def write_redirect_def edit_redirect_def
  profile_redirect_def auth_redirect_def save_redirect_def render_route_def page_targets_def
  post_profile_def author_byline_def author_box_def

section \<open>Lemmas\<close>

lemma url_segment_no_sep: "url_segment s \<Longrightarrow> CHR ''/'' \<notin> set s"
  by (auto simp: url_segment_def list_all_iff)

lemma url_segment_takeWhile:
  "url_segment s \<Longrightarrow> takeWhile (\<lambda>c. c \<noteq> CHR ''?'' \<and> c \<noteq> CHR ''#'') s = s"
  by (auto simp: url_segment_def list_all_iff takeWhile_eq_all_conv)

text \<open>A link \<open>/dir/\<close> followed by a segment routes to the directory's dynamic page.\<close>

lemma route_of_dynamic:
  assumes "url_segment s" and "dir = ''post'' \<or> dir = ''write''"
  shows "route_of (CHR ''/'' # dir @ CHR ''/'' # s) = Some (if dir = ''post'' then RPost s else REdit s)"
proof -
  have "split_on CHR ''/'' (dir @ CHR ''/'' # s) = [dir, s]"
    using assms by (auto simp: split_on_append_no_sep split_on_no_sep_single url_segment_no_sep)
  moreover have "s \<noteq> []" using assms(1) by (simp add: url_segment_def)
  ultimately show ?thesis
    using assms by (auto simp: route_of_def url_segment_takeWhile takeWhile_append2)
qed

lemma route_of_post: "url_segment s \<Longrightarrow> route_of (''/post/'' @ s) = Some (RPost s)"
  using route_of_dynamic [of s "''post''"] by simp

lemma route_of_edit: "url_segment s \<Longrightarrow> route_of (''/write/'' @ s) = Some (REdit s)"
  using route_of_dynamic [of s "''write''"] by simp

lemma card_links_resolve:
  "url_segment (slug p) \<Longrightarrow> map (route_of \<circ> snd) (card_links p) = [Some (RPost (slug p))]"
  using route_of_post [of "slug p"] by (simp add: card_links_def PostCard_def)

lemma cards_resolve:
  "\<forall>p \<in> set ps. url_segment (slug p) \<Longrightarrow>
   list_all (\<lambda>h. route_of h \<noteq> None) (map snd (concat (map card_links ps)))"
  using card_links_resolve by (fastforce simp: list_all_iff dest: arg_cong [where f = set])

lemma post_page_links_resolve:
  assumes "\<forall>p \<in> set rows. url_segment (post_id p)"
  shows "list_all (\<lambda>h. route_of h \<noteq> None) (map snd (post_page_links (PostPage user rows sl)))"
proof (cases "PostPage user rows sl")
  case NotFound
  then show ?thesis by (simp add: post_page_links_def site_defs)
next
  case (PostView v)
  then have "pv_post v \<in> set rows" by (blast dest: PostPage_PostView single_row_Some)
  with assms have "url_segment (post_id (pv_post v))" by blast
  with PostView show ?thesis
    using route_of_edit [of "post_id (pv_post v)"] by (simp add: post_page_links_def route_of_def)
qed

lemma profile_links_resolve:
  assumes "\<And>ps. set ps \<subseteq> set rows \<Longrightarrow> \<forall>p \<in> set ps. url_segment (slug p)"
  shows "list_all (\<lambda>h. route_of h \<noteq> None)
           (opt_target (profile_redirect (ProfilePage user rows)) @ map snd (profile_links (ProfilePage user rows)))"
proof (cases "ProfilePage user rows")
  case (ProfileView pub drafts)
  then have "set (pub @ drafts) \<subseteq> set rows"
    by (auto simp: ProfilePage_def Let_def split: option.splits)
  then have "list_all (\<lambda>h. route_of h \<noteq> None) (map snd (concat (map card_links (pub @ drafts))))"
    by (rule cards_resolve [OF assms])
  with ProfileView show ?thesis by (simp add: profile_links_def profile_redirect_def)
qed (simp add: site_defs)

section \<open>Properties of the site\<close>

text \<open>
  C36. No link of the site is dead: on every page a reader can reach, whoever the reader
  is, every link (the static pages' buttons, the home page's write buttons and post cards,
  the profile page's cards, the post page's \<open>Back to Posts\<close> and \<open>Edit\<close>, the
  not-found page's \<open>Go Home\<close>) and every redirect the page takes routes to a page of
  \<open>src/app/\<close>, provided every row's slug and id is a path segment.
\<close>

theorem site_links_resolve:
  assumes "\<forall>p \<in> set (posts d). url_segment (slug p) \<and> url_segment (post_id p)"
  shows "list_all (\<lambda>h. route_of h \<noteq> None) (page_targets (render_route user d r))"
proof -
  have slugs: "\<forall>p \<in> set ps. url_segment (slug p)" if "set ps \<subseteq> set (posts d)" for ps
    using assms that by blast
  show ?thesis
  proof (cases r)
    case (Some rt)
    then show ?thesis
    proof (cases rt)
      case RHome
      have "list_all (\<lambda>h. route_of h \<noteq> None) (map snd (concat (map card_links (home_posts (HomePage user (posts d))))))"
        by (rule cards_resolve, rule slugs) (simp add: HomePage_def)
      with Some RHome show ?thesis by (simp add: render_route_def page_targets_def home_links_def route_of_def)
    next
      case (RPost sl)
      have "\<forall>p \<in> set (posts d). url_segment (post_id p)" using assms by blast
      from post_page_links_resolve [OF this, of user sl] Some RPost show ?thesis
        by (simp add: render_route_def page_targets_def)
    next
      case RProfile
      from profile_links_resolve [OF slugs] Some RProfile show ?thesis
        by (simp add: render_route_def page_targets_def)
    next
      case (REdit pid)
      with Some show ?thesis by (simp add: site_defs split: edit_page.split)
    next
      case RAuth
      with Some show ?thesis by (simp add: site_defs split: auth_page.split)
    next
      case RWrite
      with Some show ?thesis by (simp add: site_defs split: write_page.split)
    qed (simp_all add: Some site_defs)
  qed (simp add: site_defs)
qed

theorem site_links_resolve_witness:
  "list_all (\<lambda>p. url_segment (slug p) \<and> url_segment (post_id p))
     (posts \<lparr>posts = [row_pub, row_draft], profiles = []\<rparr>) \<and>
   page_targets (render_route (Some ''u1'') \<lparr>posts = [row_pub, row_draft], profiles = []\<rparr> (route_of ''/profile''))
     = [''/post/hello'', ''/post/draft''] \<and>
   list_all (\<lambda>h. route_of h \<noteq> None)
     (page_targets (render_route (Some ''u1'') \<lparr>posts = [row_pub, row_draft], profiles = []\<rparr> (route_of ''/profile'')))"
  using site_links_resolve [of "\<lparr>posts = [row_pub, row_draft], profiles = []\<rparr>" "Some ''u1''" "route_of ''/profile''"]
  by (simp add: list_all_iff site_defs ProfilePage_def newest_first_def PostCard_def row_pub_def row_draft_def)

text \<open>
  C35. Every reader of a published post sees its author's email address: in any state the
  application can reach, the post page of a published row with its own slug renders for
  every reader, signed in or not, and its author block shows the email of the author's
  profile row, which exists and is unique (the profile is created before the first post
  is written, and only when missing).
\<close>

theorem published_post_shows_author_email:
  assumes "app_reach (d, b)" and "published p" and "filter (\<lambda>q. slug q = slug p) (posts d) = [p]"
  shows "\<exists>v pr n. render_route user d (Some (RPost (slug p))) = PostP (PostView v) \<and> pv_post v = p \<and>
           filter (\<lambda>q. profile_id q = author_id p) (profiles d) = [pr] \<and>
           post_profile d p = Some pr \<and> author_box (post_profile d p) = Some (n, email pr)"
proof -
  have inv: "authors_have_profiles d" "distinct (map profile_id (profiles d))"
    using app_reach_inv [OF assms(1)] by simp_all
  have "p \<in> set (posts d)" using assms(3) by (metis filter_eq_ConsD in_set_conv_decomp)
  with inv(1) obtain pr where pr: "pr \<in> set (profiles d)" "profile_id pr = author_id p"
    by (auto simp: authors_have_profiles_def list_ex_iff)
  then have uniq: "filter (\<lambda>q. profile_id q = author_id p) (profiles d) = [pr]"
    using filter_distinct_key [OF inv(2) pr(1)] by simp
  then have "post_profile d p = Some pr"
    by (simp add: post_profile_def find_filter_single)
  moreover have "PostPage user (posts d) (slug p) = PostView
     \<lparr>pv_post = p, pv_is_author = (user = Some (author_id p)), pv_draft_badge = False,
      pv_featured = truthy (featured_image p), pv_gallery = gallery p,
      pv_share_text = (case excerpt p of Some e \<Rightarrow> e | None \<Rightarrow> title p)\<rparr>"
    using assms(2,3) by (simp add: PostPage_def single_row_one)
  ultimately show ?thesis using uniq by (simp add: render_route_def author_box_def)
qed

theorem published_post_shows_author_email_witness:
  "app_reach (fst signed_in_and_posted, snd signed_in_and_posted) \<and>
   published (hd (posts (fst signed_in_and_posted))) \<and>
   filter (\<lambda>q. slug q = slug (hd (posts (fst signed_in_and_posted)))) (posts (fst signed_in_and_posted))
     = [hd (posts (fst signed_in_and_posted))] \<and>
   author_box (post_profile (fst signed_in_and_posted) (hd (posts (fst signed_in_and_posted))))
     = Some (''Anonymous'', ''u1@x'') \<and>
   (\<exists>v pr n. render_route None (fst signed_in_and_posted)
        (Some (RPost (slug (hd (posts (fst signed_in_and_posted)))))) = PostP (PostView v) \<and>
      pv_post v = hd (posts (fst signed_in_and_posted)) \<and>
      filter (\<lambda>q. profile_id q = author_id (hd (posts (fst signed_in_and_posted))))
        (profiles (fst signed_in_and_posted)) = [pr] \<and>
      post_profile (fst signed_in_and_posted) (hd (posts (fst signed_in_and_posted))) = Some pr \<and>
      author_box (post_profile (fst signed_in_and_posted) (hd (posts (fst signed_in_and_posted))))
        = Some (n, email pr))"
proof -
  have r: "app_reach (fst signed_in_and_posted, snd signed_in_and_posted)"
    unfolding signed_in_and_posted_def prod.collapse
    by (rule app_reach.submit, rule app_reach.sign_in, rule app_reach.init)
  have c: "published (hd (posts (fst signed_in_and_posted))) \<and>
    filter (\<lambda>q. slug q = slug (hd (posts (fst signed_in_and_posted)))) (posts (fst signed_in_and_posted))
      = [hd (posts (fst signed_in_and_posted))] \<and>
    author_box (post_profile (fst signed_in_and_posted) (hd (posts (fst signed_in_and_posted))))
      = Some (''Anonymous'', ''u1@x'')"
    by (simp add: signed_in_and_posted_def blog_simps env_ok_def form_a_def user_u1_def)
  from r c published_post_shows_author_email [OF r, of "hd (posts (fst signed_in_and_posted))" None]
  show ?thesis by blast
qed

end
