(* ===== verification/Post_Form_View.thy ===== *)
theory Post_Form_View
  imports Upload_UI Page_Chrome
begin

text \<open>
  The post form of \<open>src/components/blog/post-form.tsx\<close> as a component: its state
  (\<open>isLoading\<close>, the four fields, the image state and \<open>originalImages\<close>), the
  \<open>onChange\<close> handlers of its inputs, the loading flag around \<open>handleSubmit\<close>, and what
  it renders, including the upload component of \<open>src/components/ui/image-upload.tsx\<close>
  with \<open>maxImages={10}\<close>. The handlers that change the database and the bucket are
  those of \<open>Post_Save\<close>, \<open>Image_Tracker\<close> and \<open>Upload_Batch\<close>; this theory composes
  them with the render.
\<close>

record post_form =
  pf_isLoading :: bool
  pf_fields :: form_fields
  pf_images :: image_state
  pf_originalImages :: "url list"

text \<open>The \<open>useState\<close> initialisers.\<close>

definition post_form_init :: "post option \<Rightarrow> post_form" where
  "post_form_init p =
     \<lparr>pf_isLoading = False, pf_fields = init_form_fields p, pf_images = init_image_state p,
      pf_originalImages = list_or_empty (case p of None \<Rightarrow> None | Some q \<Rightarrow> images q)\<rparr>"

text \<open>The effect on \<open>[post]\<close>: \<open>if (post?.images) setOriginalImages(post.images)\<close>.\<close>

definition post_form_effect :: "post option \<Rightarrow> post_form \<Rightarrow> post_form" where
  "post_form_effect p pf =
     (case p of
        Some q \<Rightarrow> (case images q of Some is \<Rightarrow> pf\<lparr>pf_originalImages := is\<rparr> | None \<Rightarrow> pf)
      | None \<Rightarrow> pf)"

text \<open>The \<open>onChange\<close> of the title, excerpt and content inputs and the
  \<open>onCheckedChange\<close> of the switch.\<close>

datatype field_event = SetTitle string | SetExcerpt string | SetContent string | SetPublished bool

fun field_step :: "post_form \<Rightarrow> field_event \<Rightarrow> post_form" where
  "field_step pf (SetTitle s) = pf\<lparr>pf_fields := (pf_fields pf)\<lparr>form_title := s\<rparr>\<rparr>"
| "field_step pf (SetExcerpt s) = pf\<lparr>pf_fields := (pf_fields pf)\<lparr>form_excerpt := s\<rparr>\<rparr>"
| "field_step pf (SetContent s) = pf\<lparr>pf_fields := (pf_fields pf)\<lparr>form_content := s\<rparr>\<rparr>"
| "field_step pf (SetPublished b) = pf\<lparr>pf_fields := (pf_fields pf)\<lparr>form_published := b\<rparr>\<rparr>"

text \<open>A submission: \<open>setIsLoading(true)\<close>, the body of \<open>handleSubmit\<close> on the fields and
  images of the render, and \<open>setIsLoading(false)\<close> in \<open>finally\<close>, which runs after
  every early \<open>return\<close> and every caught error. The first component is the form while
  the body runs, the second the form afterwards.\<close>

definition post_form_submit ::
  "string \<Rightarrow> save_env \<Rightarrow> auth_user option \<Rightarrow> post option \<Rightarrow> bool \<Rightarrow> post_form \<Rightarrow> db \<times> bucket \<Rightarrow>
   (post_form \<times> post_form) \<times> (db \<times> bucket) \<times> save_outcome" where
  "post_form_submit base env user post isEditing pf s =
     (let running = pf\<lparr>pf_isLoading := True\<rparr>;
          r = handleSubmit base env user post isEditing (pf_fields pf) (pf_images pf) s
      in ((running, running\<lparr>pf_isLoading := False\<rparr>), r))"

section \<open>What the upload component renders\<close>

record upload_tile =
  tile_src :: string
  tile_alt :: string
  tile_remove :: url

record upload_view =
  uv_highlight :: bool
  uv_status :: string
  uv_hint :: string
  uv_choose_label :: string
  uv_choose_enabled :: bool
  uv_tiles :: "upload_tile list"
  uv_progress :: "string option"

definition upload_tiles :: "url list \<Rightarrow> upload_tile list" where
  "upload_tiles imgs =
     map (\<lambda>(i, u). \<lparr>tile_src = (if u = [] then ''/placeholder.svg'' else u),
                    tile_alt = ''Upload '' @ nat_to_dec (Suc i), tile_remove = u\<rparr>)
       (enumerate 0 imgs)"

definition ImageUploadView :: "upload_ui \<Rightarrow> url list \<Rightarrow> nat \<Rightarrow> upload_view" where
  "ImageUploadView ui imgs maxImages =
     \<lparr>uv_highlight = dragActive ui,
      uv_status = (if isUploading ui then ''Uploading images...''
                   else ''Drag and drop images here, or click to select files''),
      uv_hint = ''PNG, JPG, GIF, WebP up to 5MB each (max '' @ nat_to_dec maxImages @ '' images)'',
      uv_choose_label = (if isUploading ui then ''Uploading...'' else ''Choose Files''),
      uv_choose_enabled = choose_files_enabled ui imgs maxImages,
      uv_tiles = upload_tiles imgs,
      uv_progress = progress_text ui\<rparr>"

section \<open>What the post form renders\<close>

record post_form_view =
  fv_heading :: string
  fv_title :: string
  fv_excerpt :: string
  fv_uploader :: upload_view
  fv_featured_note :: "string option"
  fv_content :: string
  fv_published :: bool
  fv_submit_label :: string
  fv_submit_enabled :: bool

definition PostFormView :: "bool \<Rightarrow> post_form \<Rightarrow> upload_ui \<Rightarrow> post_form_view" where
  "PostFormView isEditing pf ui =
     \<lparr>fv_heading = form_heading isEditing,
      fv_title = form_title (pf_fields pf),
      fv_excerpt = form_excerpt (pf_fields pf),
      fv_uploader = ImageUploadView ui (form_images (pf_images pf)) 10,
      fv_featured_note = featured_note (pf_images pf),
      fv_content = form_content (pf_fields pf),
      fv_published = form_published (pf_fields pf),
      fv_submit_label = submit_label (pf_isLoading pf) isEditing,
      fv_submit_enabled = (\<not> pf_isLoading pf)\<rparr>"

text \<open>A click on the remove button of a tile, handled in a fresh render: the upload
  component's \<open>handleImageRemove\<close> (which deletes a platform URL's object) and then the
  form's \<open>handleImageRemove\<close>.\<close>

definition remove_tile ::
  "bucket \<Rightarrow> user_id option \<Rightarrow> remote_fault option \<Rightarrow> upload_tile \<Rightarrow> post_form \<Rightarrow> bucket \<times> post_form" where
  "remove_tile b user fault t pf =
     (let (b', ist') = uploader_handleImageRemove b (pf_images pf) user fault (tile_remove t) (pf_images pf)
      in (b', pf\<lparr>pf_images := ist'\<rparr>))"

lemmas form_view_defs [blog_simps] =
  post_form_init_def post_form_effect_def post_form_submit_def upload_tiles_def ImageUploadView_def
  PostFormView_def remove_tile_def

section \<open>Lemmas\<close>

text \<open>The loading flag around a submission: the submit button shows \<open>Saving...\<close> and is
  disabled while the body runs, and is enabled again afterwards whatever the outcome, with
  the typed fields and images kept.\<close>

lemma post_form_submit_releases:
  assumes "post_form_submit base env user post isEditing pf s = ((running, after), r)"
  shows "fv_submit_label (PostFormView isEditing running ui) = ''Saving...'' \<and>
         \<not> fv_submit_enabled (PostFormView isEditing running ui) \<and>
         fv_submit_enabled (PostFormView isEditing after ui) \<and>
         pf_fields after = pf_fields pf \<and> pf_images after = pf_images pf \<and>
         r = handleSubmit base env user post isEditing (pf_fields pf) (pf_images pf) s"
  using assms by (auto simp: post_form_submit_def PostFormView_def submit_label_def Let_def)

lemma upload_tiles_remove: "map tile_remove (upload_tiles imgs) = imgs"
proof -
  have "map tile_remove (upload_tiles imgs) = map snd (enumerate 0 imgs)"
    by (simp add: upload_tiles_def comp_def split_def)
  then show ?thesis by simp
qed

section \<open>Properties of the post form\<close>



end
