(* ===== verification/Spec2Isabelle.thy ===== *)
theory Spec2Isabelle
  imports Upload_Batch Upload_UI Post_Save Post_Views App_Steps Cleanup_Rounds Page_Chrome Site_Pages
    Post_Form_View
begin

text \<open>
  A verification development of the blog application of this repository (Next.js pages
  and React components over a hosted Postgres table \<open>posts\<close>, a table \<open>profiles\<close>
  and an object-storage bucket \<open>blog-images\<close>). Every piece of code is a shallow
  embedding: a page or a handler is a HOL function of the values it reads (the signed-in
  user, the rows a query returns, the render snapshot a callback closed over, the bucket)
  returning what it renders or the state it leaves, and every remote call that may fail
  takes its failure as an explicit \<open>option\<close> parameter, so that each early return,
  \<open>toast\<close> and \<open>console.error\<close> of the source is a branch of the model.

  \<^bold>\<open>Parts and theories.\<close>
  \<^item> \<open>Blog_Prelude\<close>: the JavaScript string operations the sources use
    (\<open>split\<close>, \<open>pop\<close>, \<open>startsWith\<close>, \<open>includes\<close>, number printing) and the
    shared list lemmas; the collection \<open>blog_simps\<close> of evaluation rules.
  \<^item> \<open>Object_Store\<close>: the bucket as a list of paths with the client calls \<open>list\<close>
    (one page of the first 100 names in sorted order), \<open>upload\<close> (no upsert),
    \<open>remove\<close>, \<open>getPublicUrl\<close>. The client library is not in the repository;
    this part follows the spec and the library's documented defaults.
  \<^item> \<open>Image_Upload\<close>: \<open>src/lib/utils/image-upload.ts\<close>, \<open>uploadImage\<close> (type and
    size guards, the path \<open>uid/now-rnd.ext\<close>, the public URL) and \<open>deleteImage\<close>
    (URL to path within the caller's folder).
  \<^item> \<open>Image_Cleanup\<close>: \<open>src/lib/utils/image-cleanup.ts\<close>,
    \<open>cleanupUnusedImages\<close> (list the folder, remove every file whose URL is unused,
    absorb failures).
  \<^item> \<open>Cleanup_Rounds\<close>: the cleanup repeated over successive saves,
    \<open>cleanup_until_clean\<close>, a \<open>function\<close> whose termination measure is the size of
    the caller's folder.
  \<^item> \<open>Post_Types\<close>: the records of \<open>src/lib/types.ts\<close> and JavaScript truthiness.
  \<^item> \<open>Image_Tracker\<close>: the editor's image state in
    \<open>src/components/blog/post-form.tsx\<close>, \<open>handleImageAdd\<close> and
    \<open>handleImageRemove\<close>, each taking the snapshot of the render it closed over and
    the live state; \<open>tracker_run\<close> is a run with a fresh render per event,
    \<open>stale_run\<close> a run of callbacks of one render; \<open>tracker_ref\<close> is the reference
    tracker of spec section 4.2.
  \<^item> \<open>Upload_Batch\<close>: \<open>src/components/ui/image-upload.tsx\<close>,
    \<open>handleFileUpload\<close> (empty selection, the \<open>maxImages\<close> guard, the user check,
    independent uploads completing in a given order) and its \<open>handleImageRemove\<close>;
    \<open>Upload_UI\<close>: the same component's interface state (drag and drop, the
    \<open>Choose Files\<close> button, the set of files in flight and the progress line).
  \<^item> \<open>Post_Save\<close>: \<open>handleSubmit\<close> of the post form with \<open>ensureUserProfile\<close>, the
    insert or update of \<open>postData\<close>, and, after an edit, the collection of every image
    the author's posts reference and the call of the cleanup; the form's initial fields.
  \<^item> \<open>Post_Views\<close>: the pages that read posts, \<open>src/app/post/[slug]/page.tsx\<close>,
    \<open>src/app/write/[id]/page.tsx\<close>, \<open>src/app/write/page.tsx\<close>,
    \<open>src/app/profile/page.tsx\<close>, \<open>src/app/page.tsx\<close> and the card of
    \<open>src/components/blog/post-card.tsx\<close>.
  \<^item> \<open>Auth_Form\<close>: \<open>src/components/auth/auth-form.tsx\<close> (\<open>handleSignUp\<close>,
    \<open>handleSignIn\<close>, \<open>handleResendConfirmation\<close>, the form's own
    \<open>ensureUserProfile\<close>, which swallows a failed insert), what the form renders and
    the browser's checks of its fields, and the auth page's redirect.
  \<^item> \<open>Page_Chrome\<close>: the navigation bar, the share button and the post form's heading,
    labels and \<open>required\<close> fields.
  \<^item> \<open>Preview\<close>: \<open>handlePreview\<close> of the post form and
    \<open>src/app/preview/page.tsx\<close>, the hand-off through \<open>localStorage\<close>.
  \<^item> \<open>App_Steps\<close>: the application as an inductive reachability relation
    \<open>app_reach\<close> over the database and the bucket, closed under every handler that
    changes them, with the foreign-key invariant \<open>authors_have_profiles\<close>, the
    bucket's \<open>bucket_wf\<close>, the primary key of \<open>profiles.id\<close>, and the row shape
    \<open>post_row_wf\<close> of the nullable columns of \<open>Post\<close>.
  \<^item> \<open>Post_Form_View\<close>: the post form as a component (its state, the \<open>onChange\<close>
    handlers, the loading flag around \<open>handleSubmit\<close>) and what it renders, with the
    upload component's render (status texts, \<open>Choose Files\<close>, the preview grid and its
    remove buttons, the progress line).
  \<^item> \<open>Site_Pages\<close>: the site as a whole: the framework's file-system router over
    \<open>src/app/\<close> (\<open>route_of\<close>, \<open>render_route\<close>, from the framework's documented
    conventions), the static pages \<open>src/app/auth/confirm/page.tsx\<close>,
    \<open>src/app/auth/auth-code-error/page.tsx\<close> and \<open>src/app/not-found.tsx\<close>, every
    link, \<open>redirect()\<close> and \<open>router.push\<close> of the pages and handlers, and the post
    page's author block with the profile it embeds.

  The parts interact through values: the upload component calls \<open>uploadImage\<close> and
  hands each URL to the editor's \<open>handleImageAdd\<close>; the form saves the editor's state
  into a row and calls the cleanup with the URLs the author's rows reference; the pages
  read the rows the form wrote. The theories import each other in that order, and the
  properties spanning them are in this theory.

  \<^bold>\<open>What is shown.\<close> C1--C8: the upload service's guards, its success and failure
  results, that a stored path lies in the caller's folder, that the bucket's
  distinctness is preserved, and that deletion undoes the public URL. C9--C13: the
  cleanup deletes exactly the unused listed files and absorbs failures; repeated
  cleanups clean the folder while fewer than a page of its files are used (liveness),
  and an orphan sorting after a page of used files survives every cleanup. C14--C18:
  the tracker invariant under fresh renders, the equivalence of the editor with the
  reference tracker, the order independence of a batch (equivalence over completion
  orders), and the two stale-closure behaviours. C19--C23: the batch guard, the
  independence of uploads, the cap under a fresh render and its failure when a drop
  starts a second batch, and the immediate deletion on remove. C24--C30: saving never
  deletes a referenced image unless the author query fails, a failed write changes
  nothing, the repeated cleanup terminates within the folder's size, a save reloads to
  the same fields and image state, and (C30, by rule induction
  over \<open>app_reach\<close>) every stored row keeps empty nullable columns as null; the spec's
  reachability example of section 8 is a lemma of \<open>Post_Save\<close>. C29 (below): the race
  of spec section 5, an image uploaded in one editor is deleted by the cleanup of an edit
  saved in another and the first editor's post then references a missing object.
  C31--C34: draft visibility, the edit page's ownership check and the profile partition.
  C32: the post form's note on the featured image is false after a batch upload. C35:
  every reader of a published post sees its author's email (using the profile key
  invariant of \<open>app_reach\<close>). C36: no link or redirect of any page is dead.
  C37--C38 (below): the end-to-end consequences of slugs derived from titles and of stale
  batch callbacks. C39: the preview shows what the post page will show after the save.
  C40: by rule induction over \<open>app_reach\<close>, in every reachable state every post's
  author has a profile and no path is stored twice in the bucket.

  \<^bold>\<open>Bounds.\<close> Every function of the model is total and structurally recursive but
  \<open>cleanup_until_clean\<close>, whose termination is proved by the folder's size; no fuel is
  used, since the only loops of the code are array traversals. The listing limit is the
  client's default of 100 entries (\<open>list_limit\<close>); the upload size bound is
  \<open>5 * 1024 * 1024\<close> bytes as the source writes it. Numbers are unbounded naturals:
  the code's numbers (sizes, timestamps, counts) stay far below 2^53.

  \<^bold>\<open>Not modelled.\<close> Rendering details (class names, icons, date formatting, the
  \<open>Image\<close> component's sizes), percent-decoding of dynamic route segments (the
  link lemmas assume segments without \<open>%\<close>), the \<open>UserNav\<close> menu (imported from a
  file that is not in the repository), the browser's \<open>type="email"\<close> format check,
  the hosted auth service and the browser's share and clipboard APIs (their answers are
  parameters), and the slug generator \<open>generateSlug\<close>, which is not in the
  repository and is a parameter of the save (\<open>env_slug\<close>).
\<close>

text \<open>The scenario of the race below: editor B uploads \<open>cat.png\<close> into a new post while
  editor A, in another tab of the same user, saves an edit of \<^const>\<open>post_a\<close>; then B saves.\<close>

definition race_upload :: "(bucket \<times> image_state) \<times> batch_outcome" where
  "race_upload = handleFileUpload ''https://x'' 10 (init_image_state None) (Some ''u1'') [(cat_file, env_at 1)] [0]
     (\<lparr>objects = [''u1/a.png'']\<rparr>, init_image_state None)"

definition race_save_a :: "(db \<times> bucket) \<times> save_outcome" where
  "race_save_a = handleSubmit ''https://x'' env_ok (Some user_u1) (Some post_a) True form_a
     (init_image_state (Some post_a)) (\<lparr>posts = [post_a], profiles = [profile_u1]\<rparr>, fst (fst race_upload))"

definition race_save_b :: "(db \<times> bucket) \<times> save_outcome" where
  "race_save_b = handleSubmit ''https://x'' env_ok (Some user_u1) None False form_a (snd (fst race_upload))
     (fst race_save_a)"

lemma handleSubmit_created:
  assumes "handleSubmit base env (Some u) post False ff ist (d, b) = ((d', b'), Saved sl)"
  shows "sl = env_slug env (form_title ff) \<and> posts d' = posts d @
    [apply_postData ff ist sl (user_uid u) (env_clock env) (blank_post (env_new_id env) (env_clock env))]"
proof -
  obtain d1 where e: "ensureUserProfile d u (env_clock env) (profile_insert_fault env) = Inr d1"
    and w: "write_fault env = None" and d': "d' = write_post env u post False ff ist d1"
    using handleSubmit_Saved [OF assms] by blast
  have "snd (handleSubmit base env (Some u) post False ff ist (d, b)) = Saved (env_slug env (form_title ff))"
    by (rule handleSubmit_outcome_edit [OF e w])
  then have sl: "sl = env_slug env (form_title ff)" using assms by simp
  have "posts d1 = posts d" by (rule ensureUserProfile_posts [OF e])
  with d' sl show ?thesis by (simp add: write_post_def insert_post_def)
qed

lemma slug_apply_postData [simp]: "slug (apply_postData ff ist sl uid now q) = sl"
  by (simp add: apply_postData_def)

lemma post_refs_apply_postData:
  "set (form_images ist) \<subseteq> set (post_refs (apply_postData ff ist sl uid now q)) \<and>
   set (post_refs (apply_postData ff ist sl uid now q)) \<subseteq> set (form_images ist) \<union> {featuredImage ist}"
  by (auto simp: post_refs_def apply_postData_def nonempty_or_null_def list_or_empty_def)

text \<open>What an edit's cleanup keeps: the form's images and featured image, and the images
  of the author's other rows.\<close>

lemma write_post_edit_rows:
  "q \<in> set (posts (write_post env u (Some p) True ff ist d1)) \<Longrightarrow>
   (q \<in> set (posts d1) \<and> post_id q \<noteq> post_id p) \<or>
   (\<exists>q0. q = apply_postData ff ist (env_slug env (form_title ff)) (user_uid u) (env_clock env) q0)"
  by (auto simp: write_post_def update_post_def)

lemma edit_save_used_subset:
  assumes "ensureUserProfile d u now f = Inr d1"
  shows "set (save_used_images env u ist (write_post env u (Some p) True ff ist d1)) \<subseteq>
     set (form_images ist) \<union> {featuredImage ist} \<union>
     (\<Union>q \<in> {q \<in> set (posts d). author_id q = user_uid u \<and> post_id q \<noteq> post_id p}. set (post_refs q))"
proof
  fix x
  assume "x \<in> set (save_used_images env u ist (write_post env u (Some p) True ff ist d1))"
  then consider "x \<in> set (form_images ist)"
    | q where "q \<in> set (posts (write_post env u (Some p) True ff ist d1))" "author_id q = user_uid u"
        "x \<in> set (post_refs q)"
    by (auto simp: save_used_images_def allUsedImages_def user_posts_def split: if_splits)
  then show "x \<in> set (form_images ist) \<union> {featuredImage ist} \<union>
     (\<Union>q \<in> {q \<in> set (posts d). author_id q = user_uid u \<and> post_id q \<noteq> post_id p}. set (post_refs q))"
  proof cases
    case (2 q)
    from write_post_edit_rows [OF 2(1)] show ?thesis
    proof
      assume "q \<in> set (posts d1) \<and> post_id q \<noteq> post_id p"
      with 2 show ?thesis using ensureUserProfile_posts [OF assms] by auto
    next
      assume "\<exists>q0. q = apply_postData ff ist (env_slug env (form_title ff)) (user_uid u) (env_clock env) q0"
      then obtain q0 where "q = apply_postData ff ist (env_slug env (form_title ff)) (user_uid u) (env_clock env) q0" ..
      then have "x \<in> set (form_images ist) \<union> {featuredImage ist}"
        using 2(3) post_refs_apply_postData by blast
      then show ?thesis by blast
    qed
  qed blast
qed


lemma race_facts:
  "fst (fst race_upload) = \<lparr>objects = [''u1/a.png'', ''u1/1-k.png'']\<rparr>"
  "form_images (snd (fst race_upload)) = [file_url ''https://x'' ''u1'' ''1-k.png'']"
  by (simp_all add: race_upload_def blog_simps cat_file_def env_at_def completion_steps dec_digits.simps)

section \<open>Properties across components\<close>

text \<open>
  C37. A new post whose title gives the slug of an existing post cannot be opened: the
  save succeeds and navigates to \<open>/post/<slug>\<close>, but two rows now carry that slug,
  so \<open>.single()\<close> on the post page finds no row and every reader gets
  \<open>notFound()\<close> (the slug is derived from the title alone and nothing checks that
  it is free).
\<close>

theorem same_title_post_unreachable:
  assumes "handleSubmit base env (Some u) post False ff ist (d, b) = ((d', b'), Saved sl)"
    and "q \<in> set (posts d)" and "slug q = sl"
  shows "PostPage viewer (posts d') sl = NotFound"
proof -
  let ?n = "apply_postData ff ist sl (user_uid u) (env_clock env) (blank_post (env_new_id env) (env_clock env))"
  have d': "posts d' = posts d @ [?n]" using handleSubmit_created [OF assms(1)] by simp
  have "filter (\<lambda>p. slug p = sl) (posts d) \<noteq> []"
    using assms(2,3) by (auto simp: filter_empty_conv)
  then have "1 < length (filter (\<lambda>p. slug p = sl) (posts d'))" by (simp add: d')
  then show ?thesis by (simp add: PostPage_def single_row_many)
qed

theorem same_title_post_unreachable_witness:
  "PostPage None (posts (fst (fst (handleSubmit ''https://x'' env_ok (Some user_u1) None False form_a
      (init_image_state None) (\<lparr>posts = [post_a\<lparr>slug := ''A''\<rparr>], profiles = [profile_u1]\<rparr>, \<lparr>objects = []\<rparr>)))))
     ''A'' = NotFound"
proof -
  let ?d = "\<lparr>posts = [post_a\<lparr>slug := ''A''\<rparr>], profiles = [profile_u1]\<rparr>"
  let ?X = "handleSubmit ''https://x'' env_ok (Some user_u1) None False form_a (init_image_state None) (?d, \<lparr>objects = []\<rparr>)"
  have e: "ensureUserProfile ?d user_u1 (env_clock env_ok) (profile_insert_fault env_ok) = Inr ?d"
    by (simp add: ensureUserProfile_def profile_u1_def user_u1_def)
  have w: "write_fault env_ok = None" by (simp add: env_ok_def)
  have "snd ?X = Saved (env_slug env_ok (form_title form_a))"
    by (rule handleSubmit_outcome_edit [OF e w])
  then have "snd ?X = Saved ''A''" by (simp add: env_ok_def form_a_def)
  then have run: "?X = ((fst (fst ?X), snd (fst ?X)), Saved ''A'')"
    by (metis prod.collapse)
  have "post_a\<lparr>slug := ''A''\<rparr> \<in> set (posts ?d)" by simp
  from same_title_post_unreachable [OF run this] show ?thesis by simp
qed

text \<open>
  C38. The first upload of a batch is shown nowhere on the published page: when a new
  post's images come from one batch of at least two distinct uploads (all callbacks
  closed over the empty editor of the batch's render) and the post is saved, the row
  stores every image, but its featured image is the last upload and the gallery skips the
  first entry of the list, so the first upload appears neither as the featured image nor
  in the gallery.
\<close>

theorem batch_first_image_hidden:
  assumes "form_images snap = []" and "featuredImage snap = []"
    and "distinct us" and "2 \<le> length us"
    and save: "handleSubmit base env (Some u) post False ff (stale_run snap (map Add us) snap) (d, b) =
               ((d', b'), Saved sl)"
    and page: "PostPage viewer (posts d') sl = PostView v"
  shows "images (pv_post v) = Some us \<and> hd us \<notin> set (pv_gallery v) \<and> pv_featured v \<noteq> Some (hd us)"
proof -
  let ?ist = "stale_run snap (map Add us) snap"
  let ?n = "apply_postData ff ?ist sl (user_uid u) (env_clock env) (blank_post (env_new_id env) (env_clock env))"
  have pg: "single_row (\<lambda>p. slug p = sl) (posts d') = Some (pv_post v) \<and> pv_gallery v = gallery (pv_post v) \<and>
            pv_featured v = truthy (featured_image (pv_post v))"
    using page by (rule PostPage_PostView)
  have "?n \<in> set (posts d')" using handleSubmit_created [OF save] by simp
  then have v: "pv_post v = ?n" using pg by (auto dest: single_row_unique)
  have us: "us \<noteq> []" using assms(4) by auto
  have ist: "form_images ?ist = us" "featuredImage ?ist = last us"
    using form_images_stale_add [of snap us snap] featured_stale_add [OF assms(1,2), of us snap] assms(1) us
    by simp_all
  obtain x y ys where xs: "us = x # y # ys" using assms(4) by (cases us; cases "tl us") auto
  have "last us \<noteq> hd us" using assms(3) by (cases ys rule: rev_cases) (auto simp: xs)
  then show ?thesis using pg v ist us assms(3)
    by (auto simp: apply_postData_def gallery_def truthy_def nonempty_or_null_def xs)
qed

theorem batch_first_image_hidden_witness:
  "\<exists>v. PostPage None (posts (fst (fst (handleSubmit ''https://x'' env_ok (Some user_u1) None False form_a
        (stale_run (init_image_state None) [Add ''a'', Add ''b''] (init_image_state None))
        (\<lparr>posts = [], profiles = [profile_u1]\<rparr>, \<lparr>objects = []\<rparr>))))) ''A'' = PostView v \<and>
     images (pv_post v) = Some [''a'', ''b''] \<and> ''a'' \<notin> set (pv_gallery v) \<and> pv_featured v \<noteq> Some ''a''"
proof -
  let ?d = "\<lparr>posts = [], profiles = [profile_u1]\<rparr>"
  let ?ist = "stale_run (init_image_state None) (map Add [''a'', ''b'']) (init_image_state None)"
  let ?X = "handleSubmit ''https://x'' env_ok (Some user_u1) None False form_a ?ist (?d, \<lparr>objects = []\<rparr>)"
  have e: "ensureUserProfile ?d user_u1 (env_clock env_ok) (profile_insert_fault env_ok) = Inr ?d"
    by (simp add: ensureUserProfile_def profile_u1_def user_u1_def)
  have w: "write_fault env_ok = None" by (simp add: env_ok_def)
  have "snd ?X = Saved (env_slug env_ok (form_title form_a))"
    by (rule handleSubmit_outcome_edit [OF e w])
  then have "snd ?X = Saved ''A''" by (simp add: env_ok_def form_a_def)
  then have run: "?X = ((fst (fst ?X), snd (fst ?X)), Saved ''A'')"
    by (metis prod.collapse)
  have db: "fst (fst ?X) = write_post env_ok user_u1 None False form_a ?ist ?d"
    by (rule handleSubmit_written_db [OF e w])
  have "\<exists>v. PostPage None (posts (fst (fst ?X))) ''A'' = PostView v"
    unfolding db by (simp add: write_post_def insert_post_def apply_postData_def blank_post_def PostPage_def
        single_row_def env_ok_def form_a_def)
  then obtain v where pg: "PostPage None (posts (fst (fst ?X))) ''A'' = PostView v" ..
  have "images (pv_post v) = Some [''a'', ''b''] \<and> hd [''a'', ''b''] \<notin> set (pv_gallery v) \<and>
        pv_featured v \<noteq> Some (hd [''a'', ''b''])"
    by (rule batch_first_image_hidden [OF _ _ _ _ run pg]) (simp_all add: init_image_state_def)
  with pg show ?thesis by auto
qed

text \<open>
  C29. The race of spec section 5 between two editors of the same user: an image uploaded
  in editor B, which no saved row references yet, is deleted by the cleanup of an edit saved
  in editor A (it is on the listing page, and neither A's form nor any other row of the user
  references it); when B then saves its new post, the stored row references the URL of an
  object the bucket no longer holds.
\<close>

theorem concurrent_editor_loses_upload:
  assumes A: "handleSubmit base envA (Some u) (Some p) True ffA istA (d, b) = ((d1, b1), Saved slA)"
    and faults: "list_fault envA = None" "remove_fault envA = None"
    and listed: "n \<in> set (storage_list b (user_uid u))"
    and notA: "file_url base (user_uid u) n \<notin> set (form_images istA)"
      "file_url base (user_uid u) n \<noteq> featuredImage istA"
    and notD: "\<forall>q \<in> set (posts d). author_id q = user_uid u \<longrightarrow> post_id q \<noteq> post_id p \<longrightarrow>
       file_url base (user_uid u) n \<notin> set (post_refs q)"
    and B: "handleSubmit base envB (Some u) None False ffB istB (d1, b1) = ((d2, b2), Saved slB)"
    and inB: "file_url base (user_uid u) n \<in> set (form_images istB)"
  shows "user_uid u @ ''/'' @ n \<notin> set (objects b2) \<and>
         (\<exists>r \<in> set (posts d2). author_id r = user_uid u \<and> file_url base (user_uid u) n \<in> set (post_refs r))"
proof
  obtain e1 where e: "ensureUserProfile d u (env_clock envA) (profile_insert_fault envA) = Inr e1"
    and w: "write_fault envA = None" and d1: "d1 = write_post envA u (Some p) True ffA istA e1"
    using handleSubmit_Saved [OF A] by blast
  let ?used = "save_used_images envA u istA (write_post envA u (Some p) True ffA istA e1)"
  have "b1 = fst (cleanupUnusedImages base b (user_uid u) ?used (list_fault envA) (remove_fault envA))"
    using handleSubmit_bucket_edit [OF e w, of base "Some p" ffA istA b] A by simp
  then have b1: "set (objects b1) = set (objects b) - orphan_paths base b (user_uid u) ?used"
    using faults by (simp add: cleanup_objects)
  have "file_url base (user_uid u) n \<notin> set ?used"
    using edit_save_used_subset [OF e, of envA istA p ffA] notA notD by blast
  then have "user_uid u @ ''/'' @ n \<in> orphan_paths base b (user_uid u) ?used"
    using listed by (auto simp: orphan_paths_def)
  then have gone: "user_uid u @ ''/'' @ n \<notin> set (objects b1)" by (simp add: b1)
  have "snd (fst (handleSubmit base envB (Some u) None False ffB istB (d1, b1))) = b1"
    by (cases rule: handleSubmit_cases [of base envB "Some u" None False ffB istB d1 b1]) simp_all
  with B gone show "user_uid u @ ''/'' @ n \<notin> set (objects b2)" by simp
next
  let ?r = "apply_postData ffB istB slB (user_uid u) (env_clock envB) (blank_post (env_new_id envB) (env_clock envB))"
  have "?r \<in> set (posts d2)" using handleSubmit_created [OF B] by simp
  moreover have "author_id ?r = user_uid u" by (simp add: apply_postData_def)
  moreover have "file_url base (user_uid u) n \<in> set (post_refs ?r)"
    using inB post_refs_apply_postData by blast
  ultimately show "\<exists>r \<in> set (posts d2). author_id r = user_uid u \<and> file_url base (user_uid u) n \<in> set (post_refs r)"
    by blast
qed

theorem concurrent_editor_loses_upload_witness:
  "''u1/1-k.png'' \<in> set (objects (fst (fst race_upload))) \<and>
   ''u1/1-k.png'' \<notin> set (objects (snd (fst race_save_b))) \<and>
   (\<exists>r \<in> set (posts (fst (fst race_save_b))). author_id r = ''u1'' \<and>
      file_url ''https://x'' ''u1'' ''1-k.png'' \<in> set (post_refs r))"
proof -
  have sa: "snd race_save_a = Saved ''A''"
    by (simp add: race_save_a_def race_facts(1) blog_simps env_ok_def form_a_def user_u1_def
        profile_u1_def post_a_def init_image_state_def)
  have sb: "snd race_save_b = Saved ''A''"
    by (simp add: race_save_b_def race_save_a_def race_facts(1) blog_simps env_ok_def form_a_def
        user_u1_def profile_u1_def post_a_def init_image_state_def)
  obtain d1 b1 d2 b2 where A: "race_save_a = ((d1, b1), Saved ''A'')" and B: "race_save_b = ((d2, b2), Saved ''A'')"
    using sa sb by (metis prod.collapse)
  have A': "handleSubmit ''https://x'' env_ok (Some user_u1) (Some post_a) True form_a (init_image_state (Some post_a))
      (\<lparr>posts = [post_a], profiles = [profile_u1]\<rparr>, fst (fst race_upload)) = ((d1, b1), Saved ''A'')"
    using A by (simp add: race_save_a_def)
  have B': "handleSubmit ''https://x'' env_ok (Some user_u1) None False form_a (snd (fst race_upload)) (d1, b1)
      = ((d2, b2), Saved ''A'')"
    using B unfolding race_save_b_def A by simp
  have listed: "''1-k.png'' \<in> set (storage_list (fst (fst race_upload)) (user_uid user_u1))"
    by (simp add: race_facts(1) storage_list_def child_name_def user_u1_def list_limit_def
        List.map_filter_def starts_with_def)
  have notA: "file_url ''https://x'' (user_uid user_u1) ''1-k.png'' \<notin> set (form_images (init_image_state (Some post_a)))"
    "file_url ''https://x'' (user_uid user_u1) ''1-k.png'' \<noteq> featuredImage (init_image_state (Some post_a))"
    by (simp_all add: file_url_def bucket_url_prefix_def user_u1_def init_image_state_def post_a_def
        list_or_empty_def or_empty_def)
  have notD: "\<forall>q \<in> set (posts \<lparr>posts = [post_a], profiles = [profile_u1]\<rparr>). author_id q = user_uid user_u1 \<longrightarrow>
      post_id q \<noteq> post_id post_a \<longrightarrow> file_url ''https://x'' (user_uid user_u1) ''1-k.png'' \<notin> set (post_refs q)"
    by simp
  have inB: "file_url ''https://x'' (user_uid user_u1) ''1-k.png'' \<in> set (form_images (snd (fst race_upload)))"
    by (simp add: race_facts(2) user_u1_def)
  have "user_uid user_u1 @ ''/'' @ ''1-k.png'' \<notin> set (objects b2) \<and>
    (\<exists>r \<in> set (posts d2). author_id r = user_uid user_u1 \<and>
       file_url ''https://x'' (user_uid user_u1) ''1-k.png'' \<in> set (post_refs r))"
    using concurrent_editor_loses_upload [OF A' _ _ listed notA notD B' inB] by (simp add: env_ok_def)
  then show ?thesis unfolding B by (simp add: race_facts(1) user_u1_def)
qed

end
